(* ===== verification/Fleet_Prelude.thy ===== *)
theory Fleet_Prelude
  imports Main "HOL-Library.AList" "HOL-Library.Char_ord" "HOL-Library.List_Lexorder"
begin

text \<open>
  What every component shares: the rule collections of the development, Python's truthiness of
  strings and optional strings, its \<open>str\<close> of an integer, and primary-key tables as lists of rows
  with the interface (\<open>keyed_table\<close>) through which the services read and write them.
\<close>

section \<open>Rule collections\<close>

text \<open>\<open>op_defs\<close> collects the definitions of the service operations, so that a proof about all of
  them unfolds the one at hand; \<open>frame\<close> the facts that a step leaves some part of the state
  alone; \<open>py_simps\<close> the evaluation of small Python helpers.\<close>

named_theorems op_defs "definitions of service operations"
named_theorems frame "what an operation leaves unchanged"
named_theorems py_simps "evaluation of Python helper functions"

section \<open>Python values\<close>

text \<open>Datetimes are microseconds since the epoch, \<open>timedelta(seconds=n)\<close> is \<open>seconds n\<close>.\<close>

type_synonym time = int

definition seconds :: "int \<Rightarrow> time" where
  "seconds n = n * 1000000"

text \<open>\<open>int(delta.total_seconds())\<close> truncates towards zero.\<close>

definition int_total_seconds :: "time \<Rightarrow> int" where
  "int_total_seconds d = (if 0 \<le> d then d div 1000000 else - ((- d) div 1000000))"

text \<open>\<open>x or y\<close> for an optional string \<open>x\<close>: None and the empty string are false.\<close>

definition str_or :: "string option \<Rightarrow> string \<Rightarrow> string" where
  "str_or x y = (case x of None \<Rightarrow> y | Some s \<Rightarrow> if s = [] then y else s)"

definition opt_str_or :: "string option \<Rightarrow> string option \<Rightarrow> string option" where
  "opt_str_or x y = (case x of None \<Rightarrow> y | Some s \<Rightarrow> if s = [] then y else Some s)"

text \<open>\<open>x or y\<close> for optional integers: None and 0 are false.\<close>

definition opt_int_or :: "int option \<Rightarrow> int option \<Rightarrow> int option" where
  "opt_int_or x y = (case x of None \<Rightarrow> y | Some n \<Rightarrow> if n = 0 then y else Some n)"

lemma str_or_simps [simp, py_simps]:
  "str_or None y = y"
  "str_or (Some []) y = y"
  "str_or (Some (c # cs)) y = c # cs"
  by (simp_all add: str_or_def)

lemma opt_int_or_simps [simp, py_simps]:
  "opt_int_or None y = y"
  "n \<noteq> 0 \<Longrightarrow> opt_int_or (Some n) y = Some n"
  "opt_int_or (Some 0) y = y"
  by (simp_all add: opt_int_or_def)

lemma opt_str_or_simps [simp, py_simps]:
  "opt_str_or None y = y"
  "opt_str_or (Some []) y = y"
  "opt_str_or (Some (c # cs)) y = Some (c # cs)"
  by (simp_all add: opt_str_or_def)

text \<open>\<open>s.strip()\<close>: white space at both ends.\<close>

definition py_space :: "char \<Rightarrow> bool" where
  "py_space c = (let n = of_char c :: nat in n \<in> {9, 10, 11, 12, 13, 28, 29, 30, 31, 32, 133, 160})"

definition py_strip :: "string \<Rightarrow> string" where
  "py_strip s = rev (dropWhile py_space (rev (dropWhile py_space s)))"

text \<open>Decimal digits: \<open>str(n)\<close>.\<close>

definition digit :: "nat \<Rightarrow> char" where
  "digit n = char_of (48 + n)"

fun nat_str :: "nat \<Rightarrow> string" where
  "nat_str n = (if n < 10 then [digit n] else nat_str (n div 10) @ [digit (n mod 10)])"

declare nat_str.simps [simp del]

definition int_str :: "int \<Rightarrow> string" where
  "int_str i = (if i < 0 then CHR ''-'' # nat_str (nat (- i)) else nat_str (nat i))"

section \<open>Tables\<close>

text \<open>
  A table is the list of its rows in insertion order. \<open>row_get\<close> is \<open>session.get(Model, pk)\<close>,
  \<open>row_upd\<close> an UPDATE of the rows with a key, and an INSERT appends.
\<close>

fun row_get :: "('r \<Rightarrow> string) \<Rightarrow> 'r list \<Rightarrow> string \<Rightarrow> 'r option" where
  "row_get key [] k = None"
| "row_get key (r # rs) k = (if key r = k then Some r else row_get key rs k)"

definition row_upd :: "('r \<Rightarrow> string) \<Rightarrow> string \<Rightarrow> ('r \<Rightarrow> 'r) \<Rightarrow> 'r list \<Rightarrow> 'r list" where
  "row_upd key k f rs = map (\<lambda>r. if key r = k then f r else r) rs"

lemma row_get_SomeD: "row_get key rs k = Some r \<Longrightarrow> r \<in> set rs \<and> key r = k"
  by (induction rs) (auto split: if_splits)

lemma row_get_None_iff: "row_get key rs k = None \<longleftrightarrow> k \<notin> key ` set rs"
  by (induction rs) auto

lemma row_get_append:
  "row_get key (rs @ qs) k = (case row_get key rs k of Some r \<Rightarrow> Some r | None \<Rightarrow> row_get key qs k)"
  by (induction rs) auto

lemma row_get_mem: "distinct (map key rs) \<Longrightarrow> r \<in> set rs \<Longrightarrow> row_get key rs (key r) = Some r"
  by (induction rs) (auto simp: rev_image_eqI)

lemma row_get_upd:
  "(\<And>r. key (f r) = key r) \<Longrightarrow>
   row_get key (row_upd key k f rs) j =
     (if j = k then map_option f (row_get key rs k) else row_get key rs j)"
  by (induction rs) (auto simp: row_upd_def)

lemma row_upd_keys [simp]:
  "(\<And>r. key (f r) = key r) \<Longrightarrow> map key (row_upd key k f rs) = map key rs"
  by (simp add: row_upd_def)

text \<open>The laws the services rely on, for any table.\<close>

locale keyed_table =
  fixes key :: "'r \<Rightarrow> string"
    and get :: "'r list \<Rightarrow> string \<Rightarrow> 'r option"
    and upd :: "string \<Rightarrow> ('r \<Rightarrow> 'r) \<Rightarrow> 'r list \<Rightarrow> 'r list"
  assumes get_sound: "get rs k = Some r \<Longrightarrow> r \<in> set rs \<and> key r = k"
    and get_complete: "distinct (map key rs) \<Longrightarrow> r \<in> set rs \<Longrightarrow> get rs (key r) = Some r"
    and get_insert: "key r \<notin> key ` set rs \<Longrightarrow> get (rs @ [r]) k = (if k = key r then Some r else get rs k)"
    and get_update: "(\<And>r. key (f r) = key r) \<Longrightarrow>
           get (upd k f rs) j = (if j = k then map_option f (get rs k) else get rs j)"
    and keys_update: "(\<And>r. key (f r) = key r) \<Longrightarrow> map key (upd k f rs) = map key rs"
begin

lemma get_other: "(\<And>r. key (f r) = key r) \<Longrightarrow> j \<noteq> k \<Longrightarrow> get (upd k f rs) j = get rs j"
  by (simp add: get_update)

lemma get_iff: "distinct (map key rs) \<Longrightarrow> get rs k = Some r \<longleftrightarrow> r \<in> set rs \<and> key r = k"
  using get_sound get_complete by blast

lemma get_insert_same: "key r \<notin> key ` set rs \<Longrightarrow> get (rs @ [r]) (key r) = Some r"
  by (simp add: get_insert)

lemma distinct_update: "(\<And>r. key (f r) = key r) \<Longrightarrow> distinct (map key rs) \<Longrightarrow>
    distinct (map key (upd k f rs))"
  using keys_update by metis

end

lemma row_get_insert:
  "key r \<notin> key ` set rs \<Longrightarrow> row_get key (rs @ [r]) k = (if k = key r then Some r else row_get key rs k)"
  by (induction rs) auto

lemma row_table: "keyed_table key (row_get key) (row_upd key)"
  by unfold_locales (auto simp: row_get_mem row_get_upd row_get_insert dest: row_get_SomeD)

end
