(* ===== verification/Json.thy ===== *)
theory Json
  imports Fleet_Prelude
begin

text \<open>
  JSON values as the services handle them (bodies, JSONB columns, event payloads), Python
  dictionaries over them, and \<open>json.dumps\<close> for the two ways the sources call it. A dictionary is
  an association list in insertion order with distinct keys; \<open>AList.update\<close> is Python's
  \<open>d[k] = v\<close>: it overwrites in place and appends a new key. Numbers are integers: no code under
  \<open>src/\<close> computes with a JSON float.
\<close>

section \<open>Values and dictionaries\<close>

datatype json =
    JNull
  | JBool bool
  | JInt int
  | JStr string
  | JArr "json list"
  | JObj "(string \<times> json) list"

type_synonym dict = "(string \<times> json) list"

text \<open>\<open>d.get(k)\<close> and \<open>d.get(k, v)\<close>; a missing key reads as None, as \<open>JNull\<close> does.\<close>

definition dict_get :: "dict \<Rightarrow> string \<Rightarrow> json" where
  "dict_get d k = (case map_of d k of None \<Rightarrow> JNull | Some v \<Rightarrow> v)"

definition dict_get_or :: "dict \<Rightarrow> string \<Rightarrow> json \<Rightarrow> json" where
  "dict_get_or d k v = (case map_of d k of None \<Rightarrow> v | Some w \<Rightarrow> w)"

definition dict_has :: "dict \<Rightarrow> string \<Rightarrow> bool" where
  "dict_has d k = (map_of d k \<noteq> None)"

definition dict_set :: "string \<Rightarrow> json \<Rightarrow> dict \<Rightarrow> dict" where
  "dict_set k v d = AList.update k v d"

text \<open>\<open>d.update(e)\<close>: the items of \<open>e\<close> are stored one after the other.\<close>

definition dict_update :: "dict \<Rightarrow> dict \<Rightarrow> dict" where
  "dict_update d e = fold (\<lambda>(k, v). dict_set k v) e d"

fun truthy :: "json \<Rightarrow> bool" where
  "truthy JNull = False"
| "truthy (JBool b) = b"
| "truthy (JInt n) = (n \<noteq> 0)"
| "truthy (JStr s) = (s \<noteq> [])"
| "truthy (JArr xs) = (xs \<noteq> [])"
| "truthy (JObj d) = (d \<noteq> [])"

definition jopt_str :: "string option \<Rightarrow> json" where
  "jopt_str x = (case x of None \<Rightarrow> JNull | Some s \<Rightarrow> JStr s)"

definition jopt_int :: "int option \<Rightarrow> json" where
  "jopt_int x = (case x of None \<Rightarrow> JNull | Some n \<Rightarrow> JInt n)"

text \<open>\<open>m.get(k, v) if m else v\<close> on an optional dictionary, the idiom of every metadata read.\<close>

definition meta_get_or :: "dict option \<Rightarrow> string \<Rightarrow> json \<Rightarrow> json" where
  "meta_get_or m k v = (case m of None \<Rightarrow> v | Some d \<Rightarrow> if d = [] then v else dict_get_or d k v)"

lemma map_of_dict_set [simp]: "map_of (dict_set k v d) = (map_of d)(k \<mapsto> v)"
  by (simp add: dict_set_def update_conv')

lemma keys_dict_set [simp]: "distinct (map fst d) \<Longrightarrow> distinct (map fst (dict_set k v d))"
  by (simp add: dict_set_def distinct_update)

lemma dict_set_nonempty [simp]: "dict_set k v d \<noteq> []"
  by (simp add: dict_set_def update_nonempty)

lemma dict_get_set [simp]:
  "dict_get (dict_set k v d) j = (if j = k then v else dict_get d j)"
  by (simp add: dict_get_def)

lemma dict_get_or_set [simp]:
  "dict_get_or (dict_set k v d) j w = (if j = k then v else dict_get_or d j w)"
  by (simp add: dict_get_or_def)

lemma dict_get_Nil [py_simps]: "dict_get [] k = JNull"
  by (simp add: dict_get_def)

lemma dict_get_Cons [py_simps]: "dict_get ((k, v) # d) j = (if j = k then v else dict_get d j)"
  by (simp add: dict_get_def)

lemma dict_get_or_null [py_simps]: "dict_get_or d k JNull = dict_get d k"
  by (simp add: dict_get_def dict_get_or_def)

lemma meta_get_or_null [py_simps]:
  "meta_get_or m k JNull = (case m of None \<Rightarrow> JNull | Some d \<Rightarrow> dict_get d k)"
  by (cases m) (simp_all add: meta_get_or_def dict_get_or_def dict_get_def)

lemma dict_update_Nil [simp]: "dict_update d [] = d"
  by (simp add: dict_update_def)

lemma dict_update_Cons [simp]: "dict_update d ((k, v) # e) = dict_update (dict_set k v d) e"
  by (simp add: dict_update_def)

text \<open>\<open>merged.update(extra)\<close> reads as \<open>extra\<close> where it has the key, and as \<open>merged\<close> elsewhere.\<close>

lemma map_of_dict_update:
  "distinct (map fst e) \<Longrightarrow> map_of (dict_update d e) = map_of d ++ map_of e"
proof (induction e arbitrary: d)
  case Nil
  show ?case by simp
next
  case (Cons kv e)
  obtain k v where kv: "kv = (k, v)" by force
  with Cons.prems have k: "map_of e k = None"
    by (auto simp: map_of_eq_None_iff)
  have "map_of (dict_update d (kv # e)) = (map_of d)(k \<mapsto> v) ++ map_of e"
    using Cons by (simp add: kv)
  also have "\<dots> = map_of d ++ map_of (kv # e)"
    by (rule ext) (auto simp: kv map_add_def k split: option.splits)
  finally show ?case .
qed

lemma keys_dict_update: "distinct (map fst d) \<Longrightarrow> distinct (map fst (dict_update d e))"
  by (induction e arbitrary: d) auto

section \<open>\<open>json.dumps\<close>\<close>

text \<open>
  The default serializer: separators \<open>", "\<close> and \<open>": "\<close>, and \<open>ensure_ascii\<close>: a character outside
  the printable ASCII range is a \<open>\u\<close> escape (characters here are the code points below 256).
\<close>

definition hex_digit :: "nat \<Rightarrow> char" where
  "hex_digit n = (if n < 10 then char_of (48 + n) else char_of (87 + n))"

definition json_escape :: "char \<Rightarrow> string" where
  "json_escape c =
     (let n = of_char c :: nat in
      if n = 34 then [char_of (92::nat), c]
      else if n = 92 then [c, c]
      else if n = 10 then [char_of (92::nat), CHR ''n'']
      else if n = 13 then [char_of (92::nat), CHR ''r'']
      else if n = 9 then [char_of (92::nat), CHR ''t'']
      else if n = 12 then [char_of (92::nat), CHR ''f'']
      else if n = 8 then [char_of (92::nat), CHR ''b'']
      else if 32 \<le> n \<and> n < 127 then [c]
      else [char_of (92::nat), CHR ''u'', CHR ''0'', CHR ''0'', hex_digit (n div 16), hex_digit (n mod 16)])"

definition json_string :: "string \<Rightarrow> string" where
  "json_string s = char_of (34::nat) # concat (map json_escape s) @ [char_of (34::nat)]"

fun joined :: "string \<Rightarrow> string list \<Rightarrow> string" where
  "joined sep [] = []"
| "joined sep [x] = x"
| "joined sep (x # y # zs) = x @ sep @ joined sep (y # zs)"

fun json_dumps :: "json \<Rightarrow> string" where
  "json_dumps JNull = ''null''"
| "json_dumps (JBool b) = (if b then ''true'' else ''false'')"
| "json_dumps (JInt n) = int_str n"
| "json_dumps (JStr s) = json_string s"
| "json_dumps (JArr xs) = ''['' @ joined '', '' (map json_dumps xs) @ '']''"
| "json_dumps (JObj d) =
     ''{'' @ joined '', '' (map (\<lambda>(k, v). json_string k @ '': '' @ json_dumps v) d) @ ''}''"

text \<open>\<open>json.dumps(v, sort_keys=True)\<close>: every object is written with its keys sorted.\<close>

fun sort_keys :: "json \<Rightarrow> json" where
  "sort_keys (JArr xs) = JArr (map sort_keys xs)"
| "sort_keys (JObj d) = JObj (sort_key fst (map (\<lambda>(k, v). (k, sort_keys v)) d))"
| "sort_keys v = v"

definition json_dumps_sorted :: "json \<Rightarrow> string" where
  "json_dumps_sorted v = json_dumps (sort_keys v)"

text \<open>
  Two dictionaries with the same items in another order have the same sorted text: a stable sort
  by distinct keys forgets the order of the input.
\<close>

lemma sort_key_fst_cong:
  fixes d e :: "(string \<times> 'v) list"
  assumes "set d = set e" and "distinct (map fst d)" and "distinct (map fst e)"
  shows "sort_key fst d = sort_key fst e"
proof (rule map_sorted_distinct_set_unique [where f = fst])
  show "inj_on fst (set (sort_key fst d) \<union> set (sort_key fst e))"
    using assms by (simp add: distinct_map)
  show "distinct (map fst (sort_key fst d))" "distinct (map fst (sort_key fst e))"
    using assms by (simp_all add: distinct_map)
qed (use assms in simp_all)

text \<open>The same two dictionaries (equal as Python dictionaries: the same items) have the same text.\<close>

lemma json_dumps_sorted_cong:
  assumes "map_of d = map_of e" and "distinct (map fst d)" and "distinct (map fst e)"
  shows "json_dumps_sorted (JObj d) = json_dumps_sorted (JObj e)"
proof -
  let ?f = "\<lambda>(k, v). (k, sort_keys v)"
  have fst_f: "map fst (map ?f xs) = map fst xs" for xs :: dict
    by (induction xs) auto
  have "set d = set e"
    using assms map_of_inject_set by blast
  then have "set (map ?f d) = set (map ?f e)" by simp
  then have "sort_key fst (map ?f d) = sort_key fst (map ?f e)"
    using assms(2,3) by (intro sort_key_fst_cong) (simp_all add: fst_f del: map_map)
  then show ?thesis by (simp add: json_dumps_sorted_def)
qed

end
