(* ===== verification/Errors.thy ===== *)
theory Errors
  imports Json
begin

text \<open>
  \<open>src/fleet_api/errors.py\<close>: the error codes, their HTTP status, the exception class with its
  flat dictionary, and the exceptions of the model: a service operation raises a
  \<open>FleetAPIError\<close> of some code, fails in the database at commit, or lets an ordinary Python
  exception escape. \<open>exn_status\<close> is the HTTP status the handlers of
  \<open>src/fleet_api/middleware/errors.py\<close> answer with.
\<close>

section \<open>Error codes\<close>

datatype error_code =
    ENDPOINT_NOT_FOUND
  | WORKFLOW_NOT_FOUND
  | TASK_NOT_FOUND
  | INVALID_SIGNATURE
  | AGENT_NOT_REGISTERED
  | TIMESTAMP_EXPIRED
  | NOT_AUTHORIZED
  | WORKFLOW_EXISTS
  | AGENT_EXISTS
  | INVALID_INPUT
  | IDEMPOTENCY_MISMATCH
  | RATE_LIMITED
  | EXECUTION_TIMEOUT
  | EXECUTION_FAILED
  | EXECUTOR_UNREACHABLE
  | AGENT_SUSPENDED
  | BAD_GATEWAY
  | DEPRECATED_PATH
  | INVALID_STATE_TRANSITION
  | TASK_NOT_PAUSABLE
  | TASK_NOT_PAUSED
  | PAUSE_TIMEOUT
  | CONTEXT_REJECTED
  | RETASK_NOT_REVIEWABLE
  | RETASK_DEPTH_EXCEEDED
  | REDIRECT_NOT_POSSIBLE

primrec code_value :: "error_code \<Rightarrow> string" where
  "code_value ENDPOINT_NOT_FOUND = ''ENDPOINT_NOT_FOUND''"
| "code_value WORKFLOW_NOT_FOUND = ''WORKFLOW_NOT_FOUND''"
| "code_value TASK_NOT_FOUND = ''TASK_NOT_FOUND''"
| "code_value INVALID_SIGNATURE = ''INVALID_SIGNATURE''"
| "code_value AGENT_NOT_REGISTERED = ''AGENT_NOT_REGISTERED''"
| "code_value TIMESTAMP_EXPIRED = ''TIMESTAMP_EXPIRED''"
| "code_value NOT_AUTHORIZED = ''NOT_AUTHORIZED''"
| "code_value WORKFLOW_EXISTS = ''WORKFLOW_EXISTS''"
| "code_value AGENT_EXISTS = ''AGENT_EXISTS''"
| "code_value INVALID_INPUT = ''INVALID_INPUT''"
| "code_value IDEMPOTENCY_MISMATCH = ''IDEMPOTENCY_MISMATCH''"
| "code_value RATE_LIMITED = ''RATE_LIMITED''"
| "code_value EXECUTION_TIMEOUT = ''EXECUTION_TIMEOUT''"
| "code_value EXECUTION_FAILED = ''EXECUTION_FAILED''"
| "code_value EXECUTOR_UNREACHABLE = ''EXECUTOR_UNREACHABLE''"
| "code_value AGENT_SUSPENDED = ''AGENT_SUSPENDED''"
| "code_value BAD_GATEWAY = ''BAD_GATEWAY''"
| "code_value DEPRECATED_PATH = ''DEPRECATED_PATH''"
| "code_value INVALID_STATE_TRANSITION = ''INVALID_STATE_TRANSITION''"
| "code_value TASK_NOT_PAUSABLE = ''TASK_NOT_PAUSABLE''"
| "code_value TASK_NOT_PAUSED = ''TASK_NOT_PAUSED''"
| "code_value PAUSE_TIMEOUT = ''PAUSE_TIMEOUT''"
| "code_value CONTEXT_REJECTED = ''CONTEXT_REJECTED''"
| "code_value RETASK_NOT_REVIEWABLE = ''RETASK_NOT_REVIEWABLE''"
| "code_value RETASK_DEPTH_EXCEEDED = ''RETASK_DEPTH_EXCEEDED''"
| "code_value REDIRECT_NOT_POSSIBLE = ''REDIRECT_NOT_POSSIBLE''"

primrec error_status_code :: "error_code \<Rightarrow> int" where
  "error_status_code ENDPOINT_NOT_FOUND = 404"
| "error_status_code WORKFLOW_NOT_FOUND = 404"
| "error_status_code TASK_NOT_FOUND = 404"
| "error_status_code INVALID_SIGNATURE = 401"
| "error_status_code AGENT_NOT_REGISTERED = 401"
| "error_status_code TIMESTAMP_EXPIRED = 401"
| "error_status_code NOT_AUTHORIZED = 403"
| "error_status_code WORKFLOW_EXISTS = 409"
| "error_status_code AGENT_EXISTS = 409"
| "error_status_code INVALID_INPUT = 422"
| "error_status_code IDEMPOTENCY_MISMATCH = 422"
| "error_status_code RATE_LIMITED = 429"
| "error_status_code EXECUTION_TIMEOUT = 504"
| "error_status_code EXECUTION_FAILED = 500"
| "error_status_code EXECUTOR_UNREACHABLE = 503"
| "error_status_code AGENT_SUSPENDED = 503"
| "error_status_code BAD_GATEWAY = 502"
| "error_status_code DEPRECATED_PATH = 301"
| "error_status_code INVALID_STATE_TRANSITION = 409"
| "error_status_code TASK_NOT_PAUSABLE = 409"
| "error_status_code TASK_NOT_PAUSED = 409"
| "error_status_code PAUSE_TIMEOUT = 408"
| "error_status_code CONTEXT_REJECTED = 409"
| "error_status_code RETASK_NOT_REVIEWABLE = 409"
| "error_status_code RETASK_DEPTH_EXCEEDED = 422"
| "error_status_code REDIRECT_NOT_POSSIBLE = 409"

section \<open>The exception object\<close>

record fleet_error =
  fe_code :: error_code
  fe_message :: string
  fe_suggestion :: "string option"
  fe_links :: dict
  fe_http_status :: int

definition fleet_api_error ::
    "error_code \<Rightarrow> string \<Rightarrow> string option \<Rightarrow> dict option \<Rightarrow> int option \<Rightarrow> fleet_error" where
  "fleet_api_error code message suggestion links http_status =
     \<lparr>fe_code = code, fe_message = message, fe_suggestion = suggestion,
      fe_links = (case links of None \<Rightarrow> [] | Some d \<Rightarrow> d),
      fe_http_status = (case http_status of None \<Rightarrow> error_status_code code
                        | Some n \<Rightarrow> if n = 0 then error_status_code code else n)\<rparr>"

definition error_to_dict :: "fleet_error \<Rightarrow> dict" where
  "error_to_dict e =
     (let result = [(''error'', JBool True), (''code'', JStr (code_value (fe_code e))),
                    (''message'', JStr (fe_message e))];
          result = (case fe_suggestion e of
                      None \<Rightarrow> result
                    | Some s \<Rightarrow> if s = [] then result else dict_set ''suggestion'' (JStr s) result)
      in if fe_links e = [] then result else dict_set ''_links'' (JObj (fe_links e)) result)"

section \<open>Exceptions of the model\<close>

datatype exn =
    Fleet error_code
  | DatabaseError \<comment> \<open>a constraint of the schema violated at commit, the transaction rolled back\<close>
  | PythonError   \<comment> \<open>TypeError, ValueError, KeyError and the like that no handler catches\<close>

fun exn_status :: "exn \<Rightarrow> int" where
  "exn_status (Fleet c) = error_status_code c"
| "exn_status DatabaseError = error_status_code EXECUTION_FAILED"
| "exn_status PythonError = error_status_code EXECUTION_FAILED"

lemma error_status_code_range: "301 \<le> error_status_code c \<and> error_status_code c \<le> 504"
  by (cases c) simp_all

end
