(* ===== verification/State_Machine.thy ===== *)
theory State_Machine
  imports Errors
begin

text \<open>
  \<open>src/fleet_api/tasks/state_machine.py\<close> and the priority enum of \<open>tasks/models.py\<close>: the eight
  task states, the transition table, the terminal states, the validation function with its
  exception, and the status values as strings.
\<close>

section \<open>Statuses and priorities\<close>

datatype task_status =
    ACCEPTED | RUNNING | PAUSED | COMPLETED | FAILED | CANCELLED | RETASKED | REDIRECTED

primrec status_value :: "task_status \<Rightarrow> string" where
  "status_value ACCEPTED = ''accepted''"
| "status_value RUNNING = ''running''"
| "status_value PAUSED = ''paused''"
| "status_value COMPLETED = ''completed''"
| "status_value FAILED = ''failed''"
| "status_value CANCELLED = ''cancelled''"
| "status_value RETASKED = ''retasked''"
| "status_value REDIRECTED = ''redirected''"

definition all_statuses :: "task_status list" where
  "all_statuses = [ACCEPTED, RUNNING, PAUSED, COMPLETED, FAILED, CANCELLED, RETASKED, REDIRECTED]"

text \<open>\<open>TaskStatus(value)\<close>: the member with this value, else ValueError (None).\<close>

definition status_of_value :: "string \<Rightarrow> task_status option" where
  "status_of_value v = find (\<lambda>s. status_value s = v) all_statuses"

datatype task_priority = LOW | NORMAL | HIGH | CRITICAL

primrec priority_value :: "task_priority \<Rightarrow> string" where
  "priority_value LOW = ''low''"
| "priority_value NORMAL = ''normal''"
| "priority_value HIGH = ''high''"
| "priority_value CRITICAL = ''critical''"

definition priority_of_value :: "string \<Rightarrow> task_priority option" where
  "priority_of_value v = find (\<lambda>p. priority_value p = v) [LOW, NORMAL, HIGH, CRITICAL]"

lemma status_of_value_value [simp]: "status_of_value (status_value s) = Some s"
  by (cases s) (simp_all add: status_of_value_def all_statuses_def)

lemma priority_of_value_value [simp]: "priority_of_value (priority_value p) = Some p"
  by (cases p) (simp_all add: priority_of_value_def)

lemma status_of_valueD: "status_of_value v = Some s \<Longrightarrow> v = status_value s"
  by (auto simp: status_of_value_def find_Some_iff)

lemma priority_of_valueD: "priority_of_value v = Some p \<Longrightarrow> v = priority_value p"
  by (auto simp: priority_of_value_def split: if_splits)

lemma status_value_inj [simp]: "status_value s = status_value t \<longleftrightarrow> s = t"
  by (metis option.inject status_of_value_value)

text \<open>The priority order of the pending queue (\<open>TaskService.get_pending_tasks\<close>).\<close>

primrec priority_weight :: "task_priority \<Rightarrow> nat" where
  "priority_weight CRITICAL = 4"
| "priority_weight HIGH = 3"
| "priority_weight NORMAL = 2"
| "priority_weight LOW = 1"

lemma priority_weight_inj [simp]: "priority_weight p = priority_weight q \<longleftrightarrow> p = q"
  by (cases p; cases q) simp_all

instantiation task_priority :: linorder
begin

definition less_eq_task_priority :: "task_priority \<Rightarrow> task_priority \<Rightarrow> bool" where
  "p \<le> q \<longleftrightarrow> priority_weight p \<le> priority_weight q"

definition less_task_priority :: "task_priority \<Rightarrow> task_priority \<Rightarrow> bool" where
  "p < q \<longleftrightarrow> priority_weight p < priority_weight q"

instance
  by standard (auto simp: less_eq_task_priority_def less_task_priority_def)

end

section \<open>Transitions\<close>

definition terminal_states :: "task_status list" where
  "terminal_states = [COMPLETED, FAILED, CANCELLED, RETASKED, REDIRECTED]"

text \<open>\<open>VALID_TRANSITIONS.get(s, set())\<close>, the sets as lists in the order of the source.\<close>

fun valid_transitions :: "task_status \<Rightarrow> task_status list" where
  "valid_transitions ACCEPTED = [RUNNING, CANCELLED, FAILED]"
| "valid_transitions RUNNING = [COMPLETED, FAILED, PAUSED, CANCELLED, REDIRECTED]"
| "valid_transitions PAUSED = [RUNNING, CANCELLED, REDIRECTED]"
| "valid_transitions COMPLETED = [RETASKED]"
| "valid_transitions FAILED = [RETASKED]"
| "valid_transitions _ = []"

datatype invalid_transition = InvalidStateTransition task_status task_status

definition transition_message :: "invalid_transition \<Rightarrow> string" where
  "transition_message e = (case e of InvalidStateTransition f t \<Rightarrow>
     (let valid_str = joined '', '' (sort (map status_value (valid_transitions f)))
      in ''Invalid state transition: '' @ status_value f @ '' -> '' @ status_value t @
         ''. Valid transitions from '' @ status_value f @ '': '' @
         (if valid_str = [] then ''none (terminal state)'' else valid_str)))"

definition validate_transition ::
    "task_status \<Rightarrow> task_status \<Rightarrow> invalid_transition + unit" where
  "validate_transition from_status to_status =
     (if to_status \<in> set (valid_transitions from_status) then Inr ()
      else Inl (InvalidStateTransition from_status to_status))"

definition is_terminal :: "task_status \<Rightarrow> bool" where
  "is_terminal s = (s \<in> set terminal_states)"

lemma is_terminal_simps [simp]:
  "\<not> is_terminal ACCEPTED" "\<not> is_terminal RUNNING" "\<not> is_terminal PAUSED"
  "is_terminal COMPLETED" "is_terminal FAILED" "is_terminal CANCELLED"
  "is_terminal RETASKED" "is_terminal REDIRECTED"
  by (simp_all add: is_terminal_def terminal_states_def)

lemma validate_transition_Inr [simp]:
  "validate_transition s t = Inr u \<longleftrightarrow> t \<in> set (valid_transitions s)"
  by (simp add: validate_transition_def)

text \<open>One step of the table as a relation; \<open>status_steps\<close> is any number of them.\<close>

inductive status_step :: "task_status \<Rightarrow> task_status \<Rightarrow> bool" where
  step: "t \<in> set (valid_transitions s) \<Longrightarrow> status_step s t"

inductive_simps status_step_simps: "status_step s t"

abbreviation status_steps :: "task_status \<Rightarrow> task_status \<Rightarrow> bool" where
  "status_steps \<equiv> status_step\<^sup>*\<^sup>*"

lemma status_step_neq: "status_step s t \<Longrightarrow> s \<noteq> t"
  by (cases s) (auto simp: status_step_simps)

lemma terminal_step: "status_step s t \<Longrightarrow> is_terminal s \<Longrightarrow> t = RETASKED"
  by (cases s) (auto simp: status_step_simps)

lemma terminal_closed: "status_steps s t \<Longrightarrow> is_terminal s \<Longrightarrow> is_terminal t"
  by (induction rule: rtranclp_induct) (auto dest: terminal_step)

lemma final_stuck: "s \<in> {CANCELLED, RETASKED, REDIRECTED} \<Longrightarrow> \<not> status_step s t"
  by (auto simp: status_step_simps)

lemma final_steps: "status_steps s t \<Longrightarrow> s \<in> {CANCELLED, RETASKED, REDIRECTED} \<Longrightarrow> t = s"
  by (metis converse_rtranclpE final_stuck)

lemma cancelled_reachable:
  assumes "\<not> is_terminal s"
  shows "status_step s CANCELLED"
  using assms by (cases s) (simp_all add: status_step_simps)

lemma never_accepted_again: "\<not> status_step s ACCEPTED"
  by (cases s) (auto simp: status_step_simps)

end
