(* ===== verification/Py_Time.thy ===== *)
theory Py_Time
  imports Fleet_Prelude
begin

text \<open>
  \<open>datetime.isoformat()\<close> of an aware UTC datetime, from microseconds since the epoch: the
  proleptic Gregorian date by the era arithmetic of 400-year cycles, the time of day, the
  microseconds only when they are not zero, and the offset.
\<close>

definition pad :: "nat \<Rightarrow> nat \<Rightarrow> string" where
  "pad w n = (let s = nat_str n in replicate (w - length s) (CHR ''0'') @ s)"

definition civil_from_days :: "int \<Rightarrow> int \<times> int \<times> int" where
  "civil_from_days days =
     (let z = days + 719468;
          era = z div 146097;
          doe = z - era * 146097;
          yoe = (doe - doe div 1460 + doe div 36524 - doe div 146096) div 365;
          doy = doe - (365 * yoe + yoe div 4 - yoe div 100);
          mp = (5 * doy + 2) div 153;
          d = doy - (153 * mp + 2) div 5 + 1;
          m = (if mp < 10 then mp + 3 else mp - 9);
          y = yoe + era * 400 + (if m \<le> 2 then 1 else 0)
      in (y, m, d))"

definition isoformat :: "time \<Rightarrow> string" where
  "isoformat t =
     (let days = t div 86400000000;
          rest = t mod 86400000000;
          us = rest mod 1000000;
          secs = rest div 1000000
      in case civil_from_days days of (y, m, d) \<Rightarrow>
         pad 4 (nat y) @ ''-'' @ pad 2 (nat m) @ ''-'' @ pad 2 (nat d) @ ''T'' @
         pad 2 (nat (secs div 3600)) @ '':'' @ pad 2 (nat (secs div 60 mod 60)) @ '':'' @
         pad 2 (nat (secs mod 60)) @
         (if us = 0 then [] else ''.'' @ pad 6 (nat us)) @ ''+00:00'')"

definition iso_opt :: "time option \<Rightarrow> string option" where
  "iso_opt t = map_option isoformat t"

lemma isoformat_epoch: "isoformat 0 = ''1970-01-01T00:00:00+00:00''"
  by code_simp

lemma isoformat_leap: "isoformat (951782400000000 + 3661000005) = ''2000-02-29T01:01:01.000005+00:00''"
  by code_simp

end
