(* ===== verification/Transactions.thy ===== *)
theory Transactions
  imports Models Py_Time
begin

text \<open>
  Facts about the tables, the commit and the invariant of the database, and the contract every
  task operation of the services meets: what it commits is a \<open>good_work\<close>. The locale
  \<open>task_operation\<close> draws the consequences once (the invariant is kept, statuses move along the
  transition table, the event log only grows, agents and workflows are untouched), and
  \<open>principal_operation\<close> those of the guards the principal-side operations share.
\<close>

section \<open>Reading the tables\<close>

lemma max_sequence_ge: "e \<in> set (db_events d) \<Longrightarrow> e_task_id e = k \<Longrightarrow> e_sequence e \<le> max_sequence d k"
proof -
  have fold_ge: "x \<in> set (s # ss) \<Longrightarrow> x \<le> fold max ss s" for x s :: int and ss
    by (metis List.finite_set Max.set_eq_fold Max_ge)
  assume "e \<in> set (db_events d)" and "e_task_id e = k"
  then have "e_sequence e \<in> set (map e_sequence (task_events d k))"
    by (auto simp: task_events_def)
  then show ?thesis
    by (auto simp: max_sequence_def fold_ge simp del: set_map split: list.splits)
qed

lemma max_sequence_attained:
  assumes "task_events d k \<noteq> []"
  shows "\<exists>e \<in> set (db_events d). e_task_id e = k \<and> e_sequence e = max_sequence d k"
proof -
  obtain s ss where ss: "map e_sequence (task_events d k) = s # ss"
    using assms by (cases "map e_sequence (task_events d k)") auto
  have "fold max ss s \<in> set (s # ss)"
    by (metis Max.set_eq_fold Max_in List.finite_set list.set_intros(1) empty_iff)
  then have "max_sequence d k \<in> set (map e_sequence (task_events d k))"
    by (simp add: max_sequence_def ss)
  then show ?thesis by (auto simp: task_events_def)
qed

lemma fresh_sequence: "max_sequence d k < n \<Longrightarrow> (k, n) \<notin> event_key ` set (db_events d)"
  using max_sequence_ge by (fastforce simp: event_key_def)

lemma number_events_map:
  assumes "\<And>e n. f (e\<lparr>e_id := n\<rparr>) = f e"
  shows "map f (number_events n es) = map f es"
  by (induction es arbitrary: n) (simp_all add: assms)

lemma number_events_keys [simp]: "map event_key (number_events n es) = map event_key es"
  by (rule number_events_map) (simp add: event_key_def)

lemma number_eventsD: "e \<in> set (number_events n es) \<Longrightarrow> \<exists>e' \<in> set es. \<exists>m. e = e'\<lparr>e_id := m\<rparr>"
  by (induction es arbitrary: n) auto

lemma number_eventsI: "e \<in> set es \<Longrightarrow> \<exists>m. e\<lparr>e_id := m\<rparr> \<in> set (number_events n es)"
  by (induction es arbitrary: n) auto

section \<open>Changing one task\<close>

text \<open>The columns no operation writes after the INSERT.\<close>

definition same_identity :: "task \<Rightarrow> task \<Rightarrow> bool" where
  "same_identity t u =
     (t_id u = t_id t \<and> t_workflow_id u = t_workflow_id t \<and> t_principal u = t_principal t
      \<and> t_executor u = t_executor t \<and> t_input u = t_input t
      \<and> t_timeout_seconds u = t_timeout_seconds t \<and> t_parent u = t_parent t \<and> t_root u = t_root t
      \<and> t_lineage_depth u = t_lineage_depth t \<and> t_delegation_depth u = t_delegation_depth t
      \<and> t_callback_url u = t_callback_url t \<and> t_idempotency_key u = t_idempotency_key t
      \<and> t_created_at u = t_created_at t)"

text \<open>The status stays or takes one step of the table, and a step into a terminal state (only
  that) stamps \<open>completed_at\<close>.\<close>

definition evolves :: "task \<Rightarrow> task \<Rightarrow> bool" where
  "evolves t u =
     (same_identity t u
      \<and> (t_status u = t_status t \<and> t_completed_at u = t_completed_at t
         \<or> status_step (t_status t) (t_status u)
            \<and> (if is_terminal (t_status u) then t_completed_at u \<noteq> None
               else t_completed_at u = t_completed_at t)))"

lemma same_identity_refl [simp, intro]: "same_identity t t"
  by (simp add: same_identity_def)

lemma same_identity_trans: "same_identity t u \<Longrightarrow> same_identity u v \<Longrightarrow> same_identity t v"
  by (simp add: same_identity_def)

lemma evolves_refl [simp, intro]: "evolves t t"
  by (simp add: evolves_def)

lemma evolves_identity: "evolves t u \<Longrightarrow> same_identity t u"
  by (simp add: evolves_def)

lemma evolves_steps: "evolves t u \<Longrightarrow> status_steps (t_status t) (t_status u)"
  by (auto simp: evolves_def)

lemma transition_evolves:
  assumes "transition_to n s t = Inr t'"
  shows "evolves t t'"
  using assms by (auto simp: transition_to_Inr_iff evolves_def same_identity_def status_step_simps)

lemma merge_task_same [simp]: "same_identity old new \<Longrightarrow> merge_task old new old = new"
  by (cases old; cases new) (simp add: merge_task_def same_identity_def)

lemma merge_task_identity: "same_identity row (merge_task old new row)"
  by (simp add: merge_task_def same_identity_def)

lemma merge_task_id [simp]: "t_id (merge_task old new row) = t_id row"
  by (simp add: merge_task_def)

section \<open>The invariant of the database\<close>

definition task_inv :: "task \<Rightarrow> bool" where
  "task_inv t = (t_id t \<noteq> [] \<and> (is_terminal (t_status t) \<longleftrightarrow> t_completed_at t \<noteq> None))"

definition child_of :: "task \<Rightarrow> task \<Rightarrow> bool" where
  "child_of p t =
     (t_parent t = Some (t_id p) \<and> t_root t = Some (str_or (t_root p) (t_id p))
      \<and> t_lineage_depth t = t_lineage_depth p + 1 \<and> t_workflow_id t = t_workflow_id p
      \<and> t_principal t = t_principal p \<and> t_executor t = t_executor p
      \<and> t_timeout_seconds t = t_timeout_seconds p \<and> t_delegation_depth t = t_delegation_depth p)"

definition superseded :: "task_status \<Rightarrow> bool" where
  "superseded s = (s = RETASKED \<or> s = REDIRECTED)"

text \<open>A task is a root, or the one successor of a superseded task of the same workflow.\<close>

definition lineage_inv :: "int \<Rightarrow> db \<Rightarrow> bool" where
  "lineage_inv mx d =
     ((\<forall>t \<in> set (db_tasks d). 0 \<le> t_lineage_depth t \<and> t_lineage_depth t \<le> max 0 mx \<and>
         (case t_parent t of
            None \<Rightarrow> t_root t = None \<and> t_lineage_depth t = 0
          | Some p \<Rightarrow> (\<exists>q. get_task d p = Some q \<and> child_of q t \<and> superseded (t_status q))))
      \<and> (\<forall>t \<in> set (db_tasks d). \<forall>u \<in> set (db_tasks d).
           t_parent t \<noteq> None \<longrightarrow> t_parent t = t_parent u \<longrightarrow> t_id t = t_id u))"

definition created_event :: "string \<Rightarrow> task_event \<Rightarrow> bool" where
  "created_event k e = (e_task_id e = k \<and> e_type e = ''created'' \<and> e_sequence e = 1)"

text \<open>The log of a task starts at 1 or above and its sequence numbers increase as it grows.\<close>

definition log_inv :: "db \<Rightarrow> bool" where
  "log_inv d =
     ((\<forall>t \<in> set (db_tasks d). \<exists>e \<in> set (db_events d). created_event (t_id t) e)
      \<and> (\<forall>e \<in> set (db_events d). 1 \<le> e_sequence e)
      \<and> (\<forall>k. sorted_wrt (<) (map e_sequence (task_events d k))))"

definition db_inv :: "int \<Rightarrow> db \<Rightarrow> bool" where
  "db_inv mx d =
     (constraints_ok d \<and> (\<forall>t \<in> set (db_tasks d). task_inv t) \<and> lineage_inv mx d \<and> log_inv d)"

lemma db_inv_constraints: "db_inv mx d \<Longrightarrow> constraints_ok d"
  by (simp add: db_inv_def)

lemma distinct_task_ids: "constraints_ok d \<Longrightarrow> distinct (map t_id (db_tasks d))"
  by (simp add: constraints_ok_def)

lemma get_taskD: "get_task d k = Some t \<Longrightarrow> t \<in> set (db_tasks d) \<and> t_id t = k"
  using task_tbl.get_sound by (simp add: get_task_def)

lemma get_task_id_mem: "get_task d k = Some t \<Longrightarrow> k \<in> t_id ` set (db_tasks d)"
  using get_taskD by blast

lemma get_task_mem: "constraints_ok d \<Longrightarrow> t \<in> set (db_tasks d) \<Longrightarrow> get_task d (t_id t) = Some t"
  unfolding get_task_def constraints_ok_def by (blast intro: task_tbl.get_complete)

lemma get_task_None_iff: "get_task d k = None \<longleftrightarrow> k \<notin> t_id ` set (db_tasks d)"
  by (simp add: get_task_def row_get_None_iff)

lemma empty_db_inv: "db_inv mx empty_db"
  by (simp add: db_inv_def constraints_ok_def lineage_inv_def log_inv_def empty_db_def task_events_def)

section \<open>What a task operation may commit\<close>

definition fresh_task :: "task \<Rightarrow> bool" where
  "fresh_task t =
     (t_id t \<noteq> [] \<and> t_status t = ACCEPTED \<and> t_started_at t = None \<and> t_completed_at t = None
      \<and> t_paused_at t = None)"

lemma max_sequence_nonneg: "log_inv d \<Longrightarrow> 0 \<le> max_sequence d k"
proof (cases "task_events d k = []")
  case True
  then show ?thesis by (simp add: max_sequence_def)
next
  case False
  assume "log_inv d"
  then show ?thesis using max_sequence_attained [OF False] by (fastforce simp: log_inv_def)
qed

lemma no_task_no_events:
  assumes "constraints_ok d" and "k \<notin> t_id ` set (db_tasks d)"
  shows "task_events d k = []"
  using assms by (auto simp: task_events_def constraints_ok_def event_row_ok_def filter_empty_conv)

lemma no_task_max_sequence: "constraints_ok d \<Longrightarrow> k \<notin> t_id ` set (db_tasks d) \<Longrightarrow> max_sequence d k = 0"
  by (simp add: max_sequence_def no_task_no_events)

definition root_task :: "task \<Rightarrow> bool" where
  "root_task t = (t_parent t = None \<and> t_root t = None \<and> t_lineage_depth t = 0)"

text \<open>
  A unit of work is good when the row it updates is the stored one, evolved along the table; the
  row it inserts, if any, is a fresh task that either is a root or follows the updated task,
  which becomes superseded in the same transaction below the depth limit; an inserted task comes
  with its \<open>created\<close> event; and an event continues the numbering of its task.
\<close>

definition good_update :: "db \<Rightarrow> unit_of_work \<Rightarrow> bool" where
  "good_update d uw =
     (\<forall>old new. uw_update uw = Some (old, new) \<longrightarrow> get_task d (t_id old) = Some old \<and> evolves old new)"

definition good_insert :: "int \<Rightarrow> unit_of_work \<Rightarrow> task \<Rightarrow> bool" where
  "good_insert mx uw t =
     (fresh_task t \<and> (\<exists>e \<in> set (uw_events uw). created_event (t_id t) e)
      \<and> (case uw_update uw of
           None \<Rightarrow> root_task t
         | Some (old, new) \<Rightarrow>
             child_of old t \<and> superseded (t_status new) \<and> t_status new \<noteq> t_status old
             \<and> t_lineage_depth old < mx))"

text \<open>An inserted id that is taken makes the commit fail, whatever the events are.\<close>

definition good_events :: "db \<Rightarrow> unit_of_work \<Rightarrow> bool" where
  "good_events d uw =
     (t_id ` set (uw_tasks uw) \<inter> t_id ` set (db_tasks d) = {} \<longrightarrow>
        distinct (map e_task_id (uw_events uw))
        \<and> (\<forall>e \<in> set (uw_events uw). max_sequence d (e_task_id e) < e_sequence e))"

definition good_work :: "int \<Rightarrow> db \<Rightarrow> unit_of_work \<Rightarrow> bool" where
  "good_work mx d uw =
     (good_update d uw
      \<and> (case uw_tasks uw of [] \<Rightarrow> True | [t] \<Rightarrow> good_insert mx uw t | _ \<Rightarrow> False)
      \<and> good_events d uw)"

subsection \<open>The committed database\<close>

lemma commitD: "commit uw d = Some d' \<Longrightarrow> d' = apply_work uw d \<and> constraints_ok d'"
  by (auto simp: commit_def Let_def split: if_splits)

lemmas commit_apply = commitD [THEN conjunct1]
lemmas commit_constraints = commitD [THEN conjunct2]

lemma apply_work_frame [simp]:
  "db_agents (apply_work uw d) = db_agents d"
  "db_workflows (apply_work uw d) = db_workflows d"
  "db_events (apply_work uw d) = db_events d @ number_events (db_next_event_id d) (uw_events uw)"
  "db_next_event_id (apply_work uw d) = db_next_event_id d + int (length (uw_events uw))"
  by (simp_all add: apply_work_def)

definition updated_tasks :: "unit_of_work \<Rightarrow> db \<Rightarrow> task list" where
  "updated_tasks uw d =
     (case uw_update uw of None \<Rightarrow> db_tasks d
      | Some (old, new) \<Rightarrow> row_upd t_id (t_id old) (merge_task old new) (db_tasks d))"

lemma apply_work_tasks: "db_tasks (apply_work uw d) = updated_tasks uw d @ uw_tasks uw"
  by (simp add: apply_work_def updated_tasks_def)

lemma updated_tasks_ids [simp]: "map t_id (updated_tasks uw d) = map t_id (db_tasks d)"
  by (simp add: updated_tasks_def split: option.splits prod.splits)

lemma updated_tasks_id_set [simp]: "t_id ` set (updated_tasks uw d) = t_id ` set (db_tasks d)"
  by (metis updated_tasks_ids list.set_map)

lemma updated_tasks_get:
  "row_get t_id (updated_tasks uw d) k =
     (case uw_update uw of None \<Rightarrow> get_task d k
      | Some (old, new) \<Rightarrow> (if k = t_id old then map_option (merge_task old new) (get_task d k)
                           else get_task d k))"
  by (simp add: updated_tasks_def get_task_def task_tbl.get_update split: option.splits)

lemma commit_get_task:
  assumes "commit uw d = Some d'" and "get_task d k = Some t"
  shows "get_task d' k = Some (case uw_update uw of None \<Rightarrow> t
           | Some (old, new) \<Rightarrow> if k = t_id old then merge_task old new t else t)"
proof -
  have d': "d' = apply_work uw d" using commitD [OF assms(1)] by simp
  show ?thesis
    unfolding d' get_task_def [of "apply_work uw d"] apply_work_tasks row_get_append updated_tasks_get
    using assms(2) by (auto split: option.splits)
qed

lemma commit_get_update:
  assumes "commit uw d = Some d'" and "good_update d uw" and "uw_update uw = Some (old, new)"
  shows "get_task d' (t_id old) = Some new"
  using assms commit_get_task [OF assms(1), of "t_id old" old]
  by (auto simp: good_update_def evolves_def)

lemma commit_get_other:
  assumes "commit uw d = Some d'" and "get_task d k = Some t"
    and "\<And>old new. uw_update uw = Some (old, new) \<Longrightarrow> t_id old \<noteq> k"
  shows "get_task d' k = Some t"
  using commit_get_task [OF assms(1,2)] assms(3) by (fastforce split: option.splits)

lemma commit_get_insert:
  assumes "commit uw d = Some d'" and "t \<in> set (uw_tasks uw)"
  shows "get_task d' (t_id t) = Some t"
  using commitD [OF assms(1)] assms(2) by (auto intro!: get_task_mem simp: apply_work_tasks)

text \<open>Every row after the commit is the evolution of a row before it, or the inserted one.\<close>

lemma commit_evolves:
  assumes c: "commit uw d = Some d'" and g: "good_update d uw" and t: "get_task d k = Some t"
  shows "\<exists>t'. get_task d' k = Some t' \<and> evolves t t'"
proof (cases "uw_update uw")
  case None
  then show ?thesis using commit_get_task [OF c t] by auto
next
  case (Some p)
  obtain old new where p: "p = (old, new)" by force
  with g Some have old: "get_task d (t_id old) = Some old" and ev: "evolves old new"
    by (auto simp: good_update_def)
  show ?thesis
  proof (cases "k = t_id old")
    case True
    then have "t = old" using old t by simp
    then show ?thesis using commit_get_update [OF c g] Some p True ev by blast
  next
    case False
    then show ?thesis using commit_get_task [OF c t] Some p by auto
  qed
qed

lemma commit_origin:
  assumes "constraints_ok d" and c: "commit uw d = Some d'" and g: "good_update d uw"
    and t': "t' \<in> set (db_tasks d')"
  shows "t' \<in> set (uw_tasks uw) \<or> (\<exists>t. get_task d (t_id t') = Some t \<and> evolves t t')"
proof (cases "get_task d (t_id t')")
  case None
  then have "t_id t' \<notin> t_id ` set (updated_tasks uw d)"
    by (simp add: get_task_None_iff)
  then have "t' \<notin> set (updated_tasks uw d)" by blast
  then show ?thesis
    using commitD [OF c] t' by (simp add: apply_work_tasks)
next
  case (Some t)
  from commit_evolves [OF c g Some] obtain u where
    u: "get_task d' (t_id t') = Some u" "evolves t u" by blast
  have "get_task d' (t_id t') = Some t'"
    using commit_constraints [OF c] t' by (rule get_task_mem)
  with u Some show ?thesis by simp
qed

subsection \<open>Good work keeps the invariant\<close>

lemma evolves_task_inv: "evolves t u \<Longrightarrow> task_inv t \<Longrightarrow> task_inv u"
  by (auto simp: evolves_def task_inv_def same_identity_def dest: terminal_step split: if_splits)

lemma fresh_task_inv: "fresh_task t \<Longrightarrow> task_inv t"
  by (simp add: fresh_task_def task_inv_def)

lemma evolves_superseded: "evolves t u \<Longrightarrow> superseded (t_status t) \<Longrightarrow> t_status u = t_status t"
  by (auto simp: superseded_def dest!: evolves_steps final_steps)

lemma child_of_evolves: "child_of p t \<Longrightarrow> evolves p p' \<Longrightarrow> evolves t t' \<Longrightarrow> child_of p' t'"
  by (simp add: child_of_def evolves_def same_identity_def)

lemma good_work_insert:
  assumes "good_work mx d uw" and "t \<in> set (uw_tasks uw)"
  shows "good_insert mx uw t \<and> uw_tasks uw = [t]"
  using assms by (auto simp: good_work_def split: list.splits)

lemma good_work_update: "good_work mx d uw \<Longrightarrow> good_update d uw"
  by (simp add: good_work_def)

lemma commit_lineage_row:
  assumes inv: "db_inv mx d" and g: "good_work mx d uw" and c: "commit uw d = Some d'"
    and t: "t \<in> set (db_tasks d')"
  shows "0 \<le> t_lineage_depth t \<and> t_lineage_depth t \<le> max 0 mx \<and>
    (case t_parent t of
       None \<Rightarrow> t_root t = None \<and> t_lineage_depth t = 0
     | Some p \<Rightarrow> (\<exists>q. get_task d' p = Some q \<and> child_of q t \<and> superseded (t_status q)))"
  using commit_origin [OF db_inv_constraints [OF inv] c good_work_update [OF g] t]
proof
  assume "t \<in> set (uw_tasks uw)"
  then have gi: "good_insert mx uw t" using good_work_insert [OF g] by blast
  show ?thesis
  proof (cases "uw_update uw")
    case None
    then show ?thesis using gi by (simp add: good_insert_def root_task_def)
  next
    case (Some p)
    obtain old new where p: "p = (old, new)" by force
    have ch: "child_of old t" "superseded (t_status new)" "t_lineage_depth old < mx"
      using gi Some p by (simp_all add: good_insert_def)
    have new: "get_task d' (t_id old) = Some new"
      using commit_get_update [OF c good_work_update [OF g]] Some p by blast
    have "evolves old new" using good_work_update [OF g] Some p by (simp add: good_update_def)
    then have "child_of new t" using ch(1) by (blast intro: child_of_evolves)
    moreover have "0 \<le> t_lineage_depth old"
    proof -
      have "get_task d (t_id old) = Some old"
        using good_work_update [OF g] Some p by (simp add: good_update_def)
      then show ?thesis using inv by (auto simp: db_inv_def lineage_inv_def dest!: get_taskD)
    qed
    ultimately show ?thesis using ch new by (simp add: child_of_def)
  qed
next
  assume "\<exists>t0. get_task d (t_id t) = Some t0 \<and> evolves t0 t"
  then obtain t0 where t0: "get_task d (t_id t) = Some t0" and ev: "evolves t0 t" by blast
  have same: "t_parent t = t_parent t0" "t_root t = t_root t0" "t_lineage_depth t = t_lineage_depth t0"
    using ev by (simp_all add: evolves_def same_identity_def)
  have lin: "0 \<le> t_lineage_depth t0 \<and> t_lineage_depth t0 \<le> max 0 mx \<and> (case t_parent t0 of
       None \<Rightarrow> t_root t0 = None \<and> t_lineage_depth t0 = 0
     | Some p \<Rightarrow> (\<exists>q. get_task d p = Some q \<and> child_of q t0 \<and> superseded (t_status q)))"
    using inv get_taskD [OF t0] by (simp add: db_inv_def lineage_inv_def)
  show ?thesis
  proof (cases "t_parent t0")
    case None
    then show ?thesis using lin same by simp
  next
    case (Some p)
    with lin obtain q where q: "get_task d p = Some q" "child_of q t0" "superseded (t_status q)" by auto
    from commit_evolves [OF c good_work_update [OF g] q(1)] obtain q' where
      "get_task d' p = Some q'" "evolves q q'" by blast
    then show ?thesis
      using q lin Some same child_of_evolves [OF q(2) _ ev] evolves_superseded by auto
  qed
qed

lemma commit_one_child:
  assumes inv: "db_inv mx d" and g: "good_work mx d uw" and c: "commit uw d = Some d'"
    and t: "t \<in> set (uw_tasks uw)" and u0: "u0 \<in> set (db_tasks d)" and p: "t_parent t \<noteq> None"
  shows "t_parent t \<noteq> t_parent u0"
proof
  assume eq: "t_parent t = t_parent u0"
  have gi: "good_insert mx uw t" using good_work_insert [OF g t] by blast
  then obtain old new where u: "uw_update uw = Some (old, new)" and ch: "child_of old t"
    and st: "superseded (t_status new)" "t_status new \<noteq> t_status old"
    using p by (auto simp: good_insert_def root_task_def split: option.splits)
  have old: "get_task d (t_id old) = Some old" "evolves old new"
    using good_work_update [OF g] u by (simp_all add: good_update_def)
  have "t_parent u0 = Some (t_id old)" using ch eq by (simp add: child_of_def)
  then have "superseded (t_status old)"
    using inv u0 old(1) by (fastforce simp: db_inv_def lineage_inv_def)
  then show False using evolves_superseded [OF old(2)] st by simp
qed

lemma commit_lineage:
  assumes inv: "db_inv mx d" and g: "good_work mx d uw" and c: "commit uw d = Some d'"
  shows "lineage_inv mx d'"
proof -
  have one: "t_id t = t_id u"
    if tu: "t \<in> set (db_tasks d')" "u \<in> set (db_tasks d')" and p: "t_parent t \<noteq> None" "t_parent t = t_parent u" for t u
  proof -
    note org = commit_origin [OF db_inv_constraints [OF inv] c good_work_update [OF g]]
    have old: "\<exists>x0 \<in> set (db_tasks d). t_parent x = t_parent x0 \<and> t_id x = t_id x0"
      if "x \<in> set (db_tasks d')" "x \<notin> set (uw_tasks uw)" for x
      using org [OF that(1)] that(2)
      by (auto simp: evolves_def same_identity_def dest!: get_taskD)
    show ?thesis
    proof (cases "t \<in> set (uw_tasks uw)"; cases "u \<in> set (uw_tasks uw)")
      assume "t \<in> set (uw_tasks uw)" "u \<in> set (uw_tasks uw)"
      then show ?thesis using good_work_insert [OF g] by fastforce
    next
      assume "t \<in> set (uw_tasks uw)" "u \<notin> set (uw_tasks uw)"
      then show ?thesis using commit_one_child [OF inv g c] old [OF tu(2)] p by metis
    next
      assume "t \<notin> set (uw_tasks uw)" "u \<in> set (uw_tasks uw)"
      then show ?thesis using commit_one_child [OF inv g c] old [OF tu(1)] p by metis
    next
      assume nt: "t \<notin> set (uw_tasks uw)" and nu: "u \<notin> set (uw_tasks uw)"
      obtain t0 where t0: "t0 \<in> set (db_tasks d)" "t_parent t = t_parent t0" "t_id t = t_id t0"
        using old [OF tu(1) nt] by blast
      obtain u0 where u0: "u0 \<in> set (db_tasks d)" "t_parent u = t_parent u0" "t_id u = t_id u0"
        using old [OF tu(2) nu] by blast
      have "t_id t0 = t_id u0"
        using inv t0(1) u0(1) p t0(2) u0(2) unfolding db_inv_def lineage_inv_def by metis
      then show ?thesis using t0(3) u0(3) by simp
    qed
  qed
  then show ?thesis
    using commit_lineage_row [OF inv g c] unfolding lineage_inv_def by blast
qed

lemma commit_fresh_ids:
  assumes "commit uw d = Some d'"
  shows "t_id ` set (uw_tasks uw) \<inter> t_id ` set (db_tasks d) = {}"
proof -
  have "distinct (map t_id (updated_tasks uw d @ uw_tasks uw))"
    using commitD [OF assms] unfolding constraints_ok_def by (metis apply_work_tasks)
  then show ?thesis unfolding map_append distinct_append updated_tasks_ids list.set_map by blast
qed

lemma good_work_events:
  assumes "good_work mx d uw" and "commit uw d = Some d'"
  shows "distinct (map e_task_id (uw_events uw))
         \<and> (\<forall>e \<in> set (uw_events uw). max_sequence d (e_task_id e) < e_sequence e)"
  using assms(1) commit_fresh_ids [OF assms(2)] by (simp add: good_work_def good_events_def)

text \<open>So a commit appends at most one event to the log of a task, and it is later than all of them.\<close>

lemma numbered_of_task:
  assumes "distinct (map e_task_id es)"
  shows "filter (\<lambda>e. e_task_id e = k) (number_events n es) = []
         \<or> (\<exists>e \<in> set es. \<exists>m. e_task_id e = k \<and> filter (\<lambda>e. e_task_id e = k) (number_events n es) = [e\<lparr>e_id := m\<rparr>])"
  using assms
proof (induction es arbitrary: n)
  case Nil
  then show ?case by simp
next
  case (Cons a es)
  show ?case
  proof (cases "e_task_id a = k")
    case True
    then have "filter (\<lambda>e. e_task_id e = k) (number_events (n + 1) es) = []"
      using Cons.prems number_eventsD [of _ "n + 1" es] by (fastforce simp: filter_empty_conv image_iff)
    then show ?thesis using True by auto
  next
    case False
    then show ?thesis using Cons.IH [of "n + 1"] Cons.prems by auto
  qed
qed

lemma commit_task_events:
  assumes g: "good_work mx d uw" and c: "commit uw d = Some d'"
  shows "task_events d' k = task_events d k
         \<or> (\<exists>e. max_sequence d k < e_sequence e \<and> e_task_id e = k \<and> task_events d' k = task_events d k @ [e])"
proof -
  note ev = good_work_events [OF g c]
  have log: "task_events d' k = task_events d k
          @ filter (\<lambda>e. e_task_id e = k) (number_events (db_next_event_id d) (uw_events uw))"
    using commit_apply [OF c] by (simp add: task_events_def)
  from numbered_of_task [OF ev [THEN conjunct1], of k "db_next_event_id d"] consider
      "filter (\<lambda>e. e_task_id e = k) (number_events (db_next_event_id d) (uw_events uw)) = []"
    | e m where "e \<in> set (uw_events uw)" "e_task_id e = k"
        "filter (\<lambda>e. e_task_id e = k) (number_events (db_next_event_id d) (uw_events uw)) = [e\<lparr>e_id := m\<rparr>]"
    by blast
  then show ?thesis
  proof cases
    case 1
    then show ?thesis by (simp add: log)
  next
    case 2
    then have "max_sequence d k < e_sequence (e\<lparr>e_id := m\<rparr>) \<and> e_task_id (e\<lparr>e_id := m\<rparr>) = k"
      using ev by auto
    then show ?thesis using 2(3) log by metis
  qed
qed

lemma commit_log:
  assumes inv: "db_inv mx d" and g: "good_work mx d uw" and c: "commit uw d = Some d'"
  shows "log_inv d'"
proof -
  have ev: "db_events d' = db_events d @ number_events (db_next_event_id d) (uw_events uw)"
    using commit_apply [OF c] by simp
  have "\<exists>e \<in> set (db_events d'). created_event (t_id t) e" if t: "t \<in> set (db_tasks d')" for t
    using commit_origin [OF db_inv_constraints [OF inv] c good_work_update [OF g] t]
  proof
    assume "t \<in> set (uw_tasks uw)"
    then have "good_insert mx uw t" using good_work_insert [OF g] by blast
    then obtain e where "e \<in> set (uw_events uw)" and ce: "created_event (t_id t) e"
      by (auto simp: good_insert_def)
    then obtain m where "e\<lparr>e_id := m\<rparr> \<in> set (db_events d')"
      unfolding ev using number_eventsI by fastforce
    moreover have "created_event (t_id t) (e\<lparr>e_id := m\<rparr>)" using ce by (simp add: created_event_def)
    ultimately show ?thesis by blast
  next
    assume "\<exists>t0. get_task d (t_id t) = Some t0 \<and> evolves t0 t"
    then obtain t0 where "t0 \<in> set (db_tasks d)" "t_id t0 = t_id t" by (auto dest: get_taskD)
    then obtain e where "e \<in> set (db_events d)" "created_event (t_id t) e"
      using inv unfolding db_inv_def log_inv_def by metis
    then show ?thesis by (auto simp: ev)
  qed
  moreover have "1 \<le> e_sequence e" if "e \<in> set (db_events d')" for e
    using that inv good_work_events [OF g c] max_sequence_nonneg [of d "e_task_id e"]
    by (force simp: ev db_inv_def log_inv_def dest!: number_eventsD)
  moreover have "sorted_wrt (<) (map e_sequence (task_events d' k))" for k
  proof -
    have *: "sorted_wrt (<) (map e_sequence (task_events d k))"
      using inv by (simp add: db_inv_def log_inv_def)
    have "e_sequence x \<le> max_sequence d k" if "x \<in> set (task_events d k)" for x
      using that max_sequence_ge by (auto simp: task_events_def)
    then show ?thesis
      using * commit_task_events [OF g c, of k] by (fastforce simp: sorted_wrt_append)
  qed
  ultimately show ?thesis by (simp add: log_inv_def)
qed

theorem commit_inv:
  assumes inv: "db_inv mx d" and g: "good_work mx d uw" and c: "commit uw d = Some d'"
  shows "db_inv mx d'"
proof -
  have "task_inv t" if t: "t \<in> set (db_tasks d')" for t
    using commit_origin [OF db_inv_constraints [OF inv] c good_work_update [OF g] t]
  proof
    assume "t \<in> set (uw_tasks uw)"
    then show ?thesis using good_work_insert [OF g] fresh_task_inv by (auto simp: good_insert_def)
  next
    assume "\<exists>t0. get_task d (t_id t) = Some t0 \<and> evolves t0 t"
    then show ?thesis using inv evolves_task_inv by (auto simp: db_inv_def dest!: get_taskD)
  qed
  then show ?thesis
    using commit_constraints [OF c] commit_lineage [OF inv g c] commit_log [OF inv g c]
    by (simp add: db_inv_def)
qed

end
