(* ===== verification/Contract.thy ===== *)
theory Contract
  imports Transactions
begin

text \<open>
  When a commit goes through, and the contracts of the service operations as locales: a
  \<open>task_operation\<close> commits good work only; a \<open>principal_operation\<close> also checks, before anything
  else, that the workflow and the task exist and that the caller is the task's principal or the
  workflow's owner.
\<close>

section \<open>Success of a commit\<close>

lemma idem_keys_append [simp]: "idem_keys (ts @ us) = idem_keys ts @ idem_keys us"
  by (induction ts) (auto split: option.splits)

lemma idem_keys_cong: "map t_idempotency_key ts = map t_idempotency_key us \<Longrightarrow> idem_keys ts = idem_keys us"
proof (induction ts arbitrary: us)
  case Nil
  then show ?case by simp
next
  case (Cons t ts)
  then obtain u us' where us: "us = u # us'" by (cases us) auto
  with Cons have "idem_keys ts = idem_keys us'" by simp
  then show ?case using Cons.prems us by (simp split: option.splits)
qed

lemma updated_tasks_idem [simp]: "idem_keys (updated_tasks uw d) = idem_keys (db_tasks d)"
  by (rule idem_keys_cong)
     (auto simp: updated_tasks_def row_upd_def merge_task_def split: option.splits)

lemma task_row_ok_mono:
  assumes "task_row_ok d t" and "same_identity t u"
    and "set (map t_id (db_tasks d)) \<subseteq> set (map t_id (db_tasks d'))"
    and "db_agents d' = db_agents d" and "db_workflows d' = db_workflows d"
  shows "task_row_ok d' u"
  using assms
  by (auto simp: task_row_ok_def same_identity_def references_def split: option.splits)

lemma updated_row:
  assumes "u \<in> set (updated_tasks uw d)"
  shows "\<exists>t \<in> set (db_tasks d). same_identity t u"
  using assms merge_task_identity
  by (fastforce simp: updated_tasks_def row_upd_def split: option.splits prod.splits if_splits)

lemma apply_work_ids: "set (map t_id (db_tasks d)) \<subseteq> set (map t_id (db_tasks (apply_work uw d)))"
  by (simp add: apply_work_tasks)

lemma event_row_ok_id [simp]: "event_row_ok d (e\<lparr>e_id := n\<rparr>) = event_row_ok d e"
  by (simp add: event_row_ok_def)

text \<open>The rows of the unit of work itself are all that has to be checked.\<close>

lemma commit_succeeds:
  assumes ok: "constraints_ok d"
    and ids: "distinct (map t_id (uw_tasks uw))" "t_id ` set (uw_tasks uw) \<inter> t_id ` set (db_tasks d) = {}"
    and idem: "distinct (idem_keys (uw_tasks uw))"
              "set (idem_keys (uw_tasks uw)) \<inter> set (idem_keys (db_tasks d)) = {}"
    and keys: "distinct (map event_key (uw_events uw))"
              "event_key ` set (uw_events uw) \<inter> event_key ` set (db_events d) = {}"
    and trows: "\<And>t. t \<in> set (uw_tasks uw) \<Longrightarrow> task_row_ok (apply_work uw d) t"
    and erows: "\<And>e. e \<in> set (uw_events uw) \<Longrightarrow> event_row_ok (apply_work uw d) e"
  shows "commit uw d = Some (apply_work uw d)"
proof -
  let ?d = "apply_work uw d"
  have "distinct (map t_id (db_tasks ?d))"
    using ok ids unfolding constraints_ok_def apply_work_tasks map_append updated_tasks_ids
      distinct_append list.set_map by blast
  moreover have "distinct (idem_keys (db_tasks ?d))"
    using ok idem by (auto simp: apply_work_tasks constraints_ok_def)
  moreover have "distinct (map event_key (db_events ?d))"
  proof -
    have "map event_key (db_events ?d) = map event_key (db_events d) @ map event_key (uw_events uw)"
      by simp
    moreover have "distinct \<dots>"
      using ok keys unfolding constraints_ok_def distinct_append list.set_map by blast
    ultimately show ?thesis by (simp only:)
  qed
  moreover have "\<forall>t \<in> set (db_tasks ?d). task_row_ok ?d t"
  proof
    fix t assume "t \<in> set (db_tasks ?d)"
    then consider "t \<in> set (updated_tasks uw d)" | "t \<in> set (uw_tasks uw)"
      by (auto simp: apply_work_tasks)
    then show "task_row_ok ?d t"
    proof cases
      case 1
      then obtain t0 where "t0 \<in> set (db_tasks d)" "same_identity t0 t"
        using updated_row by blast
      then show ?thesis
        using ok by (intro task_row_ok_mono [OF _ _ apply_work_ids]) (auto simp: constraints_ok_def)
    next
      case 2
      then show ?thesis by (rule trows)
    qed
  qed
  moreover have "\<forall>e \<in> set (db_events ?d). event_row_ok ?d e"
  proof
    fix e assume "e \<in> set (db_events ?d)"
    then consider "e \<in> set (db_events d)" | "e \<in> set (number_events (db_next_event_id d) (uw_events uw))"
      by auto
    then show "event_row_ok ?d e"
    proof cases
      case 1
      then have "event_row_ok d e" using ok by (simp add: constraints_ok_def)
      then show ?thesis using apply_work_ids [of d uw] by (auto simp: event_row_ok_def)
    next
      case 2
      then show ?thesis using erows by (auto dest!: number_eventsD)
    qed
  qed
  ultimately have "constraints_ok ?d"
    using ok by (simp add: constraints_ok_def)
  then show ?thesis by (simp add: commit_def)
qed

text \<open>The common case: one loaded task (or none) changed, and one event appended to its log.\<close>

lemma commit_one_event:
  assumes ok: "constraints_ok d" and task: "get_task d (e_task_id e) = Some t"
    and len: "length (e_type e) \<le> 64" and sq: "int4 (e_sequence e)" "max_sequence d (e_task_id e) < e_sequence e"
  shows "commit \<lparr>uw_update = u, uw_tasks = [], uw_events = [e]\<rparr> d =
         Some (apply_work \<lparr>uw_update = u, uw_tasks = [], uw_events = [e]\<rparr> d)"
proof (rule commit_succeeds [OF ok])
  let ?uw = "\<lparr>uw_update = u, uw_tasks = [], uw_events = [e]\<rparr>"
  show "event_key ` set (uw_events ?uw) \<inter> event_key ` set (db_events d) = {}"
    using fresh_sequence [OF sq(2)] by (simp add: event_key_def)
  have "e_task_id e \<in> t_id ` set (db_tasks d)"
    using task by (rule get_task_id_mem)
  then show "event_row_ok (apply_work ?uw d) x" if "x \<in> set (uw_events ?uw)" for x
    using that len sq(1) apply_work_ids [of d ?uw] by (auto simp: event_row_ok_def)
qed simp_all

text \<open>The sequence is exhausted when the next number does not fit the column.\<close>

definition sequence_left :: "db \<Rightarrow> string \<Rightarrow> bool" where
  "sequence_left d k = (max_sequence d k < 2147483647)"

lemma next_sequence_int4: "db_inv mx d \<Longrightarrow> sequence_left d k \<Longrightarrow> int4 (max_sequence d k + 1)"
  using max_sequence_nonneg [of d k] by (simp add: sequence_left_def int4_def db_inv_def)

lemma next_sequence_overflow: "\<not> sequence_left d k \<Longrightarrow> \<not> int4 (max_sequence d k + 1)"
  by (simp add: sequence_left_def int4_def)

lemma commit_bad_event:
  assumes "e \<in> set (uw_events uw)" and "\<not> int4 (e_sequence e)"
  shows "commit uw d = None"
proof -
  obtain n where n: "e\<lparr>e_id := n\<rparr> \<in> set (db_events (apply_work uw d))"
    using number_eventsI [OF assms(1)] by fastforce
  have "\<not> event_row_ok (apply_work uw d) (e\<lparr>e_id := n\<rparr>)"
    using assms(2) by (simp add: event_row_ok_def)
  with n have "\<not> constraints_ok (apply_work uw d)"
    unfolding constraints_ok_def by blast
  then show ?thesis by (simp add: commit_def)
qed

section \<open>The tasks a commit concerns\<close>

text \<open>Work on one task: its row is the only one updated, and events belong to it or to inserted tasks.\<close>

definition concerns :: "string \<Rightarrow> unit_of_work \<Rightarrow> bool" where
  "concerns tid uw =
     ((\<forall>old new. uw_update uw = Some (old, new) \<longrightarrow> t_id old = tid)
      \<and> (\<forall>e \<in> set (uw_events uw). e_task_id e = tid \<or> e_task_id e \<in> t_id ` set (uw_tasks uw)))"

lemma concernsD: "concerns tid uw \<Longrightarrow> uw_update uw = Some (old, new) \<Longrightarrow> t_id old = tid"
  by (simp add: concerns_def)

lemma concerns_other:
  assumes c: "commit uw d = Some d'" and uw: "concerns tid uw" and t: "get_task d k = Some t" and k: "k \<noteq> tid"
  shows "get_task d' k = Some t \<and> task_events d' k = task_events d k"
proof -
  have "k \<notin> t_id ` set (uw_tasks uw)"
    using commit_fresh_ids [OF c] get_task_id_mem [OF t] by blast
  then have foreign: "\<forall>e \<in> set (uw_events uw). e_task_id e \<noteq> k"
    using uw k by (auto simp: concerns_def)
  have "filter (\<lambda>e. e_task_id e = k) (number_events n (uw_events uw)) = []" for n
  proof -
    have "e_task_id e \<noteq> k" if "e \<in> set (number_events n (uw_events uw))" for e
      using number_eventsD [OF that] foreign by auto
    then show ?thesis by (simp add: filter_empty_conv)
  qed
  then have "task_events d' k = task_events d k"
    using commit_apply [OF c] by (simp add: task_events_def)
  moreover have "get_task d' k = Some t"
    by (rule commit_get_other [OF c t]) (use concernsD [OF uw] k in blast)
  ultimately show ?thesis by blast
qed

section \<open>The contract of a task operation\<close>

locale task_operation =
  fixes mx :: int and opr :: "db \<Rightarrow> 'a tx"
  assumes good: "db_inv mx d \<Longrightarrow> tx_work (opr d) = Some uw \<Longrightarrow> good_work mx d uw"
begin

lemma run_cases:
  obtains (unchanged) "snd (run_tx (opr d) d) = d"
  | (committed) uw where "tx_work (opr d) = Some uw" "commit uw d = Some (snd (run_tx (opr d) d))"
proof (cases "opr d")
  case (Commit uw r)
  then show ?thesis using unchanged committed by (cases "commit uw d") auto
next
  case (CommitRaise uw e)
  then show ?thesis using unchanged committed by (cases "commit uw d") auto
qed (use unchanged in auto)

lemma run_inv: "db_inv mx d \<Longrightarrow> db_inv mx (snd (run_tx (opr d) d))"
  by (rule run_cases [of d]) (auto intro: commit_inv good)

lemma run_evolves:
  assumes "db_inv mx d" and "get_task d k = Some t"
  shows "\<exists>t'. get_task (snd (run_tx (opr d) d)) k = Some t' \<and> evolves t t'"
  by (rule run_cases [of d])
     (use assms commit_evolves good good_work_update in \<open>auto, blast\<close>)

lemma run_log_prefix: "\<exists>es. db_events (snd (run_tx (opr d) d)) = db_events d @ es"
  by (rule run_cases [of d]) (auto dest: commit_apply)

lemma run_task_events:
  assumes "db_inv mx d"
  shows "task_events (snd (run_tx (opr d) d)) k = task_events d k
         \<or> (\<exists>e. max_sequence d k < e_sequence e \<and> e_task_id e = k
               \<and> task_events (snd (run_tx (opr d) d)) k = task_events d k @ [e])"
  by (rule run_cases [of d]) (use assms commit_task_events good in \<open>auto, blast\<close>)

lemma run_concerns:
  assumes "\<And>uw. tx_work (opr d) = Some uw \<Longrightarrow> concerns tid uw" and "get_task d k = Some t" and "k \<noteq> tid"
  shows "get_task (snd (run_tx (opr d) d)) k = Some t
         \<and> task_events (snd (run_tx (opr d) d)) k = task_events d k"
proof (rule run_cases [of d])
  fix uw assume uw: "tx_work (opr d) = Some uw" and c: "commit uw d = Some (snd (run_tx (opr d) d))"
  show ?thesis by (rule concerns_other [OF c assms(1) [OF uw] assms(2,3)])
qed (simp add: assms(2))

lemma run_frame:
  "db_agents (snd (run_tx (opr d) d)) = db_agents d \<and> db_workflows (snd (run_tx (opr d) d)) = db_workflows d"
  by (rule run_cases [of d]) (auto dest: commit_apply)

end

locale principal_operation = task_operation mx opr
  for mx :: int and opr :: "db \<Rightarrow> 'a tx" +
  fixes wid tid caller :: string
  assumes no_workflow: "get_workflow d wid = None \<Longrightarrow> opr d = Raise (Fleet WORKFLOW_NOT_FOUND)"
    and no_task: "get_workflow d wid = Some w \<Longrightarrow> get_task d tid = None \<Longrightarrow>
           opr d = Raise (Fleet TASK_NOT_FOUND)"
    and foreign_task: "get_workflow d wid = Some w \<Longrightarrow> get_task d tid = Some t \<Longrightarrow>
           t_workflow_id t \<noteq> wid \<Longrightarrow> opr d = Raise (Fleet TASK_NOT_FOUND)"
    and not_principal: "get_workflow d wid = Some w \<Longrightarrow> get_task d tid = Some t \<Longrightarrow>
           t_workflow_id t = wid \<Longrightarrow> caller \<noteq> t_principal t \<Longrightarrow> caller \<noteq> w_owner w \<Longrightarrow>
           opr d = Raise (Fleet NOT_AUTHORIZED)"
    and target: "tx_work (opr d) = Some uw \<Longrightarrow> concerns tid uw"
begin

text \<open>Whoever changes anything is the principal or the owner of the workflow of an existing task.\<close>

lemma only_principal:
  assumes "snd (run_tx (opr d) d) \<noteq> d"
  shows "\<exists>w t. get_workflow d wid = Some w \<and> get_task d tid = Some t \<and> t_workflow_id t = wid
               \<and> (caller = t_principal t \<or> caller = w_owner w)"
proof (rule ccontr)
  assume "\<not> ?thesis"
  then have "(\<exists>c. opr d = Raise (Fleet c))"
    using no_workflow [of d] no_task [of d] foreign_task [of d] not_principal [of d]
    by (metis not_None_eq)
  then show False using assms by auto
qed

text \<open>No other stored task changes, nor its log.\<close>

lemma others_kept:
  "get_task d k = Some t \<Longrightarrow> k \<noteq> tid \<Longrightarrow>
    get_task (snd (run_tx (opr d) d)) k = Some t
    \<and> task_events (snd (run_tx (opr d) d)) k = task_events d k"
  by (rule run_concerns) (erule target)

lemmas other_tasks = others_kept [THEN conjunct1]

end

end
