(* ===== verification/Lifecycle.thy ===== *)
theory Lifecycle
  imports Contract
begin

text \<open>
  \<open>src/fleet_api/tasks/lifecycle.py\<close>, the principal-side operations on a task (cancel, retask,
  redirect, pause, resume) and the lineage chain, with the idempotency check of \<open>tasks/crud.py\<close>
  they share with task creation. Each operation is a transaction over the database it reads:
  the checks in the order of the source, then the unit of work it commits.
\<close>

section \<open>Idempotency\<close>

text \<open>\<open>Inl\<close> is the 422 for another input under the same key.\<close>

definition input_hash :: "env \<Rightarrow> dict \<Rightarrow> string" where
  "input_hash env d = env_sha256 env (json_dumps_sorted (JObj d))"

definition check_idempotency :: "env \<Rightarrow> db \<Rightarrow> string \<Rightarrow> dict \<Rightarrow> exn + task option" where
  "check_idempotency env d idempotency_key input_data =
     (case find (\<lambda>t. t_idempotency_key t = Some idempotency_key) (db_tasks d) of
        None \<Rightarrow> Inr None
      | Some existing \<Rightarrow>
          let existing_hash = input_hash env (t_input existing);
              new_hash = input_hash env input_data
          in if existing_hash = new_hash then Inr (Some existing)
             else Inl (Fleet IDEMPOTENCY_MISMATCH))"

section \<open>Cancel\<close>

definition cancel_task ::
    "env \<Rightarrow> string \<Rightarrow> string \<Rightarrow> string \<Rightarrow> string option \<Rightarrow> db \<Rightarrow> task tx" where [op_defs]:
  "cancel_task env workflow_id task_id cancelled_by reason d =
     (case get_workflow d workflow_id of
        None \<Rightarrow> Raise (Fleet WORKFLOW_NOT_FOUND)
      | Some workflow \<Rightarrow>
     (case get_task d task_id of
        None \<Rightarrow> Raise (Fleet TASK_NOT_FOUND)
      | Some task \<Rightarrow>
     if t_workflow_id task \<noteq> workflow_id then Raise (Fleet TASK_NOT_FOUND)
     else if cancelled_by \<noteq> t_principal task \<and> cancelled_by \<noteq> w_owner workflow
       then Raise (Fleet NOT_AUTHORIZED)
     else
     (case transition_to (env_now_utc env) CANCELLED task of
        Inl _ \<Rightarrow> Raise (Fleet INVALID_STATE_TRANSITION)
      | Inr task' \<Rightarrow>
          let next_sequence = max_sequence d (t_id task') + 1;
              event = new_event (t_id task') ''status''
                (Some [(''from_status'', JStr (status_value (t_status task))),
                       (''to_status'', JStr ''cancelled''),
                       (''reason'', jopt_str reason),
                       (''cancelled_by'', JStr cancelled_by)])
                next_sequence (env_db_now env)
          in Commit \<lparr>uw_update = Some (task, task'), uw_tasks = [], uw_events = [event]\<rparr>
               (refresh_task task'))))"

section \<open>Retask\<close>

text \<open>\<open>merged_input\<close> of step 6. \<open>additional_input\<close> is an object or absent by the request schema.\<close>

definition merge_additional :: "dict \<Rightarrow> json \<Rightarrow> exn + dict" where
  "merge_additional inp additional =
     (if \<not> truthy additional then Inr inp
      else case additional of JObj e \<Rightarrow> Inr (dict_update inp e) | _ \<Rightarrow> Inl PythonError)"

text \<open>The priority override of retask and redirect: absent, a valid value, or a 422.\<close>

definition resolve_priority :: "string option \<Rightarrow> task_priority \<Rightarrow> exn + task_priority" where
  "resolve_priority priority inherited =
     (case priority of
        None \<Rightarrow> Inr inherited
      | Some p \<Rightarrow> (case priority_of_value p of None \<Rightarrow> Inl (Fleet INVALID_INPUT) | Some q \<Rightarrow> Inr q))"

definition retask_task ::
    "env \<Rightarrow> string \<Rightarrow> string \<Rightarrow> string \<Rightarrow> dict \<Rightarrow> string option \<Rightarrow> string option \<Rightarrow> db
       \<Rightarrow> (task \<times> task \<times> bool) tx" where [op_defs]:
  "retask_task env workflow_id task_id caller_agent_id refinement priority idempotency_key d =
     (case get_workflow d workflow_id of
        None \<Rightarrow> Raise (Fleet WORKFLOW_NOT_FOUND)
      | Some workflow \<Rightarrow>
     (case get_task d task_id of
        None \<Rightarrow> Raise (Fleet TASK_NOT_FOUND)
      | Some task \<Rightarrow>
     if t_workflow_id task \<noteq> workflow_id then Raise (Fleet TASK_NOT_FOUND)
     else if caller_agent_id \<noteq> t_principal task \<and> caller_agent_id \<noteq> w_owner workflow
       then Raise (Fleet NOT_AUTHORIZED)
     else if t_status task \<notin> {COMPLETED, FAILED} then Raise (Fleet RETASK_NOT_REVIEWABLE)
     else if fleet_lineage_max_depth (env_settings env) \<le> t_lineage_depth task
       then Raise (Fleet RETASK_DEPTH_EXCEEDED)
     else
     (case merge_additional (t_input task) (dict_get refinement ''additional_input'') of
        Inl e \<Rightarrow> Raise e
      | Inr merged_input \<Rightarrow>
     (case (case idempotency_key of None \<Rightarrow> Inr None | Some k \<Rightarrow> check_idempotency env d k merged_input) of
        Inl e \<Rightarrow> Raise e
      | Inr (Some existing) \<Rightarrow> Return (existing, task, True)
      | Inr None \<Rightarrow>
     (case transition_to (env_now_utc env) RETASKED task of
        Inl _ \<Rightarrow> Raise PythonError
      | Inr task' \<Rightarrow>
     (case resolve_priority priority (t_priority task) of
        Inl e \<Rightarrow> Raise e
      | Inr priority_enum \<Rightarrow>
          let root_task_id = str_or (t_root task) (t_id task);
              new_lineage_depth = t_lineage_depth task + 1;
              new_task_id = ''task-'' @ env_uuid env;
              now = env_now env;
              new_task = \<lparr>t_id = new_task_id, t_workflow_id = workflow_id,
                t_principal = t_principal task, t_executor = t_executor task, t_status = ACCEPTED,
                t_input = merged_input, t_result = JNull, t_priority = priority_enum,
                t_timeout_seconds = t_timeout_seconds task, t_parent = Some (t_id task),
                t_root = Some root_task_id, t_lineage_depth = new_lineage_depth,
                t_delegation_depth = t_delegation_depth task, t_callback_url = None,
                t_idempotency_key = idempotency_key, t_created_at = now, t_started_at = None,
                t_completed_at = None, t_paused_at = None,
                t_metadata = Some [(''refinement'', JObj refinement)]\<rparr>;
              event = new_event (t_id task) ''status''
                (Some [(''from_status'', JStr (status_value (t_status task))),
                       (''to_status'', JStr ''retasked''),
                       (''retask_id'', JStr new_task_id),
                       (''retasked_by'', JStr caller_agent_id),
                       (''refinement_message'', dict_get refinement ''message'')])
                (max_sequence d (t_id task) + 1) now;
              new_evt = new_event new_task_id ''created''
                (Some [(''status'', JStr ''accepted''), (''caller'', JStr (t_principal task)),
                       (''retask_of'', JStr (t_id task))]) 1 now
          in Commit \<lparr>uw_update = Some (task, task'), uw_tasks = [new_task], uw_events = [event, new_evt]\<rparr>
               (\<lambda>d'. (refresh_task new_task d', refresh_task task' d', False))))))))"

section \<open>Lineage\<close>

text \<open>The loop of \<open>build_lineage_chain\<close>, at most \<open>lineage_depth\<close> times, collecting the ids.\<close>

fun walk_parents :: "db \<Rightarrow> nat \<Rightarrow> string option \<Rightarrow> string list" where
  "walk_parents d 0 p = []"
| "walk_parents d (Suc n) None = []"
| "walk_parents d (Suc n) (Some p) =
     (case get_task d p of
        None \<Rightarrow> []
      | Some parent \<Rightarrow> t_id parent # walk_parents d n (t_parent parent))"

definition build_lineage_chain :: "db \<Rightarrow> task \<Rightarrow> string list" where
  "build_lineage_chain d task =
     rev (t_id task # walk_parents d (nat (t_lineage_depth task)) (t_parent task))"

section \<open>Redirect\<close>

definition redirect_metadata :: "string \<Rightarrow> bool \<Rightarrow> dict option \<Rightarrow> dict" where
  "redirect_metadata reason inherit_progress m =
     (let new_metadata = [(''redirect_reason'', JStr reason)]
      in case m of
           None \<Rightarrow> new_metadata
         | Some md \<Rightarrow>
             if inherit_progress \<and> md \<noteq> [] then
               (let new_metadata = (if dict_get md ''progress'' \<noteq> JNull
                      then dict_set ''progress'' (dict_get md ''progress'') new_metadata else new_metadata)
                in if dict_get md ''progress_message'' \<noteq> JNull
                   then dict_set ''progress_message'' (dict_get md ''progress_message'') new_metadata
                   else new_metadata)
             else new_metadata)"

definition redirect_task ::
    "env \<Rightarrow> string \<Rightarrow> string \<Rightarrow> string \<Rightarrow> string \<Rightarrow> dict \<Rightarrow> bool \<Rightarrow> string option \<Rightarrow> string option \<Rightarrow> db
       \<Rightarrow> (task \<times> task \<times> bool) tx" where [op_defs]:
  "redirect_task env workflow_id task_id caller_agent_id reason new_input inherit_progress priority
       idempotency_key d =
     (case get_workflow d workflow_id of
        None \<Rightarrow> Raise (Fleet WORKFLOW_NOT_FOUND)
      | Some workflow \<Rightarrow>
     (case get_task d task_id of
        None \<Rightarrow> Raise (Fleet TASK_NOT_FOUND)
      | Some task \<Rightarrow>
     if t_workflow_id task \<noteq> workflow_id then Raise (Fleet TASK_NOT_FOUND)
     else if caller_agent_id \<noteq> t_principal task \<and> caller_agent_id \<noteq> w_owner workflow
       then Raise (Fleet NOT_AUTHORIZED)
     else if t_status task \<notin> {RUNNING, PAUSED} then Raise (Fleet REDIRECT_NOT_POSSIBLE)
     else if fleet_lineage_max_depth (env_settings env) \<le> t_lineage_depth task
       then Raise (Fleet RETASK_DEPTH_EXCEEDED)
     else
     (case (case idempotency_key of None \<Rightarrow> Inr None | Some k \<Rightarrow> check_idempotency env d k new_input) of
        Inl e \<Rightarrow> Raise e
      | Inr (Some existing) \<Rightarrow> Return (existing, task, True)
      | Inr None \<Rightarrow>
     (case transition_to (env_now_utc env) REDIRECTED task of
        Inl _ \<Rightarrow> Raise PythonError
      | Inr task' \<Rightarrow>
     (case resolve_priority priority (t_priority task) of
        Inl e \<Rightarrow> Raise e
      | Inr priority_enum \<Rightarrow>
          let root_task_id = str_or (t_root task) (t_id task);
              new_lineage_depth = t_lineage_depth task + 1;
              new_metadata = redirect_metadata reason inherit_progress (t_metadata task);
              new_task_id = ''task-'' @ env_uuid env;
              now = env_now env;
              new_task = \<lparr>t_id = new_task_id, t_workflow_id = workflow_id,
                t_principal = t_principal task, t_executor = t_executor task, t_status = ACCEPTED,
                t_input = new_input, t_result = JNull, t_priority = priority_enum,
                t_timeout_seconds = t_timeout_seconds task, t_parent = Some (t_id task),
                t_root = Some root_task_id, t_lineage_depth = new_lineage_depth,
                t_delegation_depth = t_delegation_depth task, t_callback_url = None,
                t_idempotency_key = idempotency_key, t_created_at = now, t_started_at = None,
                t_completed_at = None, t_paused_at = None, t_metadata = Some new_metadata\<rparr>;
              event = new_event (t_id task) ''status''
                (Some [(''from_status'', JStr (status_value (t_status task))),
                       (''to_status'', JStr ''redirected''),
                       (''reason'', JStr reason),
                       (''redirect_id'', JStr new_task_id),
                       (''redirected_by'', JStr caller_agent_id)])
                (max_sequence d (t_id task) + 1) now;
              new_evt = new_event new_task_id ''created''
                (Some [(''status'', JStr ''accepted''), (''caller'', JStr (t_principal task)),
                       (''redirect_of'', JStr (t_id task))]) 1 now
          in Commit \<lparr>uw_update = Some (task, task'), uw_tasks = [new_task], uw_events = [event, new_evt]\<rparr>
               (\<lambda>d'. (refresh_task new_task d', refresh_task task' d', False)))))))"

section \<open>Pause and resume\<close>

definition pause_task ::
    "env \<Rightarrow> string \<Rightarrow> string \<Rightarrow> string \<Rightarrow> string option \<Rightarrow> db \<Rightarrow> (task \<times> task_event) tx" where [op_defs]:
  "pause_task env workflow_id task_id paused_by reason d =
     (case get_workflow d workflow_id of
        None \<Rightarrow> Raise (Fleet WORKFLOW_NOT_FOUND)
      | Some workflow \<Rightarrow>
     (case get_task d task_id of
        None \<Rightarrow> Raise (Fleet TASK_NOT_FOUND)
      | Some task \<Rightarrow>
     if t_workflow_id task \<noteq> workflow_id then Raise (Fleet TASK_NOT_FOUND)
     else if paused_by \<noteq> t_principal task \<and> paused_by \<noteq> w_owner workflow
       then Raise (Fleet NOT_AUTHORIZED)
     else if t_status task \<noteq> RUNNING then Raise (Fleet TASK_NOT_PAUSABLE)
     else
     (case transition_to (env_now_utc env) PAUSED task of
        Inl _ \<Rightarrow> Raise (Fleet TASK_NOT_PAUSABLE)
      | Inr task1 \<Rightarrow>
          let now = env_now env;
              task' = task1\<lparr>t_paused_at := Some now\<rparr>;
              progress = meta_get_or (t_metadata task) ''progress'' (JInt 0);
              progress_message = meta_get_or (t_metadata task) ''progress_message'' JNull;
              pause_ttl = fleet_pause_ttl_seconds (env_settings env);
              expires_at = now + seconds pause_ttl;
              paused_state = [(''progress'', progress), (''message'', progress_message),
                (''resumable'', JBool True), (''state_ttl_seconds'', JInt pause_ttl),
                (''expires_at'', JStr (isoformat expires_at))];
              event = new_event (t_id task) ''pause_requested''
                (Some [(''from_status'', JStr (status_value (t_status task))),
                       (''to_status'', JStr ''paused''),
                       (''reason'', jopt_str reason),
                       (''paused_by'', JStr paused_by),
                       (''paused_state'', JObj paused_state)])
                (max_sequence d (t_id task) + 1) (env_db_now env)
          in Commit \<lparr>uw_update = Some (task, task'), uw_tasks = [], uw_events = [event]\<rparr>
               (\<lambda>d'. (refresh_task task' d', refresh_event event d')))))"

definition resume_task ::
    "env \<Rightarrow> string \<Rightarrow> string \<Rightarrow> string \<Rightarrow> string option \<Rightarrow> db \<Rightarrow> (task \<times> task_event) tx" where [op_defs]:
  "resume_task env workflow_id task_id resumed_by priority d =
     (case get_workflow d workflow_id of
        None \<Rightarrow> Raise (Fleet WORKFLOW_NOT_FOUND)
      | Some workflow \<Rightarrow>
     (case get_task d task_id of
        None \<Rightarrow> Raise (Fleet TASK_NOT_FOUND)
      | Some task \<Rightarrow>
     if t_workflow_id task \<noteq> workflow_id then Raise (Fleet TASK_NOT_FOUND)
     else if resumed_by \<noteq> t_principal task \<and> resumed_by \<noteq> w_owner workflow
       then Raise (Fleet NOT_AUTHORIZED)
     else if t_status task \<noteq> PAUSED then Raise (Fleet TASK_NOT_PAUSED)
     else
     (let now = env_now env;
          elapsed = (case t_paused_at task of None \<Rightarrow> 0 | Some p \<Rightarrow> now - p);
          expired = (t_paused_at task \<noteq> None \<and>
                     seconds (fleet_pause_ttl_seconds (env_settings env)) < elapsed)
      in if expired then
           (let task' = (case transition_to (env_now_utc env) CANCELLED task of
                           Inl _ \<Rightarrow> task | Inr task' \<Rightarrow> task');
                timeout_event = new_event (t_id task) ''status''
                  (Some [(''from_status'', JStr ''paused''), (''to_status'', JStr ''cancelled''),
                         (''reason'', JStr ''PAUSE_TIMEOUT''),
                         (''paused_duration_seconds'', JInt (int_total_seconds elapsed))])
                  (max_sequence d (t_id task) + 1) (env_db_now env)
            in CommitRaise \<lparr>uw_update = Some (task, task'), uw_tasks = [], uw_events = [timeout_event]\<rparr>
                 (Fleet PAUSE_TIMEOUT))
         else
         (case transition_to (env_now_utc env) RUNNING task of
            Inl _ \<Rightarrow> Raise (Fleet TASK_NOT_PAUSED)
          | Inr task1 \<Rightarrow>
              let paused_duration_seconds = int_total_seconds elapsed;
                  task2 = task1\<lparr>t_paused_at := None\<rparr>
              in case resolve_priority priority (t_priority task2) of
                   Inl e \<Rightarrow> Raise e
                 | Inr priority_enum \<Rightarrow>
                     let task' = task2\<lparr>t_priority := priority_enum\<rparr>;
                         event = new_event (t_id task) ''resume_requested''
                           (Some [(''from_status'', JStr (status_value (t_status task))),
                                  (''to_status'', JStr ''running''),
                                  (''resumed_by'', JStr resumed_by),
                                  (''paused_duration_seconds'', JInt paused_duration_seconds),
                                  (''priority'', JStr (priority_value (t_priority task')))])
                           (max_sequence d (t_id task) + 1) (env_db_now env)
                     in Commit \<lparr>uw_update = Some (task, task'), uw_tasks = [], uw_events = [event]\<rparr>
                          (\<lambda>d'. (refresh_task task' d', refresh_event event d'))))))"

end
