(* ===== verification/Lifecycle_Correct.thy ===== *)
theory Lifecycle_Correct
  imports Lifecycle
begin

text \<open>
  The lifecycle operations meet the contract of a principal operation, and what each of them does
  on the branch that succeeds.
\<close>

section \<open>The shapes of the units of work\<close>

lemma good_update_only:
  assumes "get_task d k = Some t" and "evolves t t'"
    and "max_sequence d (e_task_id e) < e_sequence e"
  shows "good_work mx d \<lparr>uw_update = Some (t, t'), uw_tasks = [], uw_events = [e]\<rparr>"
  using assms get_taskD [OF assms(1)] by (auto simp: good_work_def good_update_def good_events_def)

lemma good_successor:
  assumes "get_task d k = Some t" and "evolves t t'" and "superseded (t_status t')" and "t_status t' \<noteq> t_status t"
    and "t_lineage_depth t < mx" and "child_of t n" and "fresh_task n"
    and "e_task_id e = k" and "max_sequence d k < e_sequence e" and "created_event (t_id n) c"
    and "constraints_ok d"
  shows "good_work mx d \<lparr>uw_update = Some (t, t'), uw_tasks = [n], uw_events = [e, c]\<rparr>"
  using assms get_taskD [OF assms(1)] get_task_id_mem [OF assms(1)] no_task_max_sequence [of d "t_id n"]
  by (auto simp: good_work_def good_update_def good_insert_def created_event_def good_events_def)

lemma evolves_fields:
  "evolves t u \<Longrightarrow> evolves t (u\<lparr>t_paused_at := p\<rparr>)"
  "evolves t u \<Longrightarrow> evolves t (u\<lparr>t_priority := q\<rparr>)"
  "evolves t u \<Longrightarrow> evolves t (u\<lparr>t_result := r\<rparr>)"
  "evolves t u \<Longrightarrow> evolves t (u\<lparr>t_metadata := m\<rparr>)"
  "evolves t u \<Longrightarrow> evolves t (u\<lparr>t_started_at := s\<rparr>)"
  by (auto simp: evolves_def same_identity_def)

lemmas op_splits = option.splits sum.splits if_splits prod.splits

section \<open>The contract\<close>

lemma cancel_work:
  assumes "tx_work (cancel_task env wid tid by reason d) = Some uw"
  shows "\<exists>t t' e. get_task d tid = Some t \<and> transition_to (env_now_utc env) CANCELLED t = Inr t'
           \<and> e_task_id e = tid \<and> e_sequence e = max_sequence d tid + 1
           \<and> uw = \<lparr>uw_update = Some (t, t'), uw_tasks = [], uw_events = [e]\<rparr>"
  using assms
  by (auto simp: cancel_task_def Let_def new_event_def transition_to_Inr_iff split: op_splits
      dest: get_taskD)

text \<open>What each operation commits: the loaded task, the task it becomes, the events. \<close>

lemma pause_work:
  assumes "tx_work (pause_task env wid tid by reason d) = Some uw"
  shows "\<exists>t t' e. get_task d tid = Some t \<and> t_status t = RUNNING
           \<and> t' = t\<lparr>t_status := PAUSED, t_paused_at := Some (env_now env)\<rparr>
           \<and> e_task_id e = tid \<and> e_sequence e = max_sequence d tid + 1
           \<and> uw = \<lparr>uw_update = Some (t, t'), uw_tasks = [], uw_events = [e]\<rparr>"
  using assms
  by (auto simp: pause_task_def Let_def new_event_def transition_to_Inr_iff split: op_splits
      dest: get_taskD)

lemma resume_work:
  assumes "tx_work (resume_task env wid tid by priority d) = Some uw"
  shows "\<exists>t t' e. get_task d tid = Some t \<and> t_status t = PAUSED
           \<and> (t' = t\<lparr>t_status := CANCELLED, t_completed_at := Some (env_now_utc env)\<rparr>
              \<or> (\<exists>q. t' = t\<lparr>t_status := RUNNING, t_paused_at := None, t_priority := q\<rparr>))
           \<and> e_task_id e = tid \<and> e_sequence e = max_sequence d tid + 1
           \<and> uw = \<lparr>uw_update = Some (t, t'), uw_tasks = [], uw_events = [e]\<rparr>"
  using assms
  by (auto simp: resume_task_def Let_def new_event_def transition_to_def validate_transition_def
      split: op_splits dest: get_taskD)

definition successor_of :: "task \<Rightarrow> task \<Rightarrow> dict \<Rightarrow> string option \<Rightarrow> env \<Rightarrow> bool" where
  "successor_of t n inp key env =
     (child_of t n \<and> fresh_task n \<and> t_id n = ''task-'' @ env_uuid env \<and> t_input n = inp
      \<and> t_idempotency_key n = key \<and> t_created_at n = env_now env \<and> t_callback_url n = None)"

lemma retask_work:
  assumes "tx_work (retask_task env wid tid by refinement priority key d) = Some uw"
  shows "\<exists>t t' n e c inp. get_task d tid = Some t \<and> t_status t \<in> {COMPLETED, FAILED}
           \<and> t_lineage_depth t < fleet_lineage_max_depth (env_settings env)
           \<and> merge_additional (t_input t) (dict_get refinement ''additional_input'') = Inr inp
           \<and> t' = t\<lparr>t_status := RETASKED, t_completed_at := Some (env_now_utc env)\<rparr>
           \<and> successor_of t n inp key env \<and> e_task_id e = tid \<and> e_sequence e = max_sequence d tid + 1
           \<and> created_event (t_id n) c
           \<and> uw = \<lparr>uw_update = Some (t, t'), uw_tasks = [n], uw_events = [e, c]\<rparr>"
  using assms
  by (auto simp: retask_task_def Let_def new_event_def transition_to_Inr_iff successor_of_def
      child_of_def fresh_task_def created_event_def split: op_splits dest: get_taskD)

lemma redirect_work:
  assumes "tx_work (redirect_task env wid tid by reason inp inh priority key d) = Some uw"
  shows "\<exists>t t' n e c. get_task d tid = Some t \<and> t_status t \<in> {RUNNING, PAUSED}
           \<and> t_lineage_depth t < fleet_lineage_max_depth (env_settings env)
           \<and> t' = t\<lparr>t_status := REDIRECTED, t_completed_at := Some (env_now_utc env)\<rparr>
           \<and> successor_of t n inp key env \<and> e_task_id e = tid \<and> e_sequence e = max_sequence d tid + 1
           \<and> created_event (t_id n) c
           \<and> uw = \<lparr>uw_update = Some (t, t'), uw_tasks = [n], uw_events = [e, c]\<rparr>"
  using assms
  by (auto simp: redirect_task_def Let_def new_event_def transition_to_Inr_iff successor_of_def
      child_of_def fresh_task_def created_event_def split: op_splits dest: get_taskD)

lemma step_evolves:
  assumes "u = t\<lparr>t_status := s, t_completed_at := c\<rparr>" and "s \<in> set (valid_transitions (t_status t))"
    and "if is_terminal s then c \<noteq> None else c = t_completed_at t"
  shows "evolves t u"
  using assms by (auto simp: evolves_def same_identity_def status_step_simps)

lemma cancel_good: "db_inv mx d \<Longrightarrow> tx_work (cancel_task env wid tid by reason d) = Some uw \<Longrightarrow> good_work mx d uw"
  by (auto dest!: cancel_work intro!: good_update_only transition_evolves)

lemma pause_good: "db_inv mx d \<Longrightarrow> tx_work (pause_task env wid tid by reason d) = Some uw \<Longrightarrow> good_work mx d uw"
  by (auto dest!: pause_work intro!: good_update_only
      simp: evolves_def same_identity_def status_step_simps)

lemma resume_good: "db_inv mx d \<Longrightarrow> tx_work (resume_task env wid tid by prio d) = Some uw \<Longrightarrow> good_work mx d uw"
  by (auto dest!: resume_work intro!: good_update_only
      simp: evolves_def same_identity_def status_step_simps)

lemma retask_good:
  assumes "db_inv mx d" and "mx = fleet_lineage_max_depth (env_settings env)"
    and "tx_work (retask_task env wid tid by refinement priority key d) = Some uw"
  shows "good_work mx d uw"
  using assms db_inv_constraints [OF assms(1)]
  by (fastforce dest!: retask_work intro!: good_successor
      simp: evolves_def same_identity_def status_step_simps successor_of_def superseded_def)

lemma redirect_good:
  assumes "db_inv mx d" and "mx = fleet_lineage_max_depth (env_settings env)"
    and "tx_work (redirect_task env wid tid by reason inp inh priority key d) = Some uw"
  shows "good_work mx d uw"
  using assms db_inv_constraints [OF assms(1)]
  by (fastforce dest!: redirect_work intro!: good_successor
      simp: evolves_def same_identity_def status_step_simps successor_of_def superseded_def)

lemma cancel_target: "tx_work (cancel_task env wid tid by reason d) = Some uw \<Longrightarrow> concerns tid uw"
  by (auto dest!: cancel_work dest: get_taskD simp: concerns_def)

lemma pause_target: "tx_work (pause_task env wid tid by reason d) = Some uw \<Longrightarrow> concerns tid uw"
  by (auto dest!: pause_work dest: get_taskD simp: concerns_def)

lemma resume_target: "tx_work (resume_task env wid tid by prio d) = Some uw \<Longrightarrow> concerns tid uw"
  by (auto dest!: resume_work dest: get_taskD simp: concerns_def)

lemma retask_target: "tx_work (retask_task env wid tid by refinement prio key d) = Some uw \<Longrightarrow> concerns tid uw"
  by (auto dest!: retask_work dest: get_taskD simp: concerns_def created_event_def)

lemma redirect_target: "tx_work (redirect_task env wid tid by reason inp inh prio key d) = Some uw \<Longrightarrow> concerns tid uw"
  by (auto dest!: redirect_work dest: get_taskD simp: concerns_def created_event_def)

interpretation cancel_op: principal_operation mx "cancel_task env wid tid by reason" wid tid "by"
  for mx env wid tid "by" reason
  by (unfold_locales; (erule (1) cancel_good | erule cancel_target | simp add: cancel_task_def))

interpretation pause_op: principal_operation mx "pause_task env wid tid by reason" wid tid "by"
  for mx env wid tid "by" reason
  by (unfold_locales; (erule (1) pause_good | erule pause_target | simp add: pause_task_def))

interpretation resume_op: principal_operation mx "resume_task env wid tid by prio" wid tid "by"
  for mx env wid tid "by" prio
  by (unfold_locales; (erule (1) resume_good | erule resume_target | simp add: resume_task_def))

interpretation retask_op: principal_operation "fleet_lineage_max_depth (env_settings env)"
    "retask_task env wid tid by refinement prio key" wid tid "by"
  for env wid tid "by" refinement prio key
  by (unfold_locales;
      (erule (1) retask_good [OF _ refl] | erule retask_target | simp add: retask_task_def))

interpretation redirect_op: principal_operation "fleet_lineage_max_depth (env_settings env)"
    "redirect_task env wid tid by reason inp inh prio key" wid tid "by"
  for env wid tid "by" reason inp inh prio key
  by (unfold_locales;
      (erule (1) redirect_good [OF _ refl] | erule redirect_target | simp add: redirect_task_def))

end
