(* ===== verification/Crud.thy ===== *)
theory Crud
  imports Lifecycle_Correct "HOL-Library.Product_Lexorder"
begin

text \<open>
  \<open>src/fleet_api/tasks/crud.py\<close>, the \<open>TaskService\<close>: creating a task for a workflow (with the
  idempotent replay), reading one, listing with filters and a cursor, and what an executor polls:
  its pending tasks and the signals for its active ones. \<open>jsonschema.validate\<close> is the parameter
  \<open>validate\<close>; it answers, for an instance and a schema, as the documented function does: it
  returns, raises ValidationError, or raises SchemaError.
\<close>

section \<open>Creating a task\<close>

datatype schema_outcome = Conforms | ValidationError | SchemaError

definition get_workflow_or_404 :: "db \<Rightarrow> string \<Rightarrow> exn + workflow" where
  "get_workflow_or_404 d workflow_id =
     (case get_workflow d workflow_id of
        None \<Rightarrow> Inl (Fleet WORKFLOW_NOT_FOUND)
      | Some workflow \<Rightarrow> Inr workflow)"

definition validate_input ::
    "(dict \<Rightarrow> dict \<Rightarrow> schema_outcome) \<Rightarrow> dict \<Rightarrow> dict option \<Rightarrow> exn + unit" where
  "validate_input validate input_data input_schema =
     (case input_schema of
        None \<Rightarrow> Inr ()
      | Some schema \<Rightarrow>
          (case validate input_data schema of
             Conforms \<Rightarrow> Inr ()
           | ValidationError \<Rightarrow> Inl (Fleet INVALID_INPUT)
           | SchemaError \<Rightarrow> Inl PythonError))"

definition check_agent_not_suspended :: "db \<Rightarrow> string \<Rightarrow> exn + unit" where
  "check_agent_not_suspended d agent_id =
     (case get_agent d agent_id of
        None \<Rightarrow> Inr ()
      | Some agent \<Rightarrow> if a_status agent = SUSPENDED then Inl (Fleet AGENT_SUSPENDED) else Inr ())"

definition create_task ::
    "(dict \<Rightarrow> dict \<Rightarrow> schema_outcome) \<Rightarrow> env \<Rightarrow> string \<Rightarrow> string \<Rightarrow> dict \<Rightarrow> string option \<Rightarrow> string
       \<Rightarrow> int option \<Rightarrow> string option \<Rightarrow> dict option \<Rightarrow> string option \<Rightarrow> db
       \<Rightarrow> (task \<times> workflow \<times> bool) tx" where [op_defs]:
  "create_task validate env workflow_id caller_agent_id input_data executor_agent_id priority
       timeout_seconds idempotency_key metadata callback_url d =
     (case (case idempotency_key of None \<Rightarrow> Inr None | Some k \<Rightarrow> check_idempotency env d k input_data) of
        Inl e \<Rightarrow> Raise e
      | Inr (Some existing) \<Rightarrow>
          (case get_workflow_or_404 d workflow_id of
             Inl e \<Rightarrow> Raise e
           | Inr workflow \<Rightarrow> Return (existing, workflow, True))
      | Inr None \<Rightarrow>
     (case get_workflow_or_404 d workflow_id of
        Inl e \<Rightarrow> Raise e
      | Inr workflow \<Rightarrow>
     (let effective_executor = str_or executor_agent_id (w_owner workflow) in
      case check_agent_not_suspended d effective_executor of
        Inl e \<Rightarrow> Raise e
      | Inr _ \<Rightarrow>
     (case validate_input validate input_data (w_input_schema workflow) of
        Inl e \<Rightarrow> Raise e
      | Inr _ \<Rightarrow>
     (case priority_of_value priority of
        None \<Rightarrow> Raise (Fleet INVALID_INPUT)
      | Some priority_enum \<Rightarrow>
          let task_id = ''task-'' @ env_uuid env;
              effective_timeout = opt_int_or timeout_seconds (w_timeout_seconds workflow);
              now = env_now env;
              task = \<lparr>t_id = task_id, t_workflow_id = workflow_id, t_principal = caller_agent_id,
                t_executor = Some effective_executor, t_status = ACCEPTED, t_input = input_data,
                t_result = JNull, t_priority = priority_enum, t_timeout_seconds = effective_timeout,
                t_parent = None, t_root = None, t_lineage_depth = 0, t_delegation_depth = 0,
                t_callback_url = callback_url, t_idempotency_key = idempotency_key,
                t_created_at = now, t_started_at = None, t_completed_at = None, t_paused_at = None,
                t_metadata = metadata\<rparr>;
              event = new_event task_id ''created''
                (Some [(''status'', JStr ''accepted''), (''caller'', JStr caller_agent_id)]) 1 now
          in Commit \<lparr>uw_update = None, uw_tasks = [task], uw_events = [event]\<rparr>
               (\<lambda>d'. (refresh_task task d', workflow, False)))))))"

lemma create_work:
  assumes "tx_work (create_task validate env wid caller inp ex prio to key md cb d) = Some uw"
  shows "\<exists>w n c. get_workflow d wid = Some w
           \<and> root_task n \<and> fresh_task n \<and> t_id n = ''task-'' @ env_uuid env
           \<and> t_principal n = caller \<and> t_executor n = Some (str_or ex (w_owner w)) \<and> t_workflow_id n = wid
           \<and> created_event (t_id n) c
           \<and> uw = \<lparr>uw_update = None, uw_tasks = [n], uw_events = [c]\<rparr>"
  using assms
  by (auto simp: create_task_def get_workflow_or_404_def Let_def new_event_def root_task_def
      fresh_task_def created_event_def split: op_splits)

lemma create_good:
  assumes "db_inv mx d" and "tx_work (create_task validate env wid caller inp ex prio to key md cb d) = Some uw"
  shows "good_work mx d uw"
  using assms(2) no_task_max_sequence [OF db_inv_constraints [OF assms(1)]]
  by (auto dest!: create_work
      simp: good_work_def good_update_def good_insert_def created_event_def good_events_def)

interpretation create_op: task_operation mx "create_task validate env wid caller inp ex prio to key md cb"
  for mx validate env wid caller inp ex prio to key md cb
  by unfold_locales (rule create_good)

text \<open>No stored task changes, nor its log: a task whose id is taken is not committed.\<close>

lemma create_kept:
  fixes validate env wid caller inp ex prio to key md cb d
  defines "d' \<equiv> snd (run_tx (create_task validate env wid caller inp ex prio to key md cb d) d)"
  assumes t: "get_task d k = Some t"
  shows "get_task d' k = Some t \<and> task_events d' k = task_events d k"
proof (rule create_op.run_cases [of validate env wid caller inp ex prio to key md cb d])
  fix uw assume uw: "tx_work (create_task validate env wid caller inp ex prio to key md cb d) = Some uw"
    and c: "commit uw d = Some (snd (run_tx (create_task validate env wid caller inp ex prio to key md cb d) d))"
  obtain n c' where n: "created_event (t_id n) c'" "uw = \<lparr>uw_update = None, uw_tasks = [n], uw_events = [c']\<rparr>"
    using create_work [OF uw] by blast
  have "k \<noteq> t_id n" using commit_fresh_ids [OF c] get_task_id_mem [OF t] n(2)
    by (metis IntI empty_iff image_eqI list.set_intros(1) unit_of_work.select_convs(2))
  moreover have "concerns (t_id n) uw" using n by (auto simp: concerns_def created_event_def)
  ultimately show ?thesis using concerns_other [OF c _ t] by (simp add: d'_def)
qed (simp add: d'_def t)

section \<open>Reading\<close>

definition get_task_of :: "db \<Rightarrow> string \<Rightarrow> string \<Rightarrow> exn + task" where
  "get_task_of d workflow_id task_id =
     (case get_workflow_or_404 d workflow_id of
        Inl e \<Rightarrow> Inl e
      | Inr _ \<Rightarrow>
     (case get_task d task_id of
        None \<Rightarrow> Inl (Fleet TASK_NOT_FOUND)
      | Some task \<Rightarrow> if t_workflow_id task \<noteq> workflow_id then Inl (Fleet TASK_NOT_FOUND) else Inr task))"

text \<open>
  The filters of \<open>list_tasks\<close>, parsed: an absent filter keeps every row. \<open>fromisoformat\<close> is
  \<open>datetime.fromisoformat\<close> (None is the ValueError).
\<close>

definition parse_filter :: "(string \<Rightarrow> 'a option) \<Rightarrow> string option \<Rightarrow> exn + 'a option" where
  "parse_filter parse x =
     (case x of
        None \<Rightarrow> Inr None
      | Some s \<Rightarrow> (case parse s of None \<Rightarrow> Inl (Fleet INVALID_INPUT) | Some v \<Rightarrow> Inr (Some v)))"

definition passes :: "'a option \<Rightarrow> ('a \<Rightarrow> bool) \<Rightarrow> bool" where
  "passes x p = (case x of None \<Rightarrow> True | Some v \<Rightarrow> p v)"

record task_filters =
  f_status :: "task_status option"
  f_priority :: "task_priority option"
  f_caller :: "string option"
  f_since :: "time option"
  f_until :: "time option"

definition matches :: "task_filters \<Rightarrow> string \<Rightarrow> task \<Rightarrow> bool" where
  "matches f workflow_id t =
     (t_workflow_id t = workflow_id
      \<and> passes (f_status f) (\<lambda>s. t_status t = s)
      \<and> passes (f_priority f) (\<lambda>p. t_priority t = p)
      \<and> passes (f_caller f) (\<lambda>c. t_principal t = c)
      \<and> passes (f_since f) (\<lambda>s. s \<le> t_created_at t)
      \<and> passes (f_until f) (\<lambda>u. t_created_at t \<le> u))"

text \<open>\<open>order_by(created_at.desc(), id.desc())\<close>, and the cursor's \<open>tuple_(created_at, id) < ...\<close>.\<close>

definition page_key :: "task \<Rightarrow> time \<times> string" where
  "page_key t = (t_created_at t, t_id t)"

definition base_rows :: "db \<Rightarrow> task_filters \<Rightarrow> string \<Rightarrow> task list" where
  "base_rows d f workflow_id = rev (sort_key page_key (filter (matches f workflow_id) (db_tasks d)))"

definition page_of :: "task list \<Rightarrow> (time \<times> string) option \<Rightarrow> nat
    \<Rightarrow> task list \<times> (time \<times> string) option \<times> bool" where
  "page_of rows cursor limit =
     (let rows = (case cursor of None \<Rightarrow> rows | Some c \<Rightarrow> filter (\<lambda>t. page_key t < c) rows);
          tasks = take (limit + 1) rows;
          has_more = limit < length tasks;
          tasks = (if has_more then take limit tasks else tasks);
          next_cursor = (if has_more \<and> tasks \<noteq> [] then Some (page_key (last tasks)) else None)
      in (tasks, next_cursor, has_more))"

text \<open>The listing; a cursor is the pair it encodes.\<close>

definition list_tasks ::
    "(string \<Rightarrow> time option) \<Rightarrow> db \<Rightarrow> string \<Rightarrow> string option \<Rightarrow> string option \<Rightarrow> string option
       \<Rightarrow> string option \<Rightarrow> string option \<Rightarrow> (time \<times> string) option \<Rightarrow> nat
       \<Rightarrow> exn + task list \<times> (time \<times> string) option \<times> bool \<times> nat" where
  "list_tasks fromisoformat d workflow_id status priority caller since until cursor limit =
     (case get_workflow_or_404 d workflow_id of
        Inl e \<Rightarrow> Inl e
      | Inr _ \<Rightarrow>
     (case parse_filter status_of_value status of
        Inl e \<Rightarrow> Inl e
      | Inr status_enum \<Rightarrow>
     (case parse_filter priority_of_value priority of
        Inl e \<Rightarrow> Inl e
      | Inr priority_enum \<Rightarrow>
     (case parse_filter fromisoformat since of
        Inl e \<Rightarrow> Inl e
      | Inr since_dt \<Rightarrow>
     (case parse_filter fromisoformat until of
        Inl e \<Rightarrow> Inl e
      | Inr until_dt \<Rightarrow>
          let rows = base_rows d \<lparr>f_status = status_enum, f_priority = priority_enum, f_caller = caller,
                                  f_since = since_dt, f_until = until_dt\<rparr> workflow_id;
              (tasks, next_cursor, has_more) = page_of rows cursor limit
          in Inr (tasks, next_cursor, has_more, length rows))))))"

section \<open>What an executor polls\<close>

text \<open>
  \<open>order_by(priority_order.desc(), created_at.asc())\<close>. The source builds the weight with \<open>func.case\<close>, and
  the age of a termination below with \<open>literal(60).op(...)\<close> without an operand; what SQLAlchemy makes of
  these is the library's. Both queries are modelled as the comments beside them say.
\<close>

definition pending_key :: "task \<Rightarrow> int \<times> time" where
  "pending_key t = (- int (priority_weight (t_priority t)), t_created_at t)"

definition get_pending_tasks :: "db \<Rightarrow> string \<Rightarrow> task list" where
  "get_pending_tasks d agent_id =
     sort_key pending_key
       (filter (\<lambda>t. t_executor t = Some agent_id \<and> t_status t = ACCEPTED) (db_tasks d))"

definition signal_event_types :: "string list" where
  "signal_event_types = [''pause_requested'', ''resume_requested'', ''context_injected'']"

definition signal_of_event :: "task_event \<Rightarrow> dict" where
  "signal_of_event evt =
     (let signal_item = [(''task_id'', JStr (e_task_id evt)), (''signal_type'', JStr (e_type evt)),
                         (''timestamp'', JStr (isoformat (e_created_at evt)))]
      in case e_data evt of
           None \<Rightarrow> signal_item
         | Some data \<Rightarrow> if data = [] then signal_item else signal_item @ [(''payload'', JObj data)])"

definition signal_of_terminated :: "task \<Rightarrow> dict" where
  "signal_of_terminated task =
     [(''task_id'', JStr (t_id task)),
      (''signal_type'', JStr (if t_status task = CANCELLED then ''cancel_requested'' else ''redirect_requested'')),
      (''timestamp'', JStr (case t_completed_at task of None \<Rightarrow> [] | Some c \<Rightarrow> isoformat c))]"

definition get_pending_signals :: "env \<Rightarrow> db \<Rightarrow> string \<Rightarrow> dict list" where
  "get_pending_signals env d agent_id =
     (let active_task_ids = map t_id (filter (\<lambda>t. t_executor t = Some agent_id
                              \<and> t_status t \<in> {RUNNING, PAUSED}) (db_tasks d))
      in if active_task_ids = [] then []
         else
           (let signal_events = sort_key e_created_at
                  (filter (\<lambda>e. e_task_id e \<in> set active_task_ids \<and> e_type e \<in> set signal_event_types)
                     (db_events d));
                terminated_tasks = filter (\<lambda>t. t_executor t = Some agent_id
                  \<and> t_status t \<in> {CANCELLED, REDIRECTED}
                  \<and> (case t_completed_at t of None \<Rightarrow> False | Some c \<Rightarrow> env_db_now env - seconds 60 \<le> c))
                  (db_tasks d)
            in map signal_of_event signal_events @ map signal_of_terminated terminated_tasks))"

end
