(* ===== verification/Context_Injection.thy ===== *)
theory Context_Injection
  imports Lifecycle_Correct
begin

text \<open>
  \<open>src/fleet_api/tasks/context.py\<close>: counting the context injections of a task, the last accepted
  context sequence, and the injection itself.
\<close>

section \<open>Python's \<open>int\<close>\<close>

text \<open>\<open>int(s)\<close> of a string: surrounding white space, a sign, digits with single underscores.\<close>

definition digit_value :: "char \<Rightarrow> int option" where
  "digit_value c = (let n = of_char c :: nat in if 48 \<le> n \<and> n \<le> 57 then Some (int n - 48) else None)"

fun parse_digits :: "bool \<Rightarrow> int \<Rightarrow> string \<Rightarrow> int option" where
  "parse_digits prev acc [] = (if prev then Some acc else None)"
| "parse_digits prev acc (c # cs) =
     (case digit_value c of
        Some n \<Rightarrow> parse_digits True (acc * 10 + n) cs
      | None \<Rightarrow> if c = CHR ''_'' \<and> prev then parse_digits False acc cs else None)"

definition parse_int :: "string \<Rightarrow> int option" where
  "parse_int s =
     (case py_strip s of
        [] \<Rightarrow> None
      | c # cs \<Rightarrow> if c = CHR ''-'' then map_option uminus (parse_digits False 0 cs)
                  else if c = CHR ''+'' then parse_digits False 0 cs
                  else parse_digits False 0 (c # cs))"

text \<open>\<open>int(v)\<close> of a JSON value; None is the TypeError or ValueError.\<close>

fun py_int :: "json \<Rightarrow> int option" where
  "py_int (JInt n) = Some n"
| "py_int (JBool b) = Some (if b then 1 else 0)"
| "py_int (JStr s) = parse_int s"
| "py_int _ = None"

section \<open>Counting and sequencing\<close>

definition context_events :: "db \<Rightarrow> string \<Rightarrow> task_event list" where
  "context_events d task_id = filter (\<lambda>e. e_type e = ''context_injected'') (task_events d task_id)"

definition count_context_injections :: "db \<Rightarrow> string \<Rightarrow> nat" where
  "count_context_injections d task_id = length (context_events d task_id)"

text \<open>\<open>order_by(created_at.desc()).limit(1)\<close>; of equal times the later row.\<close>

fun latest_event :: "task_event list \<Rightarrow> task_event option" where
  "latest_event [] = None"
| "latest_event (e # es) =
     (case latest_event es of
        None \<Rightarrow> Some e
      | Some f \<Rightarrow> if e_created_at e \<le> e_created_at f then Some f else Some e)"

definition get_max_context_sequence :: "db \<Rightarrow> string \<Rightarrow> exn + int" where
  "get_max_context_sequence d task_id =
     (case latest_event (context_events d task_id) of
        None \<Rightarrow> Inr 0
      | Some e \<Rightarrow>
          (case e_data e of
             None \<Rightarrow> Inr 0
           | Some row \<Rightarrow>
               (case py_int (dict_get_or row ''context_sequence'' (JInt 0)) of
                  None \<Rightarrow> Inl PythonError
                | Some n \<Rightarrow> Inr n)))"

section \<open>Injection\<close>

definition href :: "string \<Rightarrow> json" where
  "href s = JObj [(''href'', JStr s)]"

definition task_path :: "string \<Rightarrow> string \<Rightarrow> string" where
  "task_path workflow_id task_id = ''/workflows/'' @ workflow_id @ ''/tasks/'' @ task_id"

definition inject_context ::
    "env \<Rightarrow> string \<Rightarrow> string \<Rightarrow> string \<Rightarrow> string \<Rightarrow> dict \<Rightarrow> int \<Rightarrow> string \<Rightarrow> db \<Rightarrow> dict tx" where [op_defs]:
  "inject_context env workflow_id task_id caller_agent_id context_type payload sequence urgency d =
     (case get_workflow d workflow_id of
        None \<Rightarrow> Raise (Fleet WORKFLOW_NOT_FOUND)
      | Some workflow \<Rightarrow>
     (case get_task d task_id of
        None \<Rightarrow> Raise (Fleet TASK_NOT_FOUND)
      | Some task \<Rightarrow>
     if t_workflow_id task \<noteq> workflow_id then Raise (Fleet TASK_NOT_FOUND)
     else if caller_agent_id \<noteq> t_principal task \<and> caller_agent_id \<noteq> w_owner workflow
       then Raise (Fleet NOT_AUTHORIZED)
     else if t_status task \<notin> {RUNNING, PAUSED} then Raise (Fleet CONTEXT_REJECTED)
     else
     (case get_max_context_sequence d task_id of
        Inl e \<Rightarrow> Raise e
      | Inr last_context_seq \<Rightarrow>
     if sequence \<le> last_context_seq then Raise (Fleet CONTEXT_REJECTED)
     else
     (let next_event_sequence = max_sequence d (t_id task) + 1;
          now = env_now env;
          context_id = ''ctx-'' @ env_uuid env;
          event = new_event (t_id task) ''context_injected''
            (Some [(''context_id'', JStr context_id),
                   (''context_type'', JStr context_type),
                   (''context_sequence'', JInt sequence),
                   (''payload'', JObj payload),
                   (''urgency'', JStr urgency),
                   (''injected_by'', JStr caller_agent_id)])
            next_event_sequence now
      in Commit \<lparr>uw_update = None, uw_tasks = [], uw_events = [event]\<rparr>
           (\<lambda>_. [(''context_id'', JStr context_id),
                 (''task_id'', JStr task_id),
                 (''context_type'', JStr context_type),
                 (''sequence'', JInt sequence),
                 (''status'', JStr ''accepted''),
                 (''accepted_at'', JStr (isoformat now)),
                 (''_links'', JObj [(''task'', href (task_path workflow_id task_id)),
                                    (''stream'', href (task_path workflow_id task_id @ ''/stream'')),
                                    (''workflow'', href (''/workflows/'' @ workflow_id))])])))))"

section \<open>The contract\<close>

lemma inject_work:
  assumes "tx_work (inject_context env wid tid by ct payload sq urg d) = Some uw"
  shows "\<exists>t last e. get_task d tid = Some t \<and> t_status t \<in> {RUNNING, PAUSED}
           \<and> get_max_context_sequence d tid = Inr last \<and> last < sq
           \<and> e_task_id e = tid \<and> e_type e = ''context_injected'' \<and> e_created_at e = env_now env
           \<and> e_sequence e = max_sequence d tid + 1
           \<and> (\<exists>row. e_data e = Some row \<and> map_of row ''context_sequence'' = Some (JInt sq))
           \<and> uw = \<lparr>uw_update = None, uw_tasks = [], uw_events = [e]\<rparr>"
proof -
  have id: "t_id t = tid" if "get_task d tid = Some t" for t
    using that by (auto dest: get_taskD)
  show ?thesis
    using assms id
    by (auto simp: inject_context_def Let_def new_event_def dict_get_def split: op_splits)
qed

lemma inject_good: "db_inv mx d \<Longrightarrow> tx_work (inject_context env wid tid by ct payload sq urg d) = Some uw \<Longrightarrow>
    good_work mx d uw"
  by (auto dest!: inject_work simp: good_work_def good_update_def good_events_def)

lemma inject_target: "tx_work (inject_context env wid tid by ct payload sq urg d) = Some uw \<Longrightarrow> concerns tid uw"
  by (auto dest!: inject_work simp: concerns_def)

interpretation inject_op: principal_operation mx "inject_context env wid tid by ct payload sq urg" wid tid "by"
  for mx env wid tid "by" ct payload sq urg
  by (unfold_locales; (erule (1) inject_good | erule inject_target | simp add: inject_context_def))

end
