(* ===== verification/Responses.thy ===== *)
theory Responses
  imports Crud Context_Injection
begin

text \<open>
  \<open>src/fleet_api/tasks/responses.py\<close> and the response builders of \<open>tasks/crud.py\<close> and
  \<open>tasks/routes.py\<close>: the table of action links per status, the links of a task, and the detail,
  summary, dispatch, cancel, pause and resume responses as dictionaries.
\<close>

section \<open>Links\<close>

definition IDEMPOTENCY_TTL_HOURS :: int where
  "IDEMPOTENCY_TTL_HOURS = 24"

fun status_action_links :: "task_status \<Rightarrow> string list" where
  "status_action_links ACCEPTED = [''cancel'']"
| "status_action_links RUNNING = [''cancel'', ''pause'', ''context'', ''redirect'']"
| "status_action_links PAUSED = [''resume'', ''cancel'', ''context'', ''redirect'']"
| "status_action_links COMPLETED = [''retask'', ''rerun'']"
| "status_action_links FAILED = [''retask'', ''rerun'']"
| "status_action_links CANCELLED = [''rerun'']"
| "status_action_links RETASKED = []"
| "status_action_links REDIRECTED = []"

definition action_link_suffix :: "(string \<times> string) list" where
  "action_link_suffix =
     [(''cancel'', ''/cancel''), (''pause'', ''/pause''), (''resume'', ''/resume''),
      (''context'', ''/context''), (''redirect'', ''/redirect''), (''retask'', ''/retask'')]"

definition post_link :: "string \<Rightarrow> json" where
  "post_link s = JObj [(''method'', JStr ''POST''), (''href'', JStr s)]"

definition action_link :: "string \<Rightarrow> string \<Rightarrow> string \<Rightarrow> json" where
  "action_link base workflow_id action =
     (if action = ''rerun'' then post_link (''/workflows/'' @ workflow_id @ ''/run'')
      else post_link (base @ (case map_of action_link_suffix action of None \<Rightarrow> [] | Some s \<Rightarrow> s)))"

definition build_task_links :: "string \<Rightarrow> string \<Rightarrow> task_status \<Rightarrow> dict" where
  "build_task_links task_id workflow_id status =
     (let base = task_path workflow_id task_id;
          links = [(''self'', href base), (''workflow'', href (''/workflows/'' @ workflow_id)),
                   (''stream'', href (base @ ''/stream''))]
      in fold (\<lambda>action. dict_set action (action_link base workflow_id action))
           (status_action_links status) links)"

definition build_cancel_links :: "string \<Rightarrow> string \<Rightarrow> dict" where
  "build_cancel_links task_id workflow_id =
     [(''self'', href (task_path workflow_id task_id)),
      (''workflow'', href (''/workflows/'' @ workflow_id)),
      (''rerun'', post_link (''/workflows/'' @ workflow_id @ ''/run''))]"

section \<open>Responses\<close>

definition compute_duration :: "time option \<Rightarrow> time option \<Rightarrow> int option" where
  "compute_duration started_at completed_at =
     (case (started_at, completed_at) of
        (Some s, Some c) \<Rightarrow> Some (int_total_seconds (c - s))
      | _ \<Rightarrow> None)"

definition jopt_time :: "time option \<Rightarrow> json" where
  "jopt_time t = jopt_str (iso_opt t)"

definition default_quality :: json where
  "default_quality = JObj [(''input_valid'', JBool True), (''execution_clean'', JBool True),
                           (''result_complete'', JBool True)]"

definition task_to_detail_response :: "task \<Rightarrow> dict" where
  "task_to_detail_response task =
     (let status = t_status task;
          response =
            [(''task_id'', JStr (t_id task)),
             (''workflow_id'', JStr (t_workflow_id task)),
             (''status'', JStr (status_value status)),
             (''caller'', JStr (t_principal task)),
             (''executor'', jopt_str (t_executor task)),
             (''priority'', JStr (priority_value (t_priority task))),
             (''input'', JObj (t_input task)),
             (''created_at'', JStr (isoformat (t_created_at task)))];
          response = (if t_started_at task \<noteq> None
                      then dict_set ''started_at'' (jopt_time (t_started_at task)) response else response);
          response =
            (if status = RUNNING then
               (let response = dict_set ''progress'' (meta_get_or (t_metadata task) ''progress'' (JInt 0)) response
                in dict_set ''estimated_completion''
                     (meta_get_or (t_metadata task) ''estimated_completion'' JNull) response)
             else if status = COMPLETED \<or> status = FAILED then
               (let response = dict_set ''result'' (t_result task) response;
                    response = dict_set ''warnings'' (meta_get_or (t_metadata task) ''warnings'' (JArr [])) response;
                    response = (if status = COMPLETED
                      then dict_set ''quality'' (meta_get_or (t_metadata task) ''quality'' default_quality) response
                      else response);
                    response = dict_set ''completed_at'' (jopt_time (t_completed_at task)) response
                in dict_set ''duration_seconds''
                     (jopt_int (compute_duration (t_started_at task) (t_completed_at task))) response)
             else if status \<in> {CANCELLED, REDIRECTED, RETASKED} \<and> t_completed_at task \<noteq> None then
               dict_set ''completed_at'' (jopt_time (t_completed_at task)) response
             else response)
      in dict_set ''_links'' (JObj (build_task_links (t_id task) (t_workflow_id task) status)) response)"

definition task_to_summary_response :: "task \<Rightarrow> dict" where
  "task_to_summary_response task =
     (let response =
            [(''task_id'', JStr (t_id task)),
             (''status'', JStr (status_value (t_status task))),
             (''caller'', JStr (t_principal task)),
             (''created_at'', JStr (isoformat (t_created_at task)))];
          response = (if t_completed_at task \<noteq> None
                      then dict_set ''completed_at'' (jopt_time (t_completed_at task)) response else response);
          response = (if t_status task = COMPLETED
                      then dict_set ''duration_seconds''
                             (jopt_int (compute_duration (t_started_at task) (t_completed_at task))) response
                      else response);
          base = task_path (t_workflow_id task) (t_id task)
      in dict_set ''_links'' (JObj [(''self'', href base), (''stream'', href (base @ ''/stream''))]) response)"

definition build_task_response :: "task \<Rightarrow> workflow \<Rightarrow> bool \<Rightarrow> string option \<Rightarrow> dict" where
  "build_task_response task workflow is_replay idempotency_key =
     (let response =
            [(''task_id'', JStr (t_id task)),
             (''workflow_id'', JStr (t_workflow_id task)),
             (''status'', JStr (status_value (t_status task))),
             (''caller'', JStr (t_principal task)),
             (''executor'', jopt_str (t_executor task)),
             (''input'', JObj (t_input task)),
             (''priority'', JStr (priority_value (t_priority task))),
             (''timeout_seconds'', jopt_int (t_timeout_seconds task)),
             (''created_at'', JStr (isoformat (t_created_at task))),
             (''estimated_duration_seconds'', jopt_int (w_estimated_duration workflow)),
             (''_links'', JObj (build_task_links (t_id task) (t_workflow_id task) (t_status task)))];
          effective_key = opt_str_or idempotency_key (t_idempotency_key task)
      in case effective_key of
           None \<Rightarrow> response
         | Some key \<Rightarrow>
             (let expires_at = t_created_at task + seconds (IDEMPOTENCY_TTL_HOURS * 3600)
              in dict_set ''idempotency''
                   (JObj [(''key'', JStr key),
                          (''status'', JStr (if is_replay then ''replayed'' else ''created'')),
                          (''expires_at'', JStr (isoformat expires_at))]) response))"

definition cancel_response :: "task \<Rightarrow> string \<Rightarrow> string option \<Rightarrow> dict" where
  "cancel_response task cancelled_by reason =
     [(''task_id'', JStr (t_id task)),
      (''workflow_id'', JStr (t_workflow_id task)),
      (''caller'', JStr (t_principal task)),
      (''executor'', jopt_str (t_executor task)),
      (''status'', JStr (status_value (t_status task))),
      (''input'', JObj (t_input task)),
      (''result'', t_result task),
      (''priority'', JStr (priority_value (t_priority task))),
      (''created_at'', JStr (isoformat (t_created_at task))),
      (''completed_at'', jopt_time (t_completed_at task)),
      (''cancelled_at'', jopt_time (t_completed_at task)),
      (''cancelled_by'', JStr cancelled_by),
      (''reason'', jopt_str reason),
      (''_links'', JObj (build_cancel_links (t_id task) (t_workflow_id task)))]"

definition pause_response :: "settings \<Rightarrow> task \<Rightarrow> dict" where
  "pause_response settings task =
     (let pause_ttl = fleet_pause_ttl_seconds settings;
          expires_at = map_option (\<lambda>p. p + seconds pause_ttl) (t_paused_at task);
          paused_state =
            [(''progress'', meta_get_or (t_metadata task) ''progress'' (JInt 0)),
             (''message'', meta_get_or (t_metadata task) ''progress_message'' JNull),
             (''resumable'', JBool True),
             (''state_ttl_seconds'', JInt pause_ttl),
             (''expires_at'', jopt_time expires_at)]
      in [(''task_id'', JStr (t_id task)),
          (''workflow_id'', JStr (t_workflow_id task)),
          (''status'', JStr (status_value (t_status task))),
          (''paused_at'', jopt_time (t_paused_at task)),
          (''paused_state'', JObj paused_state),
          (''_links'', JObj (build_task_links (t_id task) (t_workflow_id task) (t_status task)))])"

definition resume_response :: "task \<Rightarrow> task_event \<Rightarrow> dict" where
  "resume_response task event =
     [(''task_id'', JStr (t_id task)),
      (''workflow_id'', JStr (t_workflow_id task)),
      (''status'', JStr (status_value (t_status task))),
      (''resumed_at'', JStr (isoformat (e_created_at event))),
      (''paused_duration_seconds'', meta_get_or (e_data event) ''paused_duration_seconds'' (JInt 0)),
      (''progress'', meta_get_or (t_metadata task) ''progress'' (JInt 0)),
      (''_links'', JObj (build_task_links (t_id task) (t_workflow_id task) (t_status task)))]"

section \<open>The links of a status\<close>

lemma build_task_links_has:
  "dict_has (build_task_links tid wid s) a \<longleftrightarrow>
     a \<in> {''self'', ''workflow'', ''stream''} \<union> set (status_action_links s)"
  by (cases s; simp add: build_task_links_def dict_has_def Let_def; blast)

end
