(* ===== verification/Sse.thy ===== *)
theory Sse
  imports Context_Injection "HOL-Library.Sublist"
begin

text \<open>
  \<open>src/fleet_api/tasks/sse.py\<close>: the event stream of a task. The generator reads the database
  again and again while other requests write to it, so it runs over the snapshots its queries
  see: one for the first fetch and one for the status check that follows, and a pair for every
  poll (the fetch, then, when it brought nothing, the status check). The list of pairs is also
  the fuel of the endless polling loop; a stream that has used them up is still open.
\<close>

section \<open>Frames\<close>

datatype frame = Frame string dict int

definition format_sse_event :: "string \<Rightarrow> dict \<Rightarrow> int \<Rightarrow> string" where
  "format_sse_event event_type data sequence =
     ''id: '' @ int_str sequence @ [char_of (10::nat)] @ ''event: '' @ event_type @ [char_of (10::nat)]
     @ ''data: '' @ json_dumps (JObj data) @ [char_of (10::nat), char_of (10::nat)]"

primrec wire :: "frame \<Rightarrow> string" where
  "wire (Frame ty data sq) = format_sse_event ty data sq"

primrec frame_sequence :: "frame \<Rightarrow> int" where
  "frame_sequence (Frame ty data sq) = sq"

definition terminal_status_values :: "string list" where
  "terminal_status_values = map status_value terminal_states"

definition fetch_events_after :: "db \<Rightarrow> string \<Rightarrow> int \<Rightarrow> task_event list" where
  "fetch_events_after d task_id after_sequence =
     sort_key e_sequence (filter (\<lambda>e. after_sequence < e_sequence e) (task_events d task_id))"

definition get_task_status :: "db \<Rightarrow> string \<Rightarrow> exn + task_status" where
  "get_task_status d task_id =
     (case get_task d task_id of None \<Rightarrow> Inl (Fleet TASK_NOT_FOUND) | Some task \<Rightarrow> Inr (t_status task))"

definition frame_of :: "task_event \<Rightarrow> frame" where
  "frame_of e = Frame (e_type e) (case e_data e of None \<Rightarrow> [] | Some d \<Rightarrow> d) (e_sequence e)"

text \<open>\<open>status_value in _TERMINAL_STATUS_VALUES\<close>; an unhashable value is a TypeError.\<close>

definition closes :: "task_event \<Rightarrow> exn + bool" where
  "closes e =
     (if e_type e = ''completed'' \<or> e_type e = ''failed'' then Inr True
      else if e_type e = ''status'' then
        (case meta_get_or (e_data e) ''status'' (JStr []) of
           JStr s \<Rightarrow> Inr (s \<in> set terminal_status_values)
         | JArr _ \<Rightarrow> Inl PythonError
         | JObj _ \<Rightarrow> Inl PythonError
         | _ \<Rightarrow> Inr False)
      else Inr False)"

section \<open>The generator\<close>

text \<open>How the generator ends: it returned, it raised, or it is still polling.\<close>

datatype ending = Closed | Failed exn | Open

text \<open>One batch of fetched events: the frames, the last sequence sent, and whether it ended.\<close>

fun send_events :: "int \<Rightarrow> task_event list \<Rightarrow> frame list \<times> int \<times> ending" where
  "send_events last_sent [] = ([], last_sent, Open)"
| "send_events last_sent (e # es) =
     (case closes e of
        Inl x \<Rightarrow> ([frame_of e], e_sequence e, Failed x)
      | Inr True \<Rightarrow> ([frame_of e], e_sequence e, Closed)
      | Inr False \<Rightarrow> (let (fs, last_sent', en) = send_events (e_sequence e) es in (frame_of e # fs, last_sent', en)))"

definition heartbeat_frame :: "int \<Rightarrow> frame" where
  "heartbeat_frame last_sent = Frame ''heartbeat'' [(''type'', JStr ''keepalive'')] last_sent"

text \<open>Phase 2; \<open>idle\<close> is \<open>seconds_since_last_event\<close>, the poll interval one second.\<close>

fun poll_loop :: "string \<Rightarrow> int \<Rightarrow> int \<Rightarrow> int \<Rightarrow> (db \<times> db) list \<Rightarrow> frame list \<times> ending" where
  "poll_loop task_id heartbeat_interval last_sent idle [] = ([], Open)"
| "poll_loop task_id heartbeat_interval last_sent idle ((d, d_status) # polls) =
     (let idle = idle + 1;
          events = fetch_events_after d task_id last_sent
      in if events \<noteq> [] then
           (let idle = 0; (fs, last_sent', en) = send_events last_sent events
            in if en \<noteq> Open then (fs, en)
               else if heartbeat_interval \<le> idle then
                 (let (gs, en') = poll_loop task_id heartbeat_interval last_sent' 0 polls
                  in (fs @ heartbeat_frame last_sent' # gs, en'))
               else
                 (let (gs, en') = poll_loop task_id heartbeat_interval last_sent' idle polls
                  in (fs @ gs, en')))
         else
           (case get_task_status d_status task_id of
              Inl x \<Rightarrow> ([], Failed x)
            | Inr current_status \<Rightarrow>
                if is_terminal current_status then ([], Closed)
                else if heartbeat_interval \<le> idle then
                  (let (gs, en') = poll_loop task_id heartbeat_interval last_sent 0 polls
                   in (heartbeat_frame last_sent # gs, en'))
                else poll_loop task_id heartbeat_interval last_sent idle polls))"

definition event_stream :: "string \<Rightarrow> int \<Rightarrow> int \<Rightarrow> (db \<times> db) \<Rightarrow> (db \<times> db) list \<Rightarrow> frame list \<times> ending" where
  "event_stream task_id last_event_id heartbeat_interval first polls =
     (let (d, d_status) = first;
          (fs, last_sent, en) = send_events last_event_id (fetch_events_after d task_id last_event_id)
      in if en \<noteq> Open then (fs, en)
         else
           (case get_task_status d_status task_id of
              Inl x \<Rightarrow> (fs, Failed x)
            | Inr current_status \<Rightarrow>
                if is_terminal current_status then (fs, Closed)
                else
                  (let (gs, en') = poll_loop task_id heartbeat_interval last_sent 0 polls
                   in (fs @ gs, en'))))"

text \<open>The endpoint: the 404s before the stream starts.\<close>

definition stream_task_events ::
    "settings \<Rightarrow> string \<Rightarrow> string \<Rightarrow> int option \<Rightarrow> db \<Rightarrow> (db \<times> db) \<Rightarrow> (db \<times> db) list
       \<Rightarrow> exn + (frame list \<times> ending)" where
  "stream_task_events settings workflow_id task_id last_event_id d first polls =
     (case get_workflow d workflow_id of
        None \<Rightarrow> Inl (Fleet WORKFLOW_NOT_FOUND)
      | Some _ \<Rightarrow>
     (case get_task d task_id of
        None \<Rightarrow> Inl (Fleet TASK_NOT_FOUND)
      | Some task \<Rightarrow>
     if t_workflow_id task \<noteq> workflow_id then Inl (Fleet TASK_NOT_FOUND)
     else Inr (event_stream task_id (case last_event_id of None \<Rightarrow> 0 | Some n \<Rightarrow> n)
                 (fleet_sse_heartbeat_interval settings) first polls)))"

section \<open>What a client sees\<close>

text \<open>A client keeps a frame when its id is beyond the last one it has seen; a keepalive repeats it.\<close>

fun client_view :: "int \<Rightarrow> frame list \<Rightarrow> frame list" where
  "client_view seen [] = []"
| "client_view seen (f # fs) =
     (if seen < frame_sequence f then f # client_view (frame_sequence f) fs else client_view seen fs)"

definition events_after :: "db \<Rightarrow> string \<Rightarrow> int \<Rightarrow> task_event list" where
  "events_after d k n = filter (\<lambda>e. n < e_sequence e) (task_events d k)"

text \<open>The log of the task is sorted by sequence, as the invariant \<open>log_inv\<close> has it.\<close>

definition log_sorted :: "db \<Rightarrow> string \<Rightarrow> bool" where
  "log_sorted d k = sorted_wrt (<) (map e_sequence (task_events d k))"

lemma sorted_key_id:
  fixes f :: "'a \<Rightarrow> 'b::linorder"
  assumes "sorted_wrt (<) (map f xs)"
  shows "sort_key f xs = xs"
proof (rule sort_key_id_if_sorted)
  show "sorted (map f xs)"
    using assms strict_sorted_iff by blast
qed

lemma fetch_sorted: "log_sorted d k \<Longrightarrow> fetch_events_after d k n = events_after d k n"
  by (simp add: fetch_events_after_def events_after_def log_sorted_def sorted_key_id sorted_wrt_map
      sorted_wrt_filter)

lemma frame_of_sequence [simp]: "frame_sequence (frame_of e) = e_sequence e"
  by (simp add: frame_of_def)

lemma send_events_prefix:
  "send_events m es = (fs, m', en) \<Longrightarrow> prefix fs (map frame_of es)"
proof (induction es arbitrary: m fs)
  case Nil
  then show ?case by simp
next
  case (Cons e es)
  show ?case
    using Cons by (auto split: sum.splits bool.splits prod.splits)
qed

lemma send_events_open:
  "send_events m es = (fs, m', Open) \<Longrightarrow> fs = map frame_of es \<and> m' = (if es = [] then m else e_sequence (last es))"
proof (induction es arbitrary: m fs)
  case Nil
  then show ?case by simp
next
  case (Cons e es)
  then show ?case by (auto split: sum.splits bool.splits prod.splits)
qed

lemma client_view_sorted:
  assumes "sorted_wrt (<) (map frame_sequence fs)" and "\<forall>f \<in> set fs. n < frame_sequence f"
  shows "client_view n fs = fs"
  using assms by (induction fs arbitrary: n) auto

lemma client_view_append:
  assumes "sorted_wrt (<) (map frame_sequence fs)" and "\<forall>f \<in> set fs. n < frame_sequence f"
  shows "client_view n (fs @ gs) = fs @ client_view (if fs = [] then n else frame_sequence (last fs)) gs"
  using assms by (induction fs arbitrary: n) auto

lemma sorted_prefix: "sorted_wrt P ys \<Longrightarrow> prefix xs ys \<Longrightarrow> sorted_wrt P xs"
  by (auto simp: prefix_def sorted_wrt_append)

text \<open>Events sent up to the last one of a snapshot are followed by those beyond it.\<close>

lemma events_after_split:
  assumes "log_sorted F k" and "prefix (task_events d k) (task_events F k)" and "events_after d k n \<noteq> []"
  shows "events_after F k n = events_after d k n @ events_after F k (e_sequence (last (events_after d k n)))"
proof -
  obtain es where F: "task_events F k = task_events d k @ es"
    using assms(2) by (auto simp: prefix_def)
  have srt: "sorted_wrt (\<lambda>x y. e_sequence x < e_sequence y) (task_events d k @ es)"
    using assms(1) by (simp add: log_sorted_def F sorted_wrt_map flip: map_append)
  have ne: "task_events d k \<noteq> []" using assms(3) by (auto simp: events_after_def)
  define l where "l = last (task_events d k)"
  have d: "task_events d k = butlast (task_events d k) @ [l]"
    using ne by (simp add: l_def)
  have le: "e_sequence x \<le> e_sequence l" if "x \<in> set (task_events d k)" for x
    using that srt by (subst (asm) d, subst (asm) (2) d) (auto simp: sorted_wrt_append)
  have gt: "e_sequence l < e_sequence x" if "x \<in> set es" for x
    using that srt ne by (auto simp: sorted_wrt_append l_def)
  obtain x where "x \<in> set (task_events d k)" "n < e_sequence x"
    using assms(3) by (auto simp: events_after_def filter_empty_conv)
  with le have n: "n < e_sequence l" by force
  then have last: "last (events_after d k n) = l"
    using arg_cong [OF d, of "filter (\<lambda>e. n < e_sequence e)"] by (simp add: events_after_def)
  have "filter (\<lambda>e. n < e_sequence e) es = es"
    using gt n by (fastforce simp: filter_id_conv)
  moreover have "filter (\<lambda>e. e_sequence l < e_sequence e) es = es"
    using gt by (simp add: filter_id_conv)
  moreover have "filter (\<lambda>e. e_sequence l < e_sequence e) (task_events d k) = []"
    using le by (fastforce simp: filter_empty_conv)
  ultimately show ?thesis by (simp add: last) (simp add: events_after_def F)
qed

section \<open>Polling loses and repeats nothing\<close>

text \<open>
  \<open>F\<close> is any later state of the log: every snapshot the stream fetched from is an initial part
  of it. What the client sees are events of \<open>F\<close> after the last one it had, in order and without
  gaps.
\<close>

lemma events_after_sorted: "log_sorted F k \<Longrightarrow> sorted_wrt (<) (map e_sequence (events_after F k n))"
  by (simp add: log_sorted_def events_after_def sorted_wrt_map sorted_wrt_filter)

lemma events_after_above: "e \<in> set (events_after F k n) \<Longrightarrow> n < e_sequence e"
  by (simp add: events_after_def)

lemma log_sorted_prefix: "log_sorted F k \<Longrightarrow> prefix (task_events d k) (task_events F k) \<Longrightarrow> log_sorted d k"
  unfolding log_sorted_def by (rule sorted_prefix) (auto intro: map_mono_prefix)

lemma events_after_prefix:
  "prefix (task_events d k) (task_events F k) \<Longrightarrow> prefix (events_after d k n) (events_after F k n)"
  by (auto simp: prefix_def events_after_def)

text \<open>The frames of one batch, as the client sees them before the rest \<open>gs\<close> of the stream.\<close>

lemma client_view_batch:
  assumes F: "log_sorted F k" and p: "prefix (task_events d k) (task_events F k)"
    and fs: "prefix fs (map frame_of (events_after d k n))"
  shows "client_view n (fs @ gs) = fs @ client_view (if fs = [] then n else frame_sequence (last fs)) gs"
proof (rule client_view_append)
  have "sorted_wrt (<) (map frame_sequence (map frame_of (events_after d k n)))"
    using events_after_sorted [OF log_sorted_prefix [OF F p]] by (simp add: comp_def)
  then show "sorted_wrt (<) (map frame_sequence fs)"
    by (rule sorted_prefix) (rule map_mono_prefix [OF fs])
  show "\<forall>f \<in> set fs. n < frame_sequence f"
    using set_mono_prefix [OF fs] events_after_above by fastforce
qed

lemma heartbeat_sequence [simp]: "frame_sequence (heartbeat_frame n) = n"
  by (simp add: heartbeat_frame_def)

text \<open>A batch that was sent completely moves the client to the last event of the snapshot.\<close>

lemma batch_open:
  assumes F: "log_sorted F k" and p: "prefix (task_events d k) (task_events F k)"
    and send: "send_events n (fetch_events_after d k n) = (fs, m, Open)"
  shows "client_view n (fs @ gs) = map frame_of (events_after d k n) @ client_view m gs"
    and "events_after F k n = events_after d k n @ events_after F k m"
proof -
  have fetch: "fetch_events_after d k n = events_after d k n"
    by (rule fetch_sorted [OF log_sorted_prefix [OF F p]])
  have fs: "fs = map frame_of (events_after d k n)"
    and m: "m = (if events_after d k n = [] then n else e_sequence (last (events_after d k n)))"
    using send_events_open [OF send] by (simp_all add: fetch)
  show "client_view n (fs @ gs) = map frame_of (events_after d k n) @ client_view m gs"
    using client_view_batch [OF F p, of fs n gs] by (simp add: fs m last_map)
  show "events_after F k n = events_after d k n @ events_after F k m"
    using events_after_split [OF F p] m by auto
qed

lemma batch_closed:
  assumes F: "log_sorted F k" and p: "prefix (task_events d k) (task_events F k)"
    and send: "send_events n (fetch_events_after d k n) = (fs, m, en)"
  shows "client_view n fs = fs \<and> prefix fs (map frame_of (events_after F k n))"
proof -
  have fs: "prefix fs (map frame_of (events_after d k n))"
    using send_events_prefix [OF send] fetch_sorted [OF log_sorted_prefix [OF F p]] by simp
  then have "client_view n (fs @ []) = fs @ client_view (if fs = [] then n else frame_sequence (last fs)) []"
    by (rule client_view_batch [OF F p])
  moreover have "prefix fs (map frame_of (events_after F k n))"
    using prefix_order.trans [OF fs map_mono_prefix [OF events_after_prefix [OF p]]] .
  ultimately show ?thesis by simp
qed

text \<open>The polls of the loop, and the fetch of phase 1, are handled alike: \<open>after_batch\<close>.\<close>

lemma after_batch:
  assumes F: "log_sorted F k" and p: "prefix (task_events d k) (task_events F k)"
    and send: "send_events n (fetch_events_after d k n) = (fs, m, Open)"
    and rest: "prefix (client_view m gs) (map frame_of (events_after F k m))"
  shows "prefix (client_view n (fs @ gs)) (map frame_of (events_after F k n))"
  using batch_open [OF F p send] rest by simp

lemma poll_loop_sound:
  assumes "log_sorted F k" and "\<forall>(d, d') \<in> set polls. prefix (task_events d k) (task_events F k)"
  shows "prefix (client_view n (fst (poll_loop k hb n idle polls))) (map frame_of (events_after F k n))"
  using assms(2)
proof (induction polls arbitrary: n idle)
  case Nil
  then show ?case by simp
next
  case (Cons pq polls)
  obtain d d' where pq: "pq = (d, d')" by force
  have p: "prefix (task_events d k) (task_events F k)" using Cons.prems pq by simp
  have IH: "prefix (client_view m (fst (poll_loop k hb m i polls))) (map frame_of (events_after F k m))" for m i
    using Cons by simp
  obtain fs m en where send: "send_events n (fetch_events_after d k n) = (fs, m, en)"
    by (metis prod_cases3)
  show ?case
  proof (cases "fetch_events_after d k n = []")
    case True
    then show ?thesis
      using IH [of n 0] IH [of n "idle + 1"]
      by (auto simp: pq Let_def split: sum.splits prod.splits if_splits)
  next
    case False
    show ?thesis
    proof (cases en)
      case Open
      have "prefix (client_view n (fs @ gs)) (map frame_of (events_after F k n))"
        if "gs = heartbeat_frame m # fst (poll_loop k hb m 0 polls) \<or> gs = fst (poll_loop k hb m 0 polls)" for gs
        using that IH by (intro after_batch [OF assms(1) p]) (auto simp: send Open)
      then show ?thesis
        using False by (auto simp: pq Let_def send Open split: prod.splits)
    next
      case Closed
      then show ?thesis
        using False batch_closed [OF assms(1) p send] by (simp add: pq Let_def send)
    next
      case (Failed x)
      then show ?thesis
        using False batch_closed [OF assms(1) p send] by (simp add: pq Let_def send)
    qed
  qed
qed

text \<open>A stream that is still open has shown everything its last fetch could see.\<close>

lemma poll_loop_complete:
  assumes "log_sorted F k" and "\<forall>(d, d') \<in> set polls. prefix (task_events d k) (task_events F k)"
    and "snd (poll_loop k hb n idle polls) = Open" and "polls \<noteq> []"
    and "task_events (fst (last polls)) k = task_events F k"
  shows "client_view n (fst (poll_loop k hb n idle polls)) = map frame_of (events_after F k n)"
  using assms(2-)
proof (induction polls arbitrary: n idle)
  case Nil
  then show ?case by simp
next
  case (Cons pq polls)
  obtain d d' where pq: "pq = (d, d')" by force
  have p: "prefix (task_events d k) (task_events F k)" using Cons.prems pq by simp
  have IH: "client_view m (fst (poll_loop k hb m i polls)) = map frame_of (events_after F k m)"
    if "snd (poll_loop k hb m i polls) = Open" "polls \<noteq> []" for m i
    using Cons that by simp
  have stop: "events_after F k m = []"
    if "send_events n (fetch_events_after d k n) = (fs, m, Open)" "polls = []" for fs m
  proof -
    have "events_after F k n = events_after d k n"
      using Cons.prems(4) that(2) by (simp add: pq events_after_def)
    then show ?thesis using batch_open(2) [OF assms(1) p that(1)] by simp
  qed
  obtain fs m en where send: "send_events n (fetch_events_after d k n) = (fs, m, en)"
    by (metis prod_cases3)
  show ?case
  proof (cases "fetch_events_after d k n = []")
    case True
    with send have nm: "m = n" "en = Open" by simp_all
    show ?thesis
      using Cons.prems(2) IH [of n 0] IH [of n "idle + 1"] stop [OF send [unfolded nm]] True
      by (cases "polls = []") (auto simp: pq Let_def split: sum.splits prod.splits if_splits)
  next
    case False
    have en: "en = Open"
      using Cons.prems(2) False by (auto simp: pq Let_def send split: prod.splits if_splits)
    note batch = batch_open [OF assms(1) p send [unfolded en]]
    have rest: "client_view m (fst (poll_loop k hb m 0 polls)) = map frame_of (events_after F k m)"
    proof (cases "polls = []")
      case True
      then show ?thesis using stop [OF send [unfolded en]] by simp
    next
      case ne: False
      have "snd (poll_loop k hb m 0 polls) = Open"
        using Cons.prems(2) False by (auto simp: pq Let_def send en split: prod.splits if_splits)
      then show ?thesis using IH ne by blast
    qed
    then show ?thesis
      using False batch by (auto simp: pq Let_def send en split: prod.splits)
  qed
qed

text \<open>The snapshots of a stream: the fetch of phase 1 and those of the polls.\<close>

definition snapshots :: "(db \<times> db) \<Rightarrow> (db \<times> db) list \<Rightarrow> db list" where
  "snapshots first polls = map fst (first # polls)"

lemma event_stream_sound:
  assumes F: "log_sorted F k" and s: "\<forall>d \<in> set (snapshots first polls). prefix (task_events d k) (task_events F k)"
  shows "prefix (client_view n (fst (event_stream k n hb first polls))) (map frame_of (events_after F k n))"
proof -
  obtain d d' where first: "first = (d, d')" by force
  have p: "prefix (task_events d k) (task_events F k)" using s by (simp add: snapshots_def first)
  have ps: "\<forall>(d, d') \<in> set polls. prefix (task_events d k) (task_events F k)"
    using s by (auto simp: snapshots_def)
  obtain fs m en where send: "send_events n (fetch_events_after d k n) = (fs, m, en)"
    by (metis prod_cases3)
  show ?thesis
  proof (cases en)
    case Open
    then show ?thesis
      using poll_loop_sound [OF F ps] after_batch [OF F p send [unfolded Open], of "[]"]
        after_batch [OF F p send [unfolded Open], of "fst (poll_loop k hb m 0 polls)"]
      by (auto simp: event_stream_def first send split: sum.splits prod.splits)
  next
    case Closed
    then show ?thesis using batch_closed [OF F p send] by (simp add: event_stream_def first send)
  next
    case (Failed x)
    then show ?thesis using batch_closed [OF F p send] by (simp add: event_stream_def first send)
  qed
qed

lemma event_stream_complete:
  assumes F: "log_sorted F k" and s: "\<forall>d \<in> set (snapshots first polls). prefix (task_events d k) (task_events F k)"
    and o: "snd (event_stream k n hb first polls) = Open"
    and l: "task_events (last (snapshots first polls)) k = task_events F k"
  shows "client_view n (fst (event_stream k n hb first polls)) = map frame_of (events_after F k n)"
proof -
  obtain d d' where first: "first = (d, d')" by force
  have p: "prefix (task_events d k) (task_events F k)" using s by (simp add: snapshots_def first)
  have ps: "\<forall>(d, d') \<in> set polls. prefix (task_events d k) (task_events F k)"
    using s by (auto simp: snapshots_def)
  obtain fs m en where send: "send_events n (fetch_events_after d k n) = (fs, m, en)"
    by (metis prod_cases3)
  have en: "en = Open" and poll: "snd (poll_loop k hb m 0 polls) = Open"
    using o by (auto simp: event_stream_def first send split: sum.splits prod.splits if_splits)
  note batch = batch_open [OF F p send [unfolded en]]
  have rest: "client_view m (fst (poll_loop k hb m 0 polls)) = map frame_of (events_after F k m)"
  proof (cases "polls = []")
    case True
    then have "events_after F k n = events_after d k n"
      using l by (simp add: snapshots_def first events_after_def)
    then show ?thesis using batch(2) True by simp
  next
    case False
    then show ?thesis
      using l by (intro poll_loop_complete [OF F ps poll]) (simp_all add: snapshots_def last_map)
  qed
  have "fst (event_stream k n hb first polls) = fs @ fst (poll_loop k hb m 0 polls)"
    using o by (auto simp: event_stream_def first send en split: sum.splits prod.splits if_splits)
  then show ?thesis using batch rest by simp
qed

end
