(* ===== verification/Sidecar_Events.thy ===== *)
theory Sidecar_Events
  imports Lifecycle_Correct
begin

text \<open>
  \<open>src/fleet_api/tasks/sidecar.py\<close>: the events an executor posts. A status, completed, failed or
  progress event changes the task; every accepted event is recorded. The result tells, after the
  refresh, whether a callback delivery was scheduled.
\<close>

section \<open>The operation\<close>

definition valid_event_types :: "string list" where
  "valid_event_types =
     [''status'', ''progress'', ''log'', ''completed'', ''failed'', ''heartbeat'', ''context_injected'',
      ''escalation'']"

text \<open>\<open>TaskStatus(v)\<close> of whatever \<open>data.get("status", "")\<close> is.\<close>

fun status_of_json :: "json \<Rightarrow> task_status option" where
  "status_of_json (JStr s) = status_of_value s"
| "status_of_json _ = None"

text \<open>
  The metadata column at flush, when the loaded dictionary \<open>loaded\<close> was changed in place to \<open>mem\<close>
  (\<open>reassigned\<close>: the attribute was first set to a new dictionary).
\<close>

definition flush_metadata :: "env \<Rightarrow> dict option \<Rightarrow> bool \<Rightarrow> dict \<Rightarrow> dict option" where
  "flush_metadata env loaded reassigned mem =
     (if reassigned \<or> env_tracks env then Some mem else loaded)"

definition dict_of_opt :: "dict option \<Rightarrow> dict" where
  "dict_of_opt m = (case m of None \<Rightarrow> [] | Some d \<Rightarrow> d)"

text \<open>Lines 159 to 165: the result and the quality and warnings of a completed task.\<close>

definition record_completion :: "env \<Rightarrow> dict \<Rightarrow> task \<Rightarrow> task" where
  "record_completion env data task =
     (let task = task\<lparr>t_result := dict_get data ''result''\<rparr>;
          quality = dict_get data ''quality''; warnings = dict_get data ''warnings''
      in if quality \<noteq> JNull \<or> warnings \<noteq> JNull then
           (let loaded = t_metadata task;
                mem = dict_of_opt loaded;
                mem = (if quality \<noteq> JNull then dict_set ''quality'' quality mem else mem);
                mem = (if warnings \<noteq> JNull then dict_set ''warnings'' warnings mem else mem)
            in task\<lparr>t_metadata := flush_metadata env loaded (dict_of_opt loaded = []) mem\<rparr>)
         else task)"

text \<open>Lines 193 to 197: the progress of a running task.\<close>

definition record_progress :: "env \<Rightarrow> dict \<Rightarrow> task \<Rightarrow> task" where
  "record_progress env data task =
     (let loaded = t_metadata task;
          mem = dict_set ''progress'' (dict_get data ''progress'') (dict_of_opt loaded);
          mem = (if truthy (dict_get data ''message'')
                 then dict_set ''progress_message'' (dict_get data ''message'') mem else mem)
      in task\<lparr>t_metadata := flush_metadata env loaded (loaded = None) mem\<rparr>)"

text \<open>Step 5: what an event does to the task.\<close>

definition apply_event :: "env \<Rightarrow> string \<Rightarrow> dict \<Rightarrow> task \<Rightarrow> exn + task" where
  "apply_event env event_type data task =
     (if event_type = ''status'' then
        (case status_of_json (dict_get_or data ''status'' (JStr [])) of
           None \<Rightarrow> Inl (Fleet INVALID_INPUT)
         | Some new_status \<Rightarrow>
             (case transition_to (env_now_utc env) new_status task of
                Inl _ \<Rightarrow> Inl (Fleet INVALID_STATE_TRANSITION)
              | Inr task' \<Rightarrow>
                  Inr (if new_status = RUNNING \<and> t_started_at task' = None
                       then task'\<lparr>t_started_at := Some (env_now env)\<rparr> else task')))
      else if event_type = ''completed'' then
        (case transition_to (env_now_utc env) COMPLETED task of
           Inl _ \<Rightarrow> Inl (Fleet INVALID_STATE_TRANSITION)
         | Inr task' \<Rightarrow> Inr (record_completion env data task'))
      else if event_type = ''failed'' then
        (case transition_to (env_now_utc env) FAILED task of
           Inl _ \<Rightarrow> Inl (Fleet INVALID_STATE_TRANSITION)
         | Inr task' \<Rightarrow>
             Inr (task'\<lparr>t_result := JObj [(''error_code'', dict_get data ''error_code''),
                                         (''message'', dict_get data ''message'')]\<rparr>))
      else if event_type = ''progress'' then
        (if \<not> dict_has data ''progress'' then Inl (Fleet INVALID_INPUT)
         else Inr (record_progress env data task))
      else Inr task)"

definition process_sidecar_event ::
    "env \<Rightarrow> string \<Rightarrow> string \<Rightarrow> dict \<Rightarrow> int \<Rightarrow> string \<Rightarrow> db \<Rightarrow> (task_event \<times> task \<times> bool) tx" where [op_defs]:
  "process_sidecar_event env task_id event_type data sequence executor_agent_id d =
     (if event_type \<notin> set valid_event_types then Raise (Fleet INVALID_INPUT)
      else
     (case get_task d task_id of
        None \<Rightarrow> Raise (Fleet TASK_NOT_FOUND)
      | Some task \<Rightarrow>
     if t_executor task \<noteq> Some executor_agent_id then Raise (Fleet NOT_AUTHORIZED)
     else if sequence \<le> max_sequence d task_id then Raise (Fleet INVALID_INPUT)
     else
     (case apply_event env event_type data task of
        Inl e \<Rightarrow> Raise e
      | Inr task' \<Rightarrow>
          let event = new_event task_id event_type (Some data) sequence (env_now env)
          in Commit \<lparr>uw_update = Some (task, task'), uw_tasks = [], uw_events = [event]\<rparr>
               (\<lambda>d'. let task'' = refresh_task task' d'
                     in (refresh_event event d', task'',
                         is_terminal (t_status task'') \<and> t_callback_url task'' \<noteq> None)))))"

section \<open>The contract\<close>

lemma record_completion_evolves: "evolves t u \<Longrightarrow> evolves t (record_completion env data u)"
  by (simp add: record_completion_def Let_def evolves_fields)

lemma record_progress_evolves: "evolves t (record_progress env data t)"
  by (simp add: record_progress_def Let_def evolves_fields)

lemma apply_event_evolves: "apply_event env ty data t = Inr t' \<Longrightarrow> evolves t t'"
  by (auto simp: apply_event_def split: op_splits
      intro: transition_evolves record_completion_evolves record_progress_evolves evolves_fields)

lemma sidecar_work:
  assumes "tx_work (process_sidecar_event env tid ty data sq ex d) = Some uw"
  shows "\<exists>t t'. get_task d tid = Some t \<and> t_executor t = Some ex \<and> ty \<in> set valid_event_types
           \<and> max_sequence d tid < sq \<and> apply_event env ty data t = Inr t'
           \<and> uw = \<lparr>uw_update = Some (t, t'), uw_tasks = [],
                  uw_events = [new_event tid ty (Some data) sq (env_now env)]\<rparr>"
  using assms
  by (auto simp: process_sidecar_event_def Let_def split: op_splits)

lemma sidecar_good:
  assumes "db_inv mx d" and "tx_work (process_sidecar_event env tid ty data sq ex d) = Some uw"
  shows "good_work mx d uw"
  using assms(2)
  by (auto dest!: sidecar_work intro!: good_update_only dest: apply_event_evolves simp: new_event_def)

text \<open>An executor operation is refused unless the caller is the executor the task is assigned to.\<close>

locale executor_operation = task_operation mx opr
  for mx :: int and opr :: "db \<Rightarrow> 'a tx" +
  fixes tid caller :: string
  assumes executor_guard: "tx_work (opr d) = Some uw \<Longrightarrow>
            \<exists>t. get_task d tid = Some t \<and> t_executor t = Some caller"
    and target: "tx_work (opr d) = Some uw \<Longrightarrow> concerns tid uw"
begin

lemma only_executor:
  assumes "snd (run_tx (opr d) d) \<noteq> d"
  shows "\<exists>t. get_task d tid = Some t \<and> t_executor t = Some caller"
  by (rule run_cases [of d]) (use assms executor_guard in auto)

lemma others_kept:
  "get_task d k = Some t \<Longrightarrow> k \<noteq> tid \<Longrightarrow>
    get_task (snd (run_tx (opr d) d)) k = Some t
    \<and> task_events (snd (run_tx (opr d) d)) k = task_events d k"
  by (rule run_concerns) (erule target)

lemmas other_tasks = others_kept [THEN conjunct1]

end

lemma sidecar_guard: "tx_work (process_sidecar_event env tid ty data sq ex d) = Some uw \<Longrightarrow>
    \<exists>t. get_task d tid = Some t \<and> t_executor t = Some ex"
  by (auto dest!: sidecar_work)

lemma sidecar_target: "tx_work (process_sidecar_event env tid ty data sq ex d) = Some uw \<Longrightarrow> concerns tid uw"
  by (auto dest!: sidecar_work dest: get_taskD simp: concerns_def new_event_def)

interpretation sidecar_op: executor_operation mx "process_sidecar_event env tid ty data sq ex" tid ex
  for mx env tid ty data sq ex
  by (unfold_locales; (erule (1) sidecar_good | erule sidecar_target | erule sidecar_guard))

end
