(* ===== verification/Base64.thy ===== *)
theory Base64
  imports Fleet_Prelude "HOL-Library.Word"
begin

text \<open>
  Bytes and the two functions of Python's \<open>base64\<close> module the sources call: \<open>b64encode\<close> and the
  lenient \<open>b64decode\<close>, which skips characters outside the alphabet and stops at a complete padding,
  with \<open>str.encode()\<close> (UTF-8) of the characters of the model, the code points below 256.
\<close>

type_synonym byte = "8 word"
type_synonym bytes = "byte list"

definition utf8 :: "string \<Rightarrow> bytes" where
  "utf8 s = concat (map (\<lambda>c. let n = of_char c :: nat in
     if n < 128 then [of_nat n] else [of_nat (192 + n div 64), of_nat (128 + n mod 64)]) s)"

lemma byte_of_nat_eq: "m < 256 \<Longrightarrow> n < 256 \<Longrightarrow> (of_nat m :: byte) = of_nat n \<longleftrightarrow> m = n"
  by (simp add: word_of_nat_eq_iff take_bit_eq_mod)

definition utf8_char :: "char \<Rightarrow> bytes" where
  "utf8_char c = (let n = of_char c :: nat in
     if n < 128 then [of_nat n] else [of_nat (192 + n div 64), of_nat (128 + n mod 64)])"

lemma utf8_simps: "utf8 [] = []" "utf8 (c # s) = utf8_char c @ utf8 s"
  by (simp_all add: utf8_def utf8_char_def)

lemma utf8_char_prefix:
  assumes "utf8_char c @ xs = utf8_char d @ ys"
  shows "c = d \<and> xs = ys"
proof -
  define m n where "m = (of_char c :: nat)" and "n = (of_char d :: nat)"
  have b: "m < 256" "n < 256" by (simp_all add: m_def n_def)
  have "m = n \<and> xs = ys"
  proof (cases "m < 128"; cases "n < 128")
    assume "m < 128" "n < 128"
    then show ?thesis
      using assms b by (simp add: utf8_char_def m_def [symmetric] n_def [symmetric] byte_of_nat_eq)
  next
    assume *: "m < 128" "\<not> n < 128"
    have "m \<noteq> 192 + n div 64" "192 + n div 64 < 256" using * b by linarith+
    then have "(of_nat m :: byte) \<noteq> of_nat (192 + n div 64)"
      using b byte_of_nat_eq by blast
    then show ?thesis
      using assms *
      by (simp add: utf8_char_def m_def [symmetric] n_def [symmetric])
  next
    assume *: "\<not> m < 128" "n < 128"
    have "n \<noteq> 192 + m div 64" "192 + m div 64 < 256" using * b by linarith+
    then have "(of_nat n :: byte) \<noteq> of_nat (192 + m div 64)"
      using b byte_of_nat_eq by blast
    then show ?thesis
      using assms *
      by (simp add: utf8_char_def m_def [symmetric] n_def [symmetric])
  next
    assume *: "\<not> m < 128" "\<not> n < 128"
    have lt: "192 + m div 64 < 256" "192 + n div 64 < 256" "128 + m mod 64 < 256" "128 + n mod 64 < 256"
      using b by linarith+
    have "(of_nat (192 + m div 64) :: byte) = of_nat (192 + n div 64)"
      "(of_nat (128 + m mod 64) :: byte) = of_nat (128 + n mod 64)" "xs = ys"
      using assms * by (simp_all add: utf8_char_def m_def [symmetric] n_def [symmetric])
    then have "m div 64 = n div 64" "m mod 64 = n mod 64" "xs = ys"
      using byte_of_nat_eq [OF lt(1,2)] byte_of_nat_eq [OF lt(3,4)] by simp_all
    then show ?thesis by (metis div_mult_mod_eq)
  qed
  then show ?thesis by (simp add: m_def n_def)
qed

lemma utf8_char_nonempty [simp]: "utf8_char c \<noteq> []"
  by (simp add: utf8_char_def Let_def)

lemma utf8_inj: "utf8 s = utf8 t \<Longrightarrow> s = t"
proof (induction s arbitrary: t)
  case Nil
  then show ?case by (cases t) (simp_all add: utf8_simps)
next
  case (Cons c s)
  then obtain d t' where t: "t = d # t'" by (cases t) (auto simp: utf8_simps)
  with Cons.prems have "utf8_char c @ utf8 s = utf8_char d @ utf8 t'" by (simp add: utf8_simps)
  then have "c = d \<and> utf8 s = utf8 t'" by (rule utf8_char_prefix)
  then show ?case using Cons.IH t by blast
qed

section \<open>The alphabet\<close>

definition b64_char :: "nat \<Rightarrow> char" where
  "b64_char n =
     char_of (if n < 26 then n + 65 else if n < 52 then n + 71 else if n < 62 then n - 4
              else if n = 62 then 43 else 47)"

definition b64_value :: "char \<Rightarrow> nat option" where
  "b64_value c =
     (let n = of_char c :: nat in
      if 65 \<le> n \<and> n \<le> 90 then Some (n - 65)
      else if 97 \<le> n \<and> n \<le> 122 then Some (n - 71)
      else if 48 \<le> n \<and> n \<le> 57 then Some (n + 4)
      else if n = 43 then Some 62
      else if n = 47 then Some 63
      else None)"

lemma b64_value_char [simp]:
  assumes "n < 64"
  shows "b64_value (b64_char n) = Some n"
proof -
  have of_char: "of_char (char_of m :: char) = m" if "m < 256" for m :: nat
    using that by simp
  consider "n < 26" | "26 \<le> n" "n < 52" | "52 \<le> n" "n < 62" | "n = 62" | "n = 63"
    using assms by linarith
  then show ?thesis
    by cases (auto simp: b64_char_def b64_value_def Let_def)
qed

lemma b64_char_alphabet: "n < 64 \<Longrightarrow> b64_char n \<noteq> CHR ''='' \<and> b64_char n \<noteq> CHR '':''"
  by (metis (mono_tags, lifting) b64_value_char option.distinct(1)
      b64_value_def [of "CHR ''=''", simplified] b64_value_def [of "CHR '':''", simplified])

section \<open>Encoding\<close>

fun b64encode :: "bytes \<Rightarrow> string" where
  "b64encode [] = []"
| "b64encode [a] =
     (let a = unat a in [b64_char (a div 4), b64_char (a mod 4 * 16), CHR ''='', CHR ''=''])"
| "b64encode [a, b] =
     (let a = unat a; b = unat b
      in [b64_char (a div 4), b64_char (a mod 4 * 16 + b div 16), b64_char (b mod 16 * 4), CHR ''=''])"
| "b64encode (a # b # c # rest) =
     (let x = unat a; y = unat b; z = unat c
      in b64_char (x div 4) # b64_char (x mod 4 * 16 + y div 16)
         # b64_char (y mod 16 * 4 + z div 64) # b64_char (z mod 64) # b64encode rest)"

section \<open>Decoding\<close>

text \<open>\<open>binascii.a2b_base64\<close>: the position in the group of four, the left-over bits, the pads seen.\<close>

fun a2b :: "nat \<Rightarrow> nat \<Rightarrow> nat \<Rightarrow> string \<Rightarrow> bytes option" where
  "a2b quad_pos leftchar pads [] = (if quad_pos = 0 then Some [] else None)"
| "a2b quad_pos leftchar pads (c # cs) =
     (if c = CHR ''='' then
        (if 2 \<le> quad_pos then
           (if 4 \<le> quad_pos + (pads + 1) then Some [] else a2b quad_pos leftchar (pads + 1) cs)
         else a2b quad_pos leftchar pads cs)
      else
        (case b64_value c of
           None \<Rightarrow> a2b quad_pos leftchar pads cs
         | Some v \<Rightarrow>
             (if quad_pos = 0 then a2b 1 v 0 cs
              else if quad_pos = 1 then
                map_option (Cons (of_nat (leftchar * 4 + v div 16))) (a2b 2 (v mod 16) 0 cs)
              else if quad_pos = 2 then
                map_option (Cons (of_nat (leftchar * 16 + v div 4))) (a2b 3 (v mod 4) 0 cs)
              else map_option (Cons (of_nat (leftchar * 64 + v))) (a2b 0 0 0 cs))))"

text \<open>\<open>base64.b64decode(s)\<close> of a string; None is the ValueError (non-ASCII, or binascii.Error).\<close>

definition b64decode :: "string \<Rightarrow> bytes option" where
  "b64decode s = (if \<forall>c \<in> set s. (of_char c :: nat) < 128 then a2b 0 0 0 s else None)"

lemma byte_bound [simp]: "unat (a :: byte) < 256"
  using unsigned_less [of a, where 'a = nat] by simp

lemma of_nat_unat_byte: "(of_nat (unat a) :: byte) = a"
  by simp

lemma sextet_bounds:
  fixes a b c :: byte
  shows "unat a div 4 < 64" "unat a mod 4 * 16 + unat b div 16 < 64"
    "unat b mod 16 * 4 + unat c div 64 < 64" "unat c mod 64 < 64"
    "unat a mod 4 * 16 < 64" "unat b mod 16 * 4 < 64"
  using byte_bound [of a] byte_bound [of b] byte_bound [of c] by linarith+

lemma regroup:
  fixes a b c :: byte
  shows "unat a div 4 * 4 + (unat a mod 4 * 16 + unat b div 16) div 16 = unat a"
    "(unat a mod 4 * 16 + unat b div 16) mod 16 * 16 + (unat b mod 16 * 4 + unat c div 64) div 4 = unat b"
    "(unat b mod 16 * 4 + unat c div 64) mod 4 * 64 + unat c mod 64 = unat c"
    "unat a div 4 * 4 + (unat a mod 4 * 16) div 16 = unat a"
    "(unat a mod 4 * 16 + unat b div 16) mod 16 * 16 + (unat b mod 16 * 4) div 4 = unat b"
proof -
  have "unat b div 16 < 16" "unat c div 64 < 4"
    using byte_bound [of b] byte_bound [of c] by linarith+
  then show
    "unat a div 4 * 4 + (unat a mod 4 * 16 + unat b div 16) div 16 = unat a"
    "(unat a mod 4 * 16 + unat b div 16) mod 16 * 16 + (unat b mod 16 * 4 + unat c div 64) div 4 = unat b"
    "(unat b mod 16 * 4 + unat c div 64) mod 4 * 64 + unat c mod 64 = unat c"
    "unat a div 4 * 4 + (unat a mod 4 * 16) div 16 = unat a"
    "(unat a mod 4 * 16 + unat b div 16) mod 16 * 16 + (unat b mod 16 * 4) div 4 = unat b"
    by simp_all
qed

lemma b64_char_not_pad: "n < 64 \<Longrightarrow> b64_char n \<noteq> CHR ''=''"
  using b64_char_alphabet by blast

text \<open>One character of the alphabet, at each position of its group; the paddings.\<close>

lemma a2b_step:
  assumes "v < 64"
  shows "a2b 0 l p (b64_char v # cs) = a2b 1 v 0 cs"
    "a2b 1 l p (b64_char v # cs) = map_option (Cons (of_nat (l * 4 + v div 16))) (a2b 2 (v mod 16) 0 cs)"
    "a2b 2 l p (b64_char v # cs) = map_option (Cons (of_nat (l * 16 + v div 4))) (a2b 3 (v mod 4) 0 cs)"
    "a2b 3 l p (b64_char v # cs) = map_option (Cons (of_nat (l * 64 + v))) (a2b 0 0 0 cs)"
  using b64_char_not_pad [OF assms] by (simp_all add: assms)

lemma a2b_pad:
  "a2b 2 l 0 (CHR ''='' # CHR ''='' # cs) = Some []" "a2b 3 l 0 (CHR ''='' # cs) = Some []"
  by simp_all

lemma a2b_b64encode: "a2b 0 0 p (b64encode bs) = Some bs"
proof (induction bs arbitrary: p rule: b64encode.induct)
  case (4 a b c rest)
  show ?case
    by (simp only: b64encode.simps Let_def a2b_step sextet_bounds regroup of_nat_unat_byte 4
        option.map)
qed (simp, (simp only: b64encode.simps Let_def a2b_step a2b_pad sextet_bounds regroup of_nat_unat_byte
      option.map)+)

lemma b64_char_ascii: "n < 64 \<Longrightarrow> (of_char (b64_char n) :: nat) < 128"
  by (auto simp: b64_char_def)

lemma b64encode_ascii: "c \<in> set (b64encode bs) \<Longrightarrow> (of_char c :: nat) < 128"
  by (induction bs rule: b64encode.induct) (auto simp: Let_def b64_char_ascii sextet_bounds)

lemma b64decode_b64encode [simp]: "b64decode (b64encode bs) = Some bs"
  using b64encode_ascii [of _ bs] by (auto simp: b64decode_def a2b_b64encode)

lemma b64encode_Nil_iff [simp]: "b64encode bs = [] \<longleftrightarrow> bs = []"
  by (cases bs rule: b64encode.cases) (auto simp: Let_def)

end
