(* ===== verification/Auth.thy ===== *)
theory Auth
  imports Models Base64 Py_Time
begin

text \<open>
  Request signing: \<open>src/fleet_api/middleware/auth.py\<close> (the verifier), the agent lookup of
  \<open>agents/service.py\<close> it works through, and \<open>src/fleet_agent/signing.py\<close> (the signer). Ed25519
  (\<open>cryptography\<close>), SHA-256 and \<open>datetime.fromisoformat\<close> are parameters: \<open>verify\<close> and \<open>sign\<close>
  over raw keys and bytes, \<open>sha256\<close> the hex digest, \<open>fromisoformat\<close> the instant a timestamp names
  (one without an offset is read as UTC, as the verifier does), None for its ValueError.
\<close>

section \<open>The signing string\<close>

definition newline :: char where
  "newline = char_of (10::nat)"

definition signing_text :: "(bytes \<Rightarrow> string) \<Rightarrow> string \<Rightarrow> string \<Rightarrow> string \<Rightarrow> bytes \<Rightarrow> string" where
  "signing_text sha256 method path timestamp body =
     (let body_hash = sha256 body
      in method @ [newline] @ path @ [newline] @ timestamp @ [newline] @ body_hash)"

definition build_signing_string :: "(bytes \<Rightarrow> string) \<Rightarrow> string \<Rightarrow> string \<Rightarrow> string \<Rightarrow> bytes \<Rightarrow> bytes" where
  "build_signing_string sha256 method path timestamp body =
     utf8 (signing_text sha256 method path timestamp body)"

section \<open>Headers\<close>

definition signature_prefix :: string where
  "signature_prefix = ''Signature ''"

text \<open>\<open>parse_authorization_header\<close>; None is the ValueError.\<close>

definition parse_authorization_header :: "string \<Rightarrow> (string \<times> bytes) option" where
  "parse_authorization_header header =
     (if take (length signature_prefix) header \<noteq> signature_prefix then None
      else
        (let payload = drop (length signature_prefix) header
         in if CHR '':'' \<notin> set payload then None
            else
              (let agent_id = takeWhile (\<lambda>c. c \<noteq> CHR '':'') payload;
                   sig_b64 = tl (dropWhile (\<lambda>c. c \<noteq> CHR '':'') payload)
               in if agent_id = [] \<or> sig_b64 = [] then None
                  else map_option (\<lambda>signature. (agent_id, signature)) (b64decode sig_b64))))"

definition REPLAY_WINDOW :: time where
  "REPLAY_WINDOW = seconds 300"

definition validate_timestamp :: "(string \<Rightarrow> time option) \<Rightarrow> time \<Rightarrow> string \<Rightarrow> time option" where
  "validate_timestamp fromisoformat now timestamp_str =
     (case fromisoformat timestamp_str of
        None \<Rightarrow> None
      | Some ts \<Rightarrow> if REPLAY_WINDOW < \<bar>now - ts\<bar> then None else Some ts)"

section \<open>The agent lookup\<close>

text \<open>What a lookup may raise: NotImplementedError of the placeholder, or another exception.\<close>

datatype lookup_error = NotConfigured | LookupCrash exn

definition placeholder_get_key :: "string \<Rightarrow> lookup_error + bytes option" where
  "placeholder_get_key agent_id = Inl NotConfigured"

definition placeholder_is_suspended :: "string \<Rightarrow> lookup_error + bool" where
  "placeholder_is_suspended agent_id = Inl NotConfigured"

text \<open>\<open>Ed25519PublicKey.from_public_bytes\<close> takes 32 bytes; other lengths are a ValueError.\<close>

definition public_key_of :: "string \<Rightarrow> exn + bytes" where
  "public_key_of row =
     (case b64decode row of
        None \<Rightarrow> Inl PythonError
      | Some raw_bytes \<Rightarrow> if length raw_bytes = 32 then Inr raw_bytes else Inl PythonError)"

definition get_agent_public_key :: "db \<Rightarrow> string \<Rightarrow> lookup_error + bytes option" where
  "get_agent_public_key d agent_id =
     (case get_agent d agent_id of
        None \<Rightarrow> Inr None
      | Some agent \<Rightarrow> (case public_key_of (a_public_key agent) of
                         Inl e \<Rightarrow> Inl (LookupCrash e) | Inr k \<Rightarrow> Inr (Some k)))"

definition is_agent_suspended :: "db \<Rightarrow> string \<Rightarrow> lookup_error + bool" where
  "is_agent_suspended d agent_id =
     (case get_agent d agent_id of
        None \<Rightarrow> Inr False
      | Some agent \<Rightarrow> Inr (a_status agent = SUSPENDED))"

section \<open>The dependency\<close>

record request =
  r_method :: string
  r_path :: string
  r_query :: string
  r_authorization :: "string option"
  r_timestamp :: "string option"
  r_body :: bytes

definition unprotected_paths :: "string list" where
  "unprotected_paths = [''/'', ''/manifest'', ''/agents/register'', ''/health'', ''/openapi.json'']"

text \<open>The outcome: no identity on an unprotected path, an identity, or a coded HTTP error.\<close>

datatype auth_outcome =
    Anonymous
  | Authenticated string bytes
  | Denied string int
  | AuthCrash exn

definition signed_path :: "request \<Rightarrow> string" where
  "signed_path request =
     (if r_query request = [] then r_path request else r_path request @ ''?'' @ r_query request)"

definition require_auth ::
    "(string \<Rightarrow> lookup_error + bytes option) \<Rightarrow> (string \<Rightarrow> lookup_error + bool)
       \<Rightarrow> (bytes \<Rightarrow> bytes \<Rightarrow> bytes \<Rightarrow> bool) \<Rightarrow> (bytes \<Rightarrow> string) \<Rightarrow> (string \<Rightarrow> time option) \<Rightarrow> time
       \<Rightarrow> request \<Rightarrow> auth_outcome" where
  "require_auth get_key is_suspended verify sha256 fromisoformat now request =
     (if r_path request \<in> set unprotected_paths then Anonymous
      else
     (case r_authorization request of
        None \<Rightarrow> Denied ''INVALID_SIGNATURE'' 401
      | Some auth_header \<Rightarrow>
     (case parse_authorization_header auth_header of
        None \<Rightarrow> Denied ''INVALID_SIGNATURE'' 401
      | Some (agent_id, signature) \<Rightarrow>
     (case r_timestamp request of
        None \<Rightarrow> Denied ''INVALID_SIGNATURE'' 401
      | Some timestamp_str \<Rightarrow>
     (case validate_timestamp fromisoformat now timestamp_str of
        None \<Rightarrow> Denied ''TIMESTAMP_EXPIRED'' 401
      | Some _ \<Rightarrow>
     (case get_key agent_id of
        Inl NotConfigured \<Rightarrow> Denied ''SERVICE_UNAVAILABLE'' 503
      | Inl (LookupCrash e) \<Rightarrow> AuthCrash e
      | Inr None \<Rightarrow> Denied ''AGENT_NOT_REGISTERED'' 401
      | Inr (Some public_key) \<Rightarrow>
     (case is_suspended agent_id of
        Inl NotConfigured \<Rightarrow> Denied ''SERVICE_UNAVAILABLE'' 503
      | Inl (LookupCrash e) \<Rightarrow> AuthCrash e
      | Inr True \<Rightarrow> Denied ''NOT_AUTHORIZED'' 403
      | Inr False \<Rightarrow>
          (let signing_string = build_signing_string sha256 (r_method request) (signed_path request)
                                  timestamp_str (r_body request)
           in if verify public_key signature signing_string then Authenticated agent_id public_key
              else Denied ''INVALID_SIGNATURE'' 401))))))))"

text \<open>
  What the error middleware answers a denied request with: \<open>auth_error\<close> raises an HTTPException
  whose detail holds the code, and \<open>middleware/errors.py\<close> rewrites every HTTPException but 404 to
  the code \<open>HTTP_<status>\<close>.
\<close>

definition http_exception_code :: "int \<Rightarrow> string" where
  "http_exception_code status = (if status = 404 then code_value ENDPOINT_NOT_FOUND else ''HTTP_'' @ int_str status)"

section \<open>What the dependency needs of a lookup\<close>

text \<open>
  \<open>AgentLookup\<close> as an interface: \<open>registered\<close> says which raw key an agent has registered and
  whether the agent is suspended; the lookup answers accordingly and invents no agent.
\<close>

locale agent_lookup =
  fixes get_key :: "string \<Rightarrow> lookup_error + bytes option"
    and is_suspended :: "string \<Rightarrow> lookup_error + bool"
    and registered :: "string \<Rightarrow> (bytes \<times> bool) option"
  assumes key_iff: "get_key a = Inr (Some k) \<longleftrightarrow> (\<exists>s. registered a = Some (k, s))"
    and suspended_iff: "registered a = Some (k, s) \<Longrightarrow> is_suspended a = Inr s"
begin

text \<open>An identity is granted exactly to a fresh, correctly signed request of an active agent.\<close>

lemma identity_iff:
  "require_auth get_key is_suspended verify sha256 fromisoformat now request = Authenticated a k \<longleftrightarrow>
     r_path request \<notin> set unprotected_paths
     \<and> (\<exists>header signature timestamp ts.
          r_authorization request = Some header
          \<and> parse_authorization_header header = Some (a, signature)
          \<and> r_timestamp request = Some timestamp
          \<and> fromisoformat timestamp = Some ts \<and> \<bar>now - ts\<bar> \<le> REPLAY_WINDOW
          \<and> registered a = Some (k, False)
          \<and> verify k signature (build_signing_string sha256 (r_method request) (signed_path request)
                                 timestamp (r_body request)))"
  (is "?l = ?r")
proof
  assume l: ?l
  then obtain header timestamp signature ts s where r:
      "r_path request \<notin> set unprotected_paths" "r_authorization request = Some header"
      "parse_authorization_header header = Some (a, signature)" "r_timestamp request = Some timestamp"
      "validate_timestamp fromisoformat now timestamp = Some ts" "get_key a = Inr (Some k)"
      "is_suspended a = Inr False"
      "verify k signature (build_signing_string sha256 (r_method request) (signed_path request)
                                 timestamp (r_body request))"
    by (auto simp: require_auth_def Let_def split: option.splits sum.splits bool.splits
        lookup_error.splits if_splits prod.splits)
  from r(6) obtain s where "registered a = Some (k, s)" using key_iff by blast
  moreover from this r(7) have "s = False" using suspended_iff by force
  ultimately show ?r
    using r by (auto simp: validate_timestamp_def split: option.splits if_splits)
next
  assume r: ?r
  then have "registered a = Some (k, False)" by blast
  then have "get_key a = Inr (Some k)" "is_suspended a = Inr False"
    using key_iff suspended_iff by blast+
  then show ?l
    using r by (auto simp: require_auth_def validate_timestamp_def)
qed

end

definition registered_agent :: "db \<Rightarrow> string \<Rightarrow> (bytes \<times> bool) option" where
  "registered_agent d a =
     (case get_agent d a of
        None \<Rightarrow> None
      | Some agent \<Rightarrow> (case public_key_of (a_public_key agent) of
                         Inl e \<Rightarrow> None | Inr k \<Rightarrow> Some (k, a_status agent = SUSPENDED)))"

interpretation db_lookup: agent_lookup "get_agent_public_key d" "is_agent_suspended d" "registered_agent d"
  for d
  by unfold_locales
     (auto simp: get_agent_public_key_def is_agent_suspended_def registered_agent_def
       split: option.splits sum.splits)

section \<open>The signer\<close>

definition sign_request ::
    "('sk \<Rightarrow> bytes \<Rightarrow> bytes) \<Rightarrow> (bytes \<Rightarrow> string) \<Rightarrow> time \<Rightarrow> string \<Rightarrow> string \<Rightarrow> bytes \<Rightarrow> 'sk \<Rightarrow> string
       \<Rightarrow> string \<times> string" where
  "sign_request sign sha256 now method path body private_key agent_id =
     (let timestamp = isoformat now;
          signing_string = utf8 (signing_text sha256 method path timestamp body);
          signature = sign private_key signing_string;
          sig_b64 = b64encode signature
      in (signature_prefix @ agent_id @ '':'' @ sig_b64, timestamp))"

section \<open>Facts\<close>

lemma takeWhile_colon: "CHR '':'' \<notin> set a \<Longrightarrow> takeWhile (\<lambda>c. c \<noteq> CHR '':'') (a @ CHR '':'' # b) = a"
  by (induction a) auto

lemma dropWhile_colon: "CHR '':'' \<notin> set a \<Longrightarrow> dropWhile (\<lambda>c. c \<noteq> CHR '':'') (a @ CHR '':'' # b) = CHR '':'' # b"
  by (induction a) auto

lemma parse_signed_header:
  assumes "CHR '':'' \<notin> set a" and "a \<noteq> []" and "sig \<noteq> []"
  shows "parse_authorization_header (signature_prefix @ a @ '':'' @ b64encode sig) = Some (a, sig)"
  using assms
  by (simp add: parse_authorization_header_def takeWhile_colon dropWhile_colon Let_def)

lemma split_newline:
  assumes "newline \<notin> set a" and "newline \<notin> set b" and "a @ newline # r = b @ newline # s"
  shows "a = b \<and> r = s"
  using assms by (induction a arbitrary: b) (auto simp: Cons_eq_append_conv append_eq_Cons_conv)

lemma signing_text_inj:
  assumes "newline \<notin> set m" "newline \<notin> set m'" "newline \<notin> set p" "newline \<notin> set p'"
    and "newline \<notin> set t" "newline \<notin> set t'"
    and "signing_text sha m p t b = signing_text sha m' p' t' b'"
  shows "m = m' \<and> p = p' \<and> t = t' \<and> sha b = sha b'"
proof -
  have e: "m @ newline # (p @ newline # (t @ newline # sha b))
           = m' @ newline # (p' @ newline # (t' @ newline # sha b'))"
    using assms(7) by (simp add: signing_text_def Let_def)
  note 1 = split_newline [OF assms(1,2) e]
  note 2 = split_newline [OF assms(3,4) conjunct2 [OF 1]]
  note 3 = split_newline [OF assms(5,6) conjunct2 [OF 2]]
  show ?thesis using 1 2 3 by blast
qed

lemma signing_string_inj:
  assumes "newline \<notin> set m" "newline \<notin> set m'" "newline \<notin> set p" "newline \<notin> set p'"
    and "newline \<notin> set t" "newline \<notin> set t'"
    and "build_signing_string sha m p t b = build_signing_string sha m' p' t' b'"
  shows "m = m' \<and> p = p' \<and> t = t' \<and> sha b = sha b'"
  using assms(1-6) utf8_inj [OF assms(7) [unfolded build_signing_string_def]] by (rule signing_text_inj)

lemma signed_granted:
  assumes headers: "sign_request sign sha256 sent method path body sk a = (auth, timestamp)"
    and name: "a \<noteq> []" "CHR '':'' \<notin> set a"
    and scheme: "\<And>m. verify (pk sk) (sign sk m) m" "\<And>m. sign sk m \<noteq> []"
    and clock: "fromisoformat (isoformat sent) = Some sent" "\<bar>now - sent\<bar> \<le> REPLAY_WINDOW"
    and agent: "get_agent d a = Some agent" "a_public_key agent = b64encode (pk sk)" "length (pk sk) = 32"
      "a_status agent \<noteq> SUSPENDED"
    and path: "path \<notin> set unprotected_paths"
  shows "require_auth (get_agent_public_key d) (is_agent_suspended d) verify sha256 fromisoformat now
           \<lparr>r_method = method, r_path = path, r_query = [], r_authorization = Some auth,
            r_timestamp = Some timestamp, r_body = body\<rparr> = Authenticated a (pk sk)"
proof -
  have ts: "timestamp = isoformat sent"
    and auth: "auth = signature_prefix @ a @ '':'' @ b64encode (sign sk (utf8 (signing_text sha256 method path timestamp body)))"
    using headers by (auto simp: sign_request_def Let_def)
  have "parse_authorization_header auth = Some (a, sign sk (utf8 (signing_text sha256 method path timestamp body)))"
    unfolding auth using name scheme(2) by (intro parse_signed_header) auto
  moreover have "public_key_of (a_public_key agent) = Inr (pk sk)"
    using agent by (simp add: public_key_of_def)
  ultimately show ?thesis
    unfolding db_lookup.identity_iff
    using ts clock agent path scheme(1)
    by (auto simp: registered_agent_def signed_path_def build_signing_string_def)
qed

end
