(* ===== verification/Callbacks.thy ===== *)
theory Callbacks
  imports Sidecar_Events Auth
begin

text \<open>
  \<open>src/fleet_api/tasks/callbacks.py\<close>: the payload posted to a task's callback URL, its signature
  (\<open>crypto.sign_callback\<close>), and the delivery loop with its retries. The world's answers are the
  list of what each attempt meets: an HTTP status, or None for an exception of the client. The
  path of the URL (\<open>urlparse(url).path\<close>) is the parameter \<open>url_path\<close>.
\<close>

section \<open>Payload and signature\<close>

definition build_callback_payload :: "task \<Rightarrow> dict" where
  "build_callback_payload task =
     [(''task_id'', JStr (t_id task)),
      (''workflow_id'', JStr (t_workflow_id task)),
      (''status'', JStr (status_value (t_status task))),
      (''result'', t_result task),
      (''completed_at'', jopt_str (iso_opt (t_completed_at task)))]"

definition sign_callback ::
    "(bytes \<Rightarrow> bytes) \<Rightarrow> (bytes \<Rightarrow> string) \<Rightarrow> string \<Rightarrow> string \<Rightarrow> string \<Rightarrow> bytes \<Rightarrow> string" where
  "sign_callback sign sha256 method path timestamp body =
     (let signing_string = utf8 (signing_text sha256 method path timestamp body)
      in b64encode (sign signing_string))"

definition callback_headers ::
    "(bytes \<Rightarrow> bytes) \<Rightarrow> (bytes \<Rightarrow> string) \<Rightarrow> (string \<Rightarrow> string) \<Rightarrow> time \<Rightarrow> string \<Rightarrow> bytes \<Rightarrow> (string \<times> string) list" where
  "callback_headers sign sha256 url_path now callback_url body =
     (let path = (if url_path callback_url = [] then ''/'' else url_path callback_url);
          timestamp = isoformat now;
          signature = sign_callback sign sha256 ''POST'' path timestamp body
      in [(''Content-Type'', ''application/json''),
          (''X-Fleet-Signature'', signature),
          (''X-Fleet-Timestamp'', timestamp),
          (''X-Fleet-Key-Id'', ''fleet-api'')])"

section \<open>Delivery\<close>

definition RETRY_DELAYS :: "int list" where
  "RETRY_DELAYS = [1, 2, 4]"

definition MAX_ATTEMPTS :: nat where
  "MAX_ATTEMPTS = length RETRY_DELAYS + 1"

text \<open>What the loop does to the outside: a POST of the body with the headers, a sleep.\<close>

datatype action = Post bytes "(string \<times> string) list" | Sleep int

text \<open>\<open>for attempt in range(MAX_ATTEMPTS)\<close>, from \<open>attempt\<close> on, with \<open>left\<close> attempts to go.\<close>

fun deliver_loop ::
    "(nat \<Rightarrow> int option) \<Rightarrow> bytes \<Rightarrow> (string \<times> string) list \<Rightarrow> nat \<Rightarrow> nat \<Rightarrow> bool \<times> action list" where
  "deliver_loop respond body headers attempt 0 = (False, [])"
| "deliver_loop respond body headers attempt (Suc left) =
     (let delivered = (case respond attempt of None \<Rightarrow> False | Some code \<Rightarrow> 200 \<le> code \<and> code < 300)
      in if delivered then (True, [Post body headers])
         else
           (let pause = (if attempt < length RETRY_DELAYS then [Sleep (RETRY_DELAYS ! attempt)] else []);
                (ok, acts) = deliver_loop respond body headers (attempt + 1) left
            in (ok, Post body headers # pause @ acts)))"

definition deliver_callback ::
    "(bytes \<Rightarrow> bytes) \<Rightarrow> (bytes \<Rightarrow> string) \<Rightarrow> (string \<Rightarrow> string) \<Rightarrow> time \<Rightarrow> (nat \<Rightarrow> int option) \<Rightarrow> task
       \<Rightarrow> bool \<times> action list" where
  "deliver_callback sign sha256 url_path now respond task =
     (case t_callback_url task of
        None \<Rightarrow> (True, [])
      | Some url \<Rightarrow>
          (let body = utf8 (json_dumps (JObj (build_callback_payload task)));
               headers = callback_headers sign sha256 url_path now url body
           in deliver_loop respond body headers 0 MAX_ATTEMPTS))"

text \<open>\<open>schedule_callback\<close>: whether a background delivery is started.\<close>

definition schedule_callback :: "task \<Rightarrow> bool" where
  "schedule_callback task = (t_callback_url task \<noteq> None)"

section \<open>The loop\<close>

definition success :: "int option \<Rightarrow> bool" where
  "success r = (case r of None \<Rightarrow> False | Some code \<Rightarrow> 200 \<le> code \<and> code < 300)"

lemma deliver_loop_success:
  "fst (deliver_loop respond body headers a n) \<longleftrightarrow> (\<exists>i < n. success (respond (a + i)))"
proof (induction n arbitrary: a)
  case 0
  then show ?case by simp
next
  case (Suc n)
  have "(\<exists>i < Suc n. success (respond (a + i))) \<longleftrightarrow>
        success (respond a) \<or> (\<exists>i < n. success (respond (Suc a + i)))"
    by (auto simp: less_Suc_eq_0_disj)
  then show ?case
    using Suc [of "a + 1"] by (auto simp: Let_def success_def split: option.splits prod.splits)
qed

text \<open>The posts of a run: one per attempt up to and including the first success.\<close>

fun posts :: "action list \<Rightarrow> nat" where
  "posts [] = 0"
| "posts (Post b h # acts) = Suc (posts acts)"
| "posts (Sleep n # acts) = posts acts"

lemma posts_append [simp]: "posts (xs @ ys) = posts xs + posts ys"
  by (induction xs rule: posts.induct) simp_all

lemma posts_pause [simp]: "posts (if c then [Sleep n] else []) = 0"
  by simp

lemma deliver_loop_posts:
  "posts (snd (deliver_loop respond body headers a n)) =
     (case find (\<lambda>i. success (respond (a + i))) [0..<n] of None \<Rightarrow> n | Some i \<Rightarrow> Suc i)"
proof (induction n arbitrary: a)
  case 0
  then show ?case by simp
next
  case (Suc n)
  have shift: "find (\<lambda>i. success (respond (a + i))) (map Suc xs)
               = map_option Suc (find (\<lambda>i. success (respond (a + 1 + i))) xs)" for xs
    by (induction xs) auto
  have "[0..<Suc n] = 0 # map Suc [0..<n]"
    by (simp add: map_Suc_upt upt_conv_Cons)
  then show ?case
    using Suc [of "a + 1"]
    by (auto simp: Let_def success_def shift [unfolded success_def] split: option.splits prod.splits)
qed

lemma deliver_loop_same_body:
  "set (snd (deliver_loop respond body headers a n)) \<subseteq> insert (Post body headers) (range Sleep)"
proof (induction n arbitrary: a)
  case 0
  then show ?case by simp
next
  case (Suc n)
  obtain ok acts where r: "deliver_loop respond body headers (a + 1) n = (ok, acts)" by force
  with Suc [of "a + 1"] have "set acts \<subseteq> insert (Post body headers) (range Sleep)" by simp
  then show ?case using r by (auto simp: Let_def split: option.splits)
qed

end
