(* ===== verification/Agents.thy ===== *)
theory Agents
  imports Contract Base64
begin

text \<open>
  \<open>src/fleet_api/agents\<close>: the registration request and its validators (\<open>schemas.py\<close>), the
  registration, heartbeat and profile endpoints (\<open>routes.py\<close>, \<open>service.py\<close>), and the sweep of the
  heartbeat monitor (\<open>heartbeat_monitor.py\<close>). The locale \<open>registry_operation\<close> is the contract of
  every operation on agents and workflows: it leaves tasks and events alone.
\<close>

section \<open>Writing agents and workflows\<close>

definition agent_row_ok :: "agent \<Rightarrow> bool" where
  "agent_row_ok a = (length (a_id a) \<le> 128 \<and> max_len 256 (a_display_name a))"

definition workflow_row_ok :: "workflow \<Rightarrow> bool" where
  "workflow_row_ok w =
     (length (w_id w) \<le> 128 \<and> length (w_name w) \<le> 256
      \<and> (case w_timeout_seconds w of None \<Rightarrow> True | Some n \<Rightarrow> int4 n)
      \<and> int4 (w_result_retention_days w))"

text \<open>The commit of a transaction that changed the database to \<open>d'\<close>.\<close>

definition commit_rows :: "db \<Rightarrow> db option" where
  "commit_rows d' =
     (if constraints_ok d' \<and> (\<forall>a \<in> set (db_agents d'). agent_row_ok a)
         \<and> (\<forall>w \<in> set (db_workflows d'). workflow_row_ok w)
      then Some d' else None)"

definition write_rows :: "'a \<Rightarrow> db \<Rightarrow> db \<Rightarrow> (exn + 'a) \<times> db" where
  "write_rows x d' d = (case commit_rows d' of None \<Rightarrow> (Inl DatabaseError, d) | Some d'' \<Rightarrow> (Inr x, d''))"

section \<open>Validation of a registration\<close>

definition alnum :: "char \<Rightarrow> bool" where
  "alnum c = (let n = of_char c :: nat
              in 97 \<le> n \<and> n \<le> 122 \<or> 65 \<le> n \<and> n \<le> 90 \<or> 48 \<le> n \<and> n \<le> 57)"

text \<open>
  \<open>re.match\<close> of \<open>^[a-zA-Z0-9][a-zA-Z0-9\-]*$\<close>: \<open>$\<close> also matches before a newline that ends the
  string.
\<close>

definition without_final_newline :: "string \<Rightarrow> string" where
  "without_final_newline s = (if s \<noteq> [] \<and> last s = char_of (10::nat) then butlast s else s)"

definition slug :: "string \<Rightarrow> bool" where
  "slug s = (s \<noteq> [] \<and> alnum (hd s) \<and> (\<forall>c \<in> set s. alnum c \<or> c = CHR ''-''))"

definition agent_id_pattern :: "string \<Rightarrow> bool" where
  "agent_id_pattern s = slug (without_final_newline s)"

definition validate_agent_id :: "string \<Rightarrow> bool" where
  "validate_agent_id v = (v \<noteq> [] \<and> py_strip v \<noteq> [] \<and> length v \<le> 128 \<and> agent_id_pattern v)"

definition validate_public_key :: "string \<Rightarrow> bool" where
  "validate_public_key v =
     (v \<noteq> [] \<and> py_strip v \<noteq> []
      \<and> (case b64decode v of None \<Rightarrow> False | Some decoded \<Rightarrow> length decoded = 32))"

section \<open>Registration\<close>

record register_request =
  rr_agent_id :: string
  rr_display_name :: "string option"
  rr_public_key :: string
  rr_capabilities :: "string list option"
  rr_endpoint :: "string option"

text \<open>\<open>AgentService.register_agent\<close>, on a request that passed the checks of the endpoint.\<close>

definition new_agent :: "env \<Rightarrow> register_request \<Rightarrow> agent" where
  "new_agent env body =
     \<lparr>a_id = rr_agent_id body, a_display_name = rr_display_name body,
      a_public_key = rr_public_key body, a_capabilities = rr_capabilities body,
      a_status = REGISTERED, a_last_heartbeat = None, a_registered_at = env_now env,
      a_metadata = (case rr_endpoint body of
                      None \<Rightarrow> None
                    | Some e \<Rightarrow> if e = [] then None else Some [(''endpoint'', JStr e)])\<rparr>"

text \<open>The endpoint; the flag tells a 201 from the 200 of a repeated registration.\<close>

definition register_agent :: "env \<Rightarrow> register_request \<Rightarrow> db \<Rightarrow> (exn + agent \<times> bool) \<times> db" where [op_defs]:
  "register_agent env body d =
     (if \<not> (validate_agent_id (rr_agent_id body) \<and> validate_public_key (rr_public_key body))
      then (Inl (Fleet INVALID_INPUT), d)
      else
     (case get_agent d (rr_agent_id body) of
        Some existing \<Rightarrow>
          if a_public_key existing = rr_public_key body then (Inr (existing, False), d)
          else (Inl (Fleet AGENT_EXISTS), d)
      | None \<Rightarrow>
          (let agent = new_agent env body
           in write_rows (agent, True) (d\<lparr>db_agents := db_agents d @ [agent]\<rparr>) d)))"

section \<open>Heartbeats\<close>

definition beat :: "time \<Rightarrow> agent \<Rightarrow> agent" where
  "beat now agent =
     (let agent = agent\<lparr>a_last_heartbeat := Some now\<rparr>
      in if a_status agent \<in> {REGISTERED, UNREACHABLE} then agent\<lparr>a_status := ACTIVE\<rparr> else agent)"

definition heartbeat :: "env \<Rightarrow> string \<Rightarrow> string \<Rightarrow> db \<Rightarrow> (exn + agent) \<times> db" where [op_defs]:
  "heartbeat env auth_agent_id agent_id d =
     (if auth_agent_id \<noteq> agent_id then (Inl (Fleet NOT_AUTHORIZED), d)
      else
     (case get_agent d agent_id of
        None \<Rightarrow> (Inl (Fleet ENDPOINT_NOT_FOUND), d)
      | Some agent \<Rightarrow>
          write_rows (beat (env_now env) agent)
            (d\<lparr>db_agents := row_upd a_id agent_id (beat (env_now env)) (db_agents d)\<rparr>) d))"

section \<open>The monitor\<close>

text \<open>A sweep reads the stale agents and then updates them by id; other requests may run between.\<close>

definition sweep_select :: "time \<Rightarrow> int \<Rightarrow> db \<Rightarrow> string list" where
  "sweep_select now timeout_seconds d =
     (let cutoff = now - seconds timeout_seconds
      in map a_id (filter (\<lambda>a. a_status a = ACTIVE
           \<and> (case a_last_heartbeat a of None \<Rightarrow> False | Some h \<Rightarrow> h < cutoff)) (db_agents d)))"

definition mark_unreachable :: "string list \<Rightarrow> agent \<Rightarrow> agent" where
  "mark_unreachable stale_ids a =
     (if a_id a \<in> set stale_ids \<and> a_status a = ACTIVE then a\<lparr>a_status := UNREACHABLE\<rparr> else a)"

definition sweep_update :: "string list \<Rightarrow> db \<Rightarrow> (exn + unit) \<times> db" where [op_defs]:
  "sweep_update stale_ids d =
     (if stale_ids = [] then (Inr (), d)
      else write_rows () (d\<lparr>db_agents := map (mark_unreachable stale_ids) (db_agents d)\<rparr>) d)"

definition sweep :: "time \<Rightarrow> int \<Rightarrow> db \<Rightarrow> (exn + unit) \<times> db" where
  "sweep now timeout_seconds d = sweep_update (sweep_select now timeout_seconds d) d"

text \<open>
  The loop of the monitor, over the times of its sweeps; before each of them other requests have turned
  the database into what \<open>between\<close> makes of it. A sweep that fails is logged and the loop goes on.
\<close>

fun heartbeat_monitor :: "int \<Rightarrow> ((db \<Rightarrow> db) \<times> time) list \<Rightarrow> db \<Rightarrow> db" where
  "heartbeat_monitor timeout_seconds [] d = d"
| "heartbeat_monitor timeout_seconds ((between, now) # rounds) d =
     heartbeat_monitor timeout_seconds rounds (snd (sweep now timeout_seconds (between d)))"

text \<open>The application starts it with its settings.\<close>

definition lifespan :: "settings \<Rightarrow> ((db \<Rightarrow> db) \<times> time) list \<Rightarrow> db \<Rightarrow> db" where
  "lifespan cfg rounds d = heartbeat_monitor (fleet_heartbeat_timeout_seconds cfg) rounds d"

section \<open>The contract\<close>

locale registry_operation =
  fixes opr :: "db \<Rightarrow> (exn + 'a) \<times> db"
  assumes tasks_kept: "db_tasks (snd (opr d)) = db_tasks d"
    and log_kept: "db_events (snd (opr d)) = db_events d"
    and committed: "snd (opr d) = d \<or> constraints_ok (snd (opr d))"
    and failed: "fst (opr d) = Inl e \<Longrightarrow> snd (opr d) = d"
begin

lemma get_task_kept: "get_task (snd (opr d)) k = get_task d k"
  by (simp add: get_task_def tasks_kept)

lemma task_events_kept: "task_events (snd (opr d)) k = task_events d k"
  by (simp add: task_events_def log_kept)

lemma keeps_inv: "db_inv mx d \<Longrightarrow> db_inv mx (snd (opr d))"
  using committed [of d]
  by (auto simp: db_inv_def lineage_inv_def log_inv_def get_task_kept task_events_kept tasks_kept log_kept
      cong: option.case_cong)

end

lemma write_rows_cases:
  "write_rows x d' d = (Inl DatabaseError, d) \<or> write_rows x d' d = (Inr x, d') \<and> constraints_ok d'"
  by (auto simp: write_rows_def commit_rows_def)

text \<open>An operation that answers without writing, or writes rows of agents and workflows only.\<close>

definition registry_outcome :: "db \<Rightarrow> (exn + 'a) \<times> db \<Rightarrow> bool" where
  "registry_outcome d r =
     (snd r = d \<or> (\<exists>x d'. r = write_rows x d' d \<and> db_tasks d' = db_tasks d \<and> db_events d' = db_events d))"

lemma registry_outcomeI [simp, intro]:
  "registry_outcome d (r, d)"
  "db_tasks d' = db_tasks d \<Longrightarrow> db_events d' = db_events d \<Longrightarrow> registry_outcome d (write_rows x d' d)"
  by (auto simp: registry_outcome_def)

lemma registry_operationI:
  assumes "\<And>d. registry_outcome d (opr d)"
  shows "registry_operation opr"
proof
  fix d
  note o = assms [of d, unfolded registry_outcome_def]
  show "db_tasks (snd (opr d)) = db_tasks d" "db_events (snd (opr d)) = db_events d"
    "snd (opr d) = d \<or> constraints_ok (snd (opr d))"
    using o write_rows_cases by (metis snd_conv)+
  show "snd (opr d) = d" if "fst (opr d) = Inl e" for e
    using o that write_rows_cases by (metis fst_conv snd_conv sum.distinct(1))
qed

interpretation register_op: registry_operation "register_agent env body"
  for env body
  by (rule registry_operationI)
     (auto simp: register_agent_def Let_def split: option.splits)

interpretation heartbeat_op: registry_operation "heartbeat env auth agent"
  for env auth agent
  by (rule registry_operationI)
     (auto simp: heartbeat_def split: option.splits)

interpretation sweep_op: registry_operation "sweep_update ids"
  for ids
  by (rule registry_operationI)
     (auto simp: sweep_update_def split: option.splits)

end
