(* ===== verification/Workflows.thy ===== *)
theory Workflows
  imports Agents
begin

text \<open>
  \<open>src/fleet_api/workflows/service.py\<close>: creating, reading, listing and updating workflows.
\<close>

section \<open>Validation\<close>

text \<open>\<open>WORKFLOW_ID_PATTERN\<close>: as for agents, and at most 128 characters before the final newline.\<close>

definition workflow_id_pattern :: "string \<Rightarrow> bool" where
  "workflow_id_pattern s =
     (let core = without_final_newline s in slug core \<and> length core \<le> 128)"

definition validate_workflow_id :: "string \<Rightarrow> bool" where
  "validate_workflow_id workflow_id = (workflow_id \<noteq> [] \<and> workflow_id_pattern workflow_id)"

definition validate_json_schema_field :: "dict option \<Rightarrow> bool" where
  "validate_json_schema_field schema =
     (case schema of None \<Rightarrow> True | Some d \<Rightarrow> dict_has d ''type'')"

definition workflow_status_of_value :: "string \<Rightarrow> workflow_status option" where
  "workflow_status_of_value v = find (\<lambda>s. workflow_status_value s = v) [WF_ACTIVE, WF_DEPRECATED]"

section \<open>Creating\<close>

record workflow_fields =
  wf_name :: string
  wf_description :: "string option"
  wf_tags :: "string list option"
  wf_input_schema :: "dict option"
  wf_output_schema :: "dict option"
  wf_timeout_seconds :: "int option"
  wf_result_retention_days :: int

definition create_workflow ::
    "env \<Rightarrow> string \<Rightarrow> string \<Rightarrow> workflow_fields \<Rightarrow> db \<Rightarrow> (exn + workflow) \<times> db" where [op_defs]:
  "create_workflow env workflow_id owner_agent_id f d =
     (if \<not> validate_workflow_id workflow_id then (Inl (Fleet INVALID_INPUT), d)
      else if \<not> validate_json_schema_field (wf_input_schema f) then (Inl (Fleet INVALID_INPUT), d)
      else if \<not> validate_json_schema_field (wf_output_schema f) then (Inl (Fleet INVALID_INPUT), d)
      else
     (case get_workflow d workflow_id of
        Some existing \<Rightarrow>
          if w_owner existing \<noteq> owner_agent_id then (Inl (Fleet WORKFLOW_EXISTS), d)
          else (Inr existing, d)
      | None \<Rightarrow>
          (let workflow = \<lparr>w_id = workflow_id, w_name = wf_name f, w_owner = owner_agent_id,
                 w_description = wf_description f, w_input_schema = wf_input_schema f,
                 w_output_schema = wf_output_schema f, w_estimated_duration = None,
                 w_timeout_seconds = wf_timeout_seconds f,
                 w_result_retention_days = wf_result_retention_days f, w_status = WF_ACTIVE,
                 w_tags = wf_tags f, w_created_at = env_now env, w_updated_at = None\<rparr>
           in write_rows workflow (d\<lparr>db_workflows := db_workflows d @ [workflow]\<rparr>) d)))"

section \<open>Reading\<close>

definition executor_status :: "db \<Rightarrow> workflow \<Rightarrow> string option" where
  "executor_status d w = map_option (\<lambda>a. agent_status_value (a_status a)) (get_agent d (w_owner w))"

definition get_workflow_with_executor_status :: "db \<Rightarrow> string \<Rightarrow> exn + workflow \<times> string option" where
  "get_workflow_with_executor_status d workflow_id =
     (case get_workflow d workflow_id of
        None \<Rightarrow> Inl (Fleet WORKFLOW_NOT_FOUND)
      | Some workflow \<Rightarrow> Inr (workflow, executor_status d workflow))"

text \<open>The listing; a cursor is the workflow id it encodes, \<open>tags @> '["t"]'\<close> is membership.\<close>

definition workflow_matches :: "workflow_status \<Rightarrow> string option \<Rightarrow> string option \<Rightarrow> workflow \<Rightarrow> bool" where
  "workflow_matches st owner tag w =
     (w_status w = st
      \<and> (case owner of None \<Rightarrow> True | Some x \<Rightarrow> w_owner w = x)
      \<and> (case tag of None \<Rightarrow> True
          | Some t \<Rightarrow> (case w_tags w of None \<Rightarrow> False | Some ts \<Rightarrow> t \<in> set ts)))"

definition list_workflows ::
    "db \<Rightarrow> string option \<Rightarrow> string option \<Rightarrow> string option \<Rightarrow> nat \<Rightarrow> string option
       \<Rightarrow> exn + (workflow \<times> string option) list \<times> string option \<times> bool \<times> nat" where
  "list_workflows d status owner tag limit cursor =
     (case (case status of None \<Rightarrow> Some WF_ACTIVE | Some s \<Rightarrow> workflow_status_of_value s) of
        None \<Rightarrow> Inl (Fleet INVALID_INPUT)
      | Some st \<Rightarrow>
          (let matching = sort_key w_id (filter (workflow_matches st owner tag) (db_workflows d));
               total_count = length matching;
               rows = (case cursor of None \<Rightarrow> matching | Some c \<Rightarrow> filter (\<lambda>w. c < w_id w) matching);
               rows = take (limit + 1) rows;
               has_more = limit < length rows;
               rows = (if has_more then take limit rows else rows);
               items = map (\<lambda>w. (w, executor_status d w)) rows;
               next_cursor = (if has_more \<and> items \<noteq> [] then Some (w_id (fst (last items))) else None)
           in Inr (items, next_cursor, has_more, total_count)))"

section \<open>Updating\<close>

text \<open>The body of a PUT: a field is None when it was not provided, Some None when it was null.\<close>

record workflow_changes =
  ch_name :: "string option option"
  ch_description :: "string option option"
  ch_tags :: "string list option option"
  ch_input_schema :: "dict option option"
  ch_output_schema :: "dict option option"
  ch_timeout_seconds :: "int option option"
  ch_result_retention_days :: "int option option"
  ch_status :: "string option option"

definition set_if :: "'v option \<Rightarrow> ('v \<Rightarrow> 'w \<Rightarrow> 'w) \<Rightarrow> 'w \<Rightarrow> 'w" where
  "set_if x f w = (case x of None \<Rightarrow> w | Some v \<Rightarrow> f v w)"

definition set_if_some :: "'v option option \<Rightarrow> ('v \<Rightarrow> 'w \<Rightarrow> 'w) \<Rightarrow> 'w \<Rightarrow> 'w" where
  "set_if_some x f w = (case x of Some (Some v) \<Rightarrow> f v w | _ \<Rightarrow> w)"

definition change_workflow :: "workflow_changes \<Rightarrow> workflow \<Rightarrow> exn + workflow" where
  "change_workflow c w =
     (let w = set_if_some (ch_name c) (\<lambda>v w. w\<lparr>w_name := v\<rparr>) w;
          w = set_if (ch_description c) (\<lambda>v w. w\<lparr>w_description := v\<rparr>) w;
          w = set_if (ch_tags c) (\<lambda>v w. w\<lparr>w_tags := v\<rparr>) w
      in if (case ch_input_schema c of None \<Rightarrow> False | Some s \<Rightarrow> \<not> validate_json_schema_field s)
         then Inl (Fleet INVALID_INPUT)
         else
      (let w = set_if (ch_input_schema c) (\<lambda>v w. w\<lparr>w_input_schema := v\<rparr>) w
       in if (case ch_output_schema c of None \<Rightarrow> False | Some s \<Rightarrow> \<not> validate_json_schema_field s)
          then Inl (Fleet INVALID_INPUT)
          else
       (let w = set_if (ch_output_schema c) (\<lambda>v w. w\<lparr>w_output_schema := v\<rparr>) w;
            w = set_if (ch_timeout_seconds c) (\<lambda>v w. w\<lparr>w_timeout_seconds := v\<rparr>) w;
            w = set_if_some (ch_result_retention_days c) (\<lambda>v w. w\<lparr>w_result_retention_days := v\<rparr>) w
        in case ch_status c of
             Some (Some s) \<Rightarrow>
               (case workflow_status_of_value s of
                  None \<Rightarrow> Inl (Fleet INVALID_INPUT)
                | Some st \<Rightarrow> Inr (w\<lparr>w_status := st\<rparr>))
           | _ \<Rightarrow> Inr w)))"

definition update_workflow ::
    "env \<Rightarrow> string \<Rightarrow> string \<Rightarrow> workflow_changes \<Rightarrow> db \<Rightarrow> (exn + workflow) \<times> db" where [op_defs]:
  "update_workflow env workflow_id caller_agent_id changes d =
     (case get_workflow d workflow_id of
        None \<Rightarrow> (Inl (Fleet WORKFLOW_NOT_FOUND), d)
      | Some workflow \<Rightarrow>
     if w_owner workflow \<noteq> caller_agent_id then (Inl (Fleet NOT_AUTHORIZED), d)
     else
     (case change_workflow changes workflow of
        Inl e \<Rightarrow> (Inl e, d)
      | Inr w \<Rightarrow>
          (let w = w\<lparr>w_updated_at := Some (env_now env)\<rparr>
           in write_rows w (d\<lparr>db_workflows := row_upd w_id workflow_id (\<lambda>_. w) (db_workflows d)\<rparr>) d)))"

section \<open>The contract\<close>

interpretation create_workflow_op: registry_operation "create_workflow env wid owner f"
  for env wid owner f
  by (rule registry_operationI)
     (auto simp: create_workflow_def Let_def split: option.splits)

interpretation update_workflow_op: registry_operation "update_workflow env wid caller ch"
  for env wid caller ch
  by (rule registry_operationI)
     (auto simp: update_workflow_def Let_def split: option.splits sum.splits)

text \<open>A change never touches the id, the owner or the creation time.\<close>

definition workflow_identity :: "workflow \<Rightarrow> string \<times> string \<times> time" where
  "workflow_identity w = (w_id w, w_owner w, w_created_at w)"

lemma workflow_identity_upd [simp]:
  "workflow_identity (w\<lparr>w_name := v0\<rparr>) = workflow_identity w"
  "workflow_identity (w\<lparr>w_description := v1\<rparr>) = workflow_identity w"
  "workflow_identity (w\<lparr>w_tags := v2\<rparr>) = workflow_identity w"
  "workflow_identity (w\<lparr>w_input_schema := v3\<rparr>) = workflow_identity w"
  "workflow_identity (w\<lparr>w_output_schema := v4\<rparr>) = workflow_identity w"
  "workflow_identity (w\<lparr>w_timeout_seconds := v5\<rparr>) = workflow_identity w"
  "workflow_identity (w\<lparr>w_result_retention_days := v6\<rparr>) = workflow_identity w"
  "workflow_identity (w\<lparr>w_status := v7\<rparr>) = workflow_identity w"
  "workflow_identity (w\<lparr>w_updated_at := v8\<rparr>) = workflow_identity w"
  by (simp_all add: workflow_identity_def)

lemma set_if_identity:
  assumes "\<And>v w. workflow_identity (f v w) = workflow_identity w"
  shows "workflow_identity (set_if x f w) = workflow_identity w"
    and "workflow_identity (set_if_some y f w) = workflow_identity w"
  using assms by (auto simp: set_if_def set_if_some_def split: option.splits)

lemma change_workflow_identity:
  assumes "change_workflow c w = Inr w'"
  shows "workflow_identity w' = workflow_identity w"
  using assms unfolding change_workflow_def Let_def
  by (auto split: option.splits if_splits simp: set_if_identity)

end
