(* ===== verification/System.thy ===== *)
theory System
  imports Responses Sse Callbacks Workflows
begin

text \<open>
  The server as a transition system: every call of the API that can write, run on the database it
  finds, in any order, by any caller, with any clock readings and uuids. The settings are those of
  one deployment. The locale \<open>invariant_system\<close> carries an invariant and a monotone relation to
  all reachable databases; it is interpreted on this system.

  A call runs here as one step (its reads and its commit see the same database); the section on
  overlapping calls drops this and looks at a commit on a database that has moved on.
\<close>

section \<open>Calls\<close>

datatype call =
    RegisterAgent register_request
  | Heartbeat string string
  | Sweep "string list"
  | CreateWorkflow string string workflow_fields
  | UpdateWorkflow string string workflow_changes
  | CreateTask string string dict "string option" string "int option" "string option" "dict option" "string option"
  | CancelTask string string string "string option"
  | RetaskTask string string string dict "string option" "string option"
  | RedirectTask string string string string dict bool "string option" "string option"
  | PauseTask string string string "string option"
  | ResumeTask string string string "string option"
  | InjectContext string string string string dict int string
  | SidecarEvent string string dict int string

text \<open>The database after a call.\<close>

fun handle :: "(dict \<Rightarrow> dict \<Rightarrow> schema_outcome) \<Rightarrow> env \<Rightarrow> call \<Rightarrow> db \<Rightarrow> db" where
  "handle validate env (RegisterAgent body) d = snd (register_agent env body d)"
| "handle validate env (Heartbeat auth agent) d = snd (heartbeat env auth agent d)"
| "handle validate env (Sweep ids) d = snd (sweep_update ids d)"
| "handle validate env (CreateWorkflow wid owner f) d = snd (create_workflow env wid owner f d)"
| "handle validate env (UpdateWorkflow wid caller ch) d = snd (update_workflow env wid caller ch d)"
| "handle validate env (CreateTask wid caller inp ex prio to key md cb) d =
     snd (run_tx (create_task validate env wid caller inp ex prio to key md cb d) d)"
| "handle validate env (CancelTask wid tid caller reason) d =
     snd (run_tx (cancel_task env wid tid caller reason d) d)"
| "handle validate env (RetaskTask wid tid caller refinement prio key) d =
     snd (run_tx (retask_task env wid tid caller refinement prio key d) d)"
| "handle validate env (RedirectTask wid tid caller reason inp inh prio key) d =
     snd (run_tx (redirect_task env wid tid caller reason inp inh prio key d) d)"
| "handle validate env (PauseTask wid tid caller reason) d =
     snd (run_tx (pause_task env wid tid caller reason d) d)"
| "handle validate env (ResumeTask wid tid caller prio) d =
     snd (run_tx (resume_task env wid tid caller prio d) d)"
| "handle validate env (InjectContext wid tid caller ct payload sq urg) d =
     snd (run_tx (inject_context env wid tid caller ct payload sq urg d) d)"
| "handle validate env (SidecarEvent tid ty data sq ex) d =
     snd (run_tx (process_sidecar_event env tid ty data sq ex d) d)"

inductive server_step :: "settings \<Rightarrow> db \<Rightarrow> db \<Rightarrow> bool" for cfg where
  call: "env_settings env = cfg \<Longrightarrow> server_step cfg d (handle validate env c d)"

inductive_cases server_stepE: "server_step cfg d d'"

section \<open>Invariants of transition systems\<close>

locale invariant_system =
  fixes init :: "'s" and step :: "'s \<Rightarrow> 's \<Rightarrow> bool" and inv :: "'s \<Rightarrow> bool"
    and below :: "'s \<Rightarrow> 's \<Rightarrow> bool"
  assumes init_inv: "inv init"
    and step_inv: "inv s \<Longrightarrow> step s s' \<Longrightarrow> inv s'"
    and step_below: "inv s \<Longrightarrow> step s s' \<Longrightarrow> below s s'"
    and below_refl: "below s s"
    and below_trans: "below s s' \<Longrightarrow> below s' s'' \<Longrightarrow> below s s''"
begin

lemma steps_inv: "step\<^sup>*\<^sup>* s s' \<Longrightarrow> inv s \<Longrightarrow> inv s'"
  by (induction rule: rtranclp_induct) (auto intro: step_inv)

lemma run_keeps_inv: "step\<^sup>*\<^sup>* init s \<Longrightarrow> inv s"
  using steps_inv init_inv by blast

lemma steps_below: "step\<^sup>*\<^sup>* s s' \<Longrightarrow> inv s \<Longrightarrow> below s s'"
proof (induction rule: rtranclp_induct)
  case base
  show ?case by (rule below_refl)
next
  case (step t u)
  then show ?case using below_trans step_below steps_inv by blast
qed

end

section \<open>The history of the database\<close>

text \<open>Seconds later: every task is still there with its identity and its status moved along the
  table, and every log is continued.\<close>

definition later :: "db \<Rightarrow> db \<Rightarrow> bool" where
  "later d d' =
     ((\<forall>k t. get_task d k = Some t \<longrightarrow>
         (\<exists>t'. get_task d' k = Some t' \<and> same_identity t t' \<and> status_steps (t_status t) (t_status t')))
      \<and> (\<forall>k. prefix (task_events d k) (task_events d' k)))"

lemma later_refl: "later d d"
  by (auto simp: later_def)

lemma later_trans:
  assumes "later d d'" and "later d' d''"
  shows "later d d''"
proof -
  have "\<exists>t''. get_task d'' k = Some t'' \<and> same_identity t t'' \<and> status_steps (t_status t) (t_status t'')"
    if "get_task d k = Some t" for k t
  proof -
    obtain t' where t': "get_task d' k = Some t'" "same_identity t t'" "status_steps (t_status t) (t_status t')"
      using assms(1) \<open>get_task d k = Some t\<close> unfolding later_def by blast
    obtain t'' where "get_task d'' k = Some t''" "same_identity t' t''" "status_steps (t_status t') (t_status t'')"
      using assms(2) t'(1) unfolding later_def by blast
    then show ?thesis using t' same_identity_trans by (meson rtranclp_trans)
  qed
  moreover have "prefix (task_events d k) (task_events d'' k)" for k
    using assms prefix_order.trans unfolding later_def by metis
  ultimately show ?thesis by (auto simp: later_def)
qed

context task_operation begin

lemma run_later:
  assumes "db_inv mx d"
  shows "later d (snd (run_tx (opr d) d))"
proof -
  have "\<exists>t'. get_task (snd (run_tx (opr d) d)) k = Some t' \<and> same_identity t t'
             \<and> status_steps (t_status t) (t_status t')" if "get_task d k = Some t" for k t
    using run_evolves [OF assms that] evolves_identity evolves_steps by blast
  moreover have "prefix (task_events d k) (task_events (snd (run_tx (opr d) d)) k)" for k
    using run_task_events [OF assms, of k] by auto
  ultimately show ?thesis by (auto simp: later_def)
qed

end

context registry_operation begin

lemma run_later: "later d (snd (opr d))"
  by (auto simp: later_def get_task_kept task_events_kept)

end

lemma handle_contract:
  assumes "db_inv (fleet_lineage_max_depth (env_settings env)) d"
  shows "db_inv (fleet_lineage_max_depth (env_settings env)) (handle validate env c d)
         \<and> later d (handle validate env c d)"
  using assms
  by (cases c)
     (simp_all only: handle.simps,
      (blast intro: register_op.keeps_inv register_op.run_later heartbeat_op.keeps_inv heartbeat_op.run_later
        sweep_op.keeps_inv sweep_op.run_later create_workflow_op.keeps_inv create_workflow_op.run_later
        update_workflow_op.keeps_inv update_workflow_op.run_later create_op.run_inv create_op.run_later
        cancel_op.run_inv cancel_op.run_later retask_op.run_inv retask_op.run_later
        redirect_op.run_inv redirect_op.run_later pause_op.run_inv pause_op.run_later
        resume_op.run_inv resume_op.run_later inject_op.run_inv inject_op.run_later
        sidecar_op.run_inv sidecar_op.run_later)+)

interpretation server: invariant_system empty_db "server_step cfg"
    "db_inv (fleet_lineage_max_depth cfg)" later
  for cfg
proof
  show "db_inv (fleet_lineage_max_depth cfg) empty_db" by (rule empty_db_inv)
  show "db_inv (fleet_lineage_max_depth cfg) d'" and "later d d'"
    if "db_inv (fleet_lineage_max_depth cfg) d" "server_step cfg d d'" for d d'
    using that handle_contract by (auto elim!: server_stepE)
qed (auto intro: later_refl later_trans)

definition reachable :: "settings \<Rightarrow> db \<Rightarrow> bool" where
  "reachable cfg d = (server_step cfg)\<^sup>*\<^sup>* empty_db d"

lemma reachable_inv: "reachable cfg d \<Longrightarrow> db_inv (fleet_lineage_max_depth cfg) d"
  unfolding reachable_def by (rule server.run_keeps_inv)

lemma reachable_later: "reachable cfg d \<Longrightarrow> (server_step cfg)\<^sup>*\<^sup>* d d' \<Longrightarrow> later d d'"
  using reachable_inv server.steps_below by blast

end
