(* ===== verification/Outcomes.thy ===== *)
theory Outcomes
  imports System
begin

text \<open>
  What a client observes of a transaction: the answer of \<open>run_tx\<close> and the rows after it, for the
  two shapes of work the task operations commit, an update of one task with one event, and an
  update with a successor task.
\<close>

lemma run_tx_Commit: "commit uw d = Some d' \<Longrightarrow> run_tx (Commit uw r) d = (Inr (r d'), d')"
  by simp

lemma refresh_task_get: "get_task d (t_id t) = Some t \<Longrightarrow> refresh_task t d = t"
  by (simp add: refresh_task_def)

lemma task_events_apply: "task_events (apply_work uw d) k = task_events d k
    @ filter (\<lambda>e. e_task_id e = k) (number_events (db_next_event_id d) (uw_events uw))"
  by (simp add: task_events_def)

lemma find_append:
  "find P (xs @ ys) = (case find P xs of None \<Rightarrow> find P ys | Some x \<Rightarrow> Some x)"
  by (induction xs) auto

section \<open>One task and one event\<close>

lemma update_commit:
  assumes inv: "db_inv mx d" and t: "get_task d tid = Some t" and id: "same_identity t t'"
    and e: "e_task_id e = tid" "length (e_type e) \<le> 64" "e_sequence e = max_sequence d tid + 1"
    and left: "sequence_left d tid"
    and uw: "uw = \<lparr>uw_update = Some (t, t'), uw_tasks = [], uw_events = [e]\<rparr>"
  shows "commit uw d = Some (apply_work uw d)"
    and "get_task (apply_work uw d) tid = Some t'"
    and "refresh_task t' (apply_work uw d) = t'"
    and "task_events (apply_work uw d) tid = task_events d tid @ [e\<lparr>e_id := db_next_event_id d\<rparr>]"
    and "refresh_event e (apply_work uw d) = e\<lparr>e_id := db_next_event_id d\<rparr>"
proof -
  have idt: "t_id t = tid" "t_id t' = tid" using get_taskD [OF t] id by (auto simp: same_identity_def)
  show c: "commit uw d = Some (apply_work uw d)"
    unfolding uw
    using inv t e next_sequence_int4 [OF inv left]
    by (intro commit_one_event) (auto simp: db_inv_constraints)
  show g: "get_task (apply_work uw d) tid = Some t'"
    using commit_get_task [OF c t] id idt by (simp add: uw)
  show "refresh_task t' (apply_work uw d) = t'" using g idt by (simp add: refresh_task_get)
  show "task_events (apply_work uw d) tid = task_events d tid @ [e\<lparr>e_id := db_next_event_id d\<rparr>]"
    using e by (simp add: task_events_apply uw)
  have "event_key e \<notin> event_key ` set (db_events d)"
    using fresh_sequence [of d tid "e_sequence e"] e by (simp add: event_key_def)
  then have "find (\<lambda>r. event_key r = event_key e) (db_events d) = None"
    by (auto simp: find_None_iff image_iff)
  then show "refresh_event e (apply_work uw d) = e\<lparr>e_id := db_next_event_id d\<rparr>"
    by (simp add: refresh_event_def uw find_append event_key_def)
qed

lemma exhausted_commit:
  assumes "e \<in> set (uw_events uw)" and "e_sequence e = max_sequence d k + 1" and "\<not> sequence_left d k"
  shows "commit uw d = None"
  using assms commit_bad_event next_sequence_overflow by metis

section \<open>A task and its successor\<close>

text \<open>What has to hold for the successor's row to be accepted.\<close>

definition successor_ok :: "db \<Rightarrow> task \<Rightarrow> task \<Rightarrow> bool" where
  "successor_ok d t n =
     (t_id n \<notin> t_id ` set (db_tasks d) \<and> length (t_id n) \<le> 128 \<and> int4 (t_lineage_depth n)
      \<and> max_len 256 (t_idempotency_key n)
      \<and> (case t_idempotency_key n of None \<Rightarrow> True | Some k \<Rightarrow> k \<notin> set (idem_keys (db_tasks d))))"

lemma root_ref:
  assumes "db_inv mx d" and "t \<in> set (db_tasks d)"
  shows "str_or (t_root t) (t_id t) \<in> t_id ` set (db_tasks d)"
  using assms
  by (cases "t_root t")
     (auto simp: db_inv_def constraints_ok_def task_row_ok_def references_def str_or_def split: list.splits)

lemma successor_commit:
  assumes inv: "db_inv mx d" and t: "get_task d tid = Some t" and id: "same_identity t t'"
    and e: "e_task_id e = tid" "length (e_type e) \<le> 64" "e_sequence e = max_sequence d tid + 1"
    and left: "sequence_left d tid" and child: "child_of t n" and ok: "successor_ok d t n"
    and cb: "t_callback_url n = None" and c: "created_event (t_id n) c"
    and uw: "uw = \<lparr>uw_update = Some (t, t'), uw_tasks = [n], uw_events = [e, c]\<rparr>"
  shows "commit uw d = Some (apply_work uw d)"
    and "get_task (apply_work uw d) tid = Some t'"
    and "get_task (apply_work uw d) (t_id n) = Some n"
    and "refresh_task t' (apply_work uw d) = t'"
    and "refresh_task n (apply_work uw d) = n"
    and "task_events (apply_work uw d) tid = task_events d tid @ [e\<lparr>e_id := db_next_event_id d\<rparr>]"
proof -
  have idt: "t_id t = tid" "t_id t' = tid" and mem: "t \<in> set (db_tasks d)"
    using get_taskD [OF t] id by (auto simp: same_identity_def)
  have new: "t_id n \<notin> t_id ` set (db_tasks d)" using ok by (simp add: successor_ok_def)
  then have neq: "t_id n \<noteq> tid" using get_task_id_mem [OF t] by auto
  have rows: "task_row_ok d t" "t_root n = Some (str_or (t_root t) (t_id t))"
    using inv mem child by (auto simp: db_inv_def constraints_ok_def child_of_def)
  have row: "task_row_ok (apply_work uw d) n"
    using rows child ok cb apply_work_ids [of d uw] root_ref [OF inv mem] get_task_id_mem [OF t] idt
    by (auto simp: task_row_ok_def child_of_def successor_ok_def references_def)
       (auto simp: max_len_def)
  have e_row: "event_row_ok (apply_work uw d) x" if "x \<in> set [e, c]" for x
    using that e c next_sequence_int4 [OF inv left] get_task_id_mem [OF t] apply_work_ids [of d uw]
    by (auto simp: event_row_ok_def created_event_def int4_def apply_work_tasks uw)
  have keys: "event_key c \<notin> event_key ` set (db_events d)" "event_key e \<notin> event_key ` set (db_events d)"
    using fresh_sequence [of d "t_id n" 1] fresh_sequence [of d tid "e_sequence e"] e c
      no_task_max_sequence [OF db_inv_constraints [OF inv] new]
    by (auto simp: event_key_def created_event_def)
  show commit: "commit uw d = Some (apply_work uw d)"
    using new ok keys row e_row neq e c
    by (intro commit_succeeds [OF db_inv_constraints [OF inv]])
       (auto simp: uw successor_ok_def event_key_def created_event_def split: option.splits)
  show g: "get_task (apply_work uw d) tid = Some t'"
    using commit_get_task [OF commit t] id idt by (simp add: uw)
  show gn: "get_task (apply_work uw d) (t_id n) = Some n"
    using commit_get_insert [OF commit] by (simp add: uw)
  show "refresh_task t' (apply_work uw d) = t'" using g idt by (simp add: refresh_task_get)
  show "refresh_task n (apply_work uw d) = n" using gn by (simp add: refresh_task_get)
  show "task_events (apply_work uw d) tid = task_events d tid @ [e\<lparr>e_id := db_next_event_id d\<rparr>]"
    using e c neq by (simp add: task_events_apply uw created_event_def)
qed

section \<open>The answer of a transaction\<close>

text \<open>An update with one event, run: it goes through, or the sequence is used up and nothing changes.\<close>

lemma run_update:
  assumes inv: "db_inv mx d" and t: "get_task d tid = Some t" and id: "same_identity t t'"
    and e: "e_task_id e = tid" "length (e_type e) \<le> 64" "e_sequence e = max_sequence d tid + 1"
    and tx: "opr d = Commit \<lparr>uw_update = Some (t, t'), uw_tasks = [], uw_events = [e]\<rparr> r"
  shows "if sequence_left d tid
         then (\<exists>d'. run_tx (opr d) d = (Inr (r d'), d') \<and> get_task d' tid = Some t'
                \<and> refresh_task t' d' = t' \<and> refresh_event e d' = e\<lparr>e_id := db_next_event_id d\<rparr>
                \<and> task_events d' tid = task_events d tid @ [e\<lparr>e_id := db_next_event_id d\<rparr>])
         else run_tx (opr d) d = (Inl DatabaseError, d)"
proof (cases "sequence_left d tid")
  case True
  then show ?thesis using update_commit [OF inv t id e True refl] by (auto simp: tx)
next
  case False
  have "commit \<lparr>uw_update = Some (t, t'), uw_tasks = [], uw_events = [e]\<rparr> d = None"
    using exhausted_commit [OF _ e(3) False, of "\<lparr>uw_update = Some (t, t'), uw_tasks = [], uw_events = [e]\<rparr>"]
    by simp
  then show ?thesis using False by (simp add: tx)
qed

lemma run_update_raise:
  assumes inv: "db_inv mx d" and t: "get_task d tid = Some t" and id: "same_identity t t'"
    and e: "e_task_id e = tid" "length (e_type e) \<le> 64" "e_sequence e = max_sequence d tid + 1"
    and tx: "opr d = CommitRaise \<lparr>uw_update = Some (t, t'), uw_tasks = [], uw_events = [e]\<rparr> x"
  shows "if sequence_left d tid
         then (\<exists>d'. run_tx (opr d) d = (Inl x, d') \<and> get_task d' tid = Some t'
                \<and> task_events d' tid = task_events d tid @ [e\<lparr>e_id := db_next_event_id d\<rparr>])
         else run_tx (opr d) d = (Inl DatabaseError, d)"
proof (cases "sequence_left d tid")
  case True
  then show ?thesis using update_commit [OF inv t id e True refl] by (auto simp: tx)
next
  case False
  have "commit \<lparr>uw_update = Some (t, t'), uw_tasks = [], uw_events = [e]\<rparr> d = None"
    using exhausted_commit [OF _ e(3) False, of "\<lparr>uw_update = Some (t, t'), uw_tasks = [], uw_events = [e]\<rparr>"]
    by simp
  then show ?thesis using False by (simp add: tx)
qed

lemma run_successor:
  assumes inv: "db_inv mx d" and t: "get_task d tid = Some t" and id: "same_identity t t'"
    and e: "e_task_id e = tid" "length (e_type e) \<le> 64" "e_sequence e = max_sequence d tid + 1"
    and left: "sequence_left d tid" and child: "child_of t n" and ok: "successor_ok d t n"
    and cb: "t_callback_url n = None" and c: "created_event (t_id n) c"
    and tx: "opr d = Commit \<lparr>uw_update = Some (t, t'), uw_tasks = [n], uw_events = [e, c]\<rparr>
               (\<lambda>d'. (refresh_task n d', refresh_task t' d', False))"
  shows "\<exists>d'. run_tx (opr d) d = (Inr (n, t', False), d') \<and> get_task d' tid = Some t'
           \<and> get_task d' (t_id n) = Some n
           \<and> task_events d' tid = task_events d tid @ [e\<lparr>e_id := db_next_event_id d\<rparr>]"
  using successor_commit [OF inv t id e left child ok cb c refl] by (auto simp: tx)

section \<open>What a retask commits\<close>

text \<open>The row of a successor, field by field.\<close>

definition successor :: "env \<Rightarrow> task \<Rightarrow> dict \<Rightarrow> task_priority \<Rightarrow> string option \<Rightarrow> dict \<Rightarrow> task" where
  "successor env t inp q key md =
     \<lparr>t_id = ''task-'' @ env_uuid env, t_workflow_id = t_workflow_id t, t_principal = t_principal t,
      t_executor = t_executor t, t_status = ACCEPTED, t_input = inp, t_result = JNull, t_priority = q,
      t_timeout_seconds = t_timeout_seconds t, t_parent = Some (t_id t),
      t_root = Some (str_or (t_root t) (t_id t)), t_lineage_depth = t_lineage_depth t + 1,
      t_delegation_depth = t_delegation_depth t, t_callback_url = None, t_idempotency_key = key,
      t_created_at = env_now env, t_started_at = None, t_completed_at = None, t_paused_at = None,
      t_metadata = Some md\<rparr>"

lemma successor_child: "child_of t (successor env t inp q key md)"
  by (simp add: child_of_def successor_def)

text \<open>The branch of \<open>retask_task\<close> that creates the successor.\<close>

lemma retask_task_commit:
  assumes "get_workflow d wid = Some w" and t: "get_task d tid = Some t"
    and "t_workflow_id t = wid" and "caller = t_principal t \<or> caller = w_owner w"
    and "t_status t \<in> {COMPLETED, FAILED}"
    and "t_lineage_depth t < fleet_lineage_max_depth (env_settings env)"
    and "merge_additional (t_input t) (dict_get refinement ''additional_input'') = Inr inp"
    and "key = None \<or> check_idempotency env d (the key) inp = Inr None"
    and "resolve_priority priority (t_priority t) = Inr q"
  shows "retask_task env wid tid caller refinement priority key d =
     Commit
       \<lparr>uw_update = Some (t, t\<lparr>t_status := RETASKED, t_completed_at := Some (env_now_utc env)\<rparr>),
        uw_tasks = [successor env t inp q key [(''refinement'', JObj refinement)]],
        uw_events =
          [new_event tid ''status''
             (Some [(''from_status'', JStr (status_value (t_status t))), (''to_status'', JStr ''retasked''),
                    (''retask_id'', JStr (t_id (successor env t inp q key [(''refinement'', JObj refinement)]))),
                    (''retasked_by'', JStr caller),
                    (''refinement_message'', dict_get refinement ''message'')])
             (max_sequence d tid + 1) (env_now env),
           new_event (t_id (successor env t inp q key [(''refinement'', JObj refinement)])) ''created''
             (Some [(''status'', JStr ''accepted''), (''caller'', JStr (t_principal t)),
                    (''retask_of'', JStr tid)]) 1 (env_now env)]\<rparr>
       (\<lambda>d'. (refresh_task (successor env t inp q key [(''refinement'', JObj refinement)]) d',
              refresh_task (t\<lparr>t_status := RETASKED, t_completed_at := Some (env_now_utc env)\<rparr>) d', False))"
proof -
  have id: "t_id t = tid" using get_taskD [OF t] by simp
  show ?thesis
    using assms id
    by (cases key)
       (auto simp: retask_task_def transition_to_def validate_transition_def Let_def successor_def)
qed

section \<open>An event of the executor\<close>

text \<open>The row and the log after an accepted event, for any type.\<close>

lemma sidecar_accepted:
  assumes inv: "db_inv mx d" and t: "get_task d tid = Some t" and ex: "t_executor t = Some ex"
    and ty: "ty \<in> set valid_event_types" and sq: "max_sequence d tid < sq" "int4 sq"
    and app: "apply_event env ty data t = Inr t'"
  shows "\<exists>d'. run_tx (process_sidecar_event env tid ty data sq ex d) d
            = (Inr (new_event tid ty (Some data) sq (env_now env)\<lparr>e_id := db_next_event_id d\<rparr>, t',
                    is_terminal (t_status t') \<and> t_callback_url t' \<noteq> None), d')
          \<and> get_task d' tid = Some t'
          \<and> task_events d' tid = task_events d tid @
              [new_event tid ty (Some data) sq (env_now env)\<lparr>e_id := db_next_event_id d\<rparr>]"
proof -
  let ?e = "new_event tid ty (Some data) sq (env_now env)"
  let ?uw = "\<lparr>uw_update = Some (t, t'), uw_tasks = [], uw_events = [?e]\<rparr>"
  have id: "same_identity t t'" using apply_event_evolves [OF app] evolves_identity by blast
  have ids: "t_id t = tid" "t_id t' = tid" using get_taskD [OF t] id by (auto simp: same_identity_def)
  have len: "length ty \<le> 64" using ty by (auto simp: valid_event_types_def)
  have commit: "commit ?uw d = Some (apply_work ?uw d)"
    using t len sq by (intro commit_one_event [OF db_inv_constraints [OF inv]]) (simp_all add: new_event_def)
  have g: "get_task (apply_work ?uw d) tid = Some t'"
    using commit_get_task [OF commit t] id ids by simp
  have log: "task_events (apply_work ?uw d) tid = task_events d tid @ [?e\<lparr>e_id := db_next_event_id d\<rparr>]"
    by (simp add: task_events_apply new_event_def)
  have "event_key ?e \<notin> event_key ` set (db_events d)"
    using fresh_sequence [OF sq(1)] by (simp add: event_key_def new_event_def)
  then have "find (\<lambda>r. event_key r = event_key ?e) (db_events d) = None"
    by (auto simp: find_None_iff image_iff)
  then have e: "refresh_event ?e (apply_work ?uw d) = ?e\<lparr>e_id := db_next_event_id d\<rparr>"
    by (simp add: refresh_event_def find_append event_key_def)
  have "process_sidecar_event env tid ty data sq ex d = Commit ?uw
      (\<lambda>d'. let t'' = refresh_task t' d' in (refresh_event ?e d', t'',
               is_terminal (t_status t'') \<and> t_callback_url t'' \<noteq> None))"
    using t ex ty sq(1) app by (simp add: process_sidecar_event_def Let_def)
  then show ?thesis
    using commit g log e refresh_task_get [of "apply_work ?uw d" t'] ids by (simp add: Let_def)
qed

section \<open>The work of a cancellation, a resume and a creation\<close>

definition cancel_event :: "env \<Rightarrow> db \<Rightarrow> task \<Rightarrow> string \<Rightarrow> string option \<Rightarrow> task_event" where
  "cancel_event env d t caller reason =
     new_event (t_id t) ''status''
       (Some [(''from_status'', JStr (status_value (t_status t))), (''to_status'', JStr ''cancelled''),
              (''reason'', jopt_str reason), (''cancelled_by'', JStr caller)])
       (max_sequence d (t_id t) + 1) (env_db_now env)"

definition cancelled :: "env \<Rightarrow> task \<Rightarrow> task" where
  "cancelled env t = t\<lparr>t_status := CANCELLED, t_completed_at := Some (env_now_utc env)\<rparr>"

lemma cancel_task_commit:
  assumes "get_workflow d wid = Some w" and t: "get_task d tid = Some t"
    and "t_workflow_id t = wid" and "caller = t_principal t \<or> caller = w_owner w"
  shows "cancel_task env wid tid caller reason d =
      (if is_terminal (t_status t) then Raise (Fleet INVALID_STATE_TRANSITION)
       else Commit \<lparr>uw_update = Some (t, cancelled env t), uw_tasks = [], uw_events = [cancel_event env d t caller reason]\<rparr>
              (refresh_task (cancelled env t)))"
proof -
  have "t_id t = tid" using get_taskD [OF t] by simp
  moreover have "CANCELLED \<in> set (valid_transitions (t_status t)) \<longleftrightarrow> \<not> is_terminal (t_status t)"
    by (cases "t_status t") simp_all
  ultimately show ?thesis
    using assms
    by (auto simp: cancel_task_def transition_to_def validate_transition_def Let_def cancelled_def cancel_event_def)
qed

lemma cancelled_identity: "same_identity t (cancelled env t)"
  by (simp add: cancelled_def same_identity_def)

text \<open>How long the pause has lasted, and whether that is too long.\<close>

definition paused_for :: "env \<Rightarrow> task \<Rightarrow> time" where
  "paused_for env t = (case t_paused_at t of None \<Rightarrow> 0 | Some p \<Rightarrow> env_now env - p)"

definition pause_expired :: "env \<Rightarrow> task \<Rightarrow> bool" where
  "pause_expired env t =
     (t_paused_at t \<noteq> None \<and> seconds (fleet_pause_ttl_seconds (env_settings env)) < paused_for env t)"

definition timeout_event :: "env \<Rightarrow> db \<Rightarrow> task \<Rightarrow> task_event" where
  "timeout_event env d t =
     new_event (t_id t) ''status''
       (Some [(''from_status'', JStr ''paused''), (''to_status'', JStr ''cancelled''),
              (''reason'', JStr ''PAUSE_TIMEOUT''),
              (''paused_duration_seconds'', JInt (int_total_seconds (paused_for env t)))])
       (max_sequence d (t_id t) + 1) (env_db_now env)"

definition resumed :: "task_priority \<Rightarrow> task \<Rightarrow> task" where
  "resumed q t = t\<lparr>t_status := RUNNING, t_paused_at := None, t_priority := q\<rparr>"

definition resumed_event :: "env \<Rightarrow> db \<Rightarrow> task \<Rightarrow> string \<Rightarrow> task_priority \<Rightarrow> task_event" where
  "resumed_event env d t caller q =
     new_event (t_id t) ''resume_requested''
       (Some [(''from_status'', JStr ''paused''), (''to_status'', JStr ''running''), (''resumed_by'', JStr caller),
              (''paused_duration_seconds'', JInt (int_total_seconds (paused_for env t))),
              (''priority'', JStr (priority_value q))])
       (max_sequence d (t_id t) + 1) (env_db_now env)"

lemma resume_task_commit:
  assumes "get_workflow d wid = Some w" and t: "get_task d tid = Some t"
    and "t_workflow_id t = wid" and "caller = t_principal t \<or> caller = w_owner w"
  shows "resume_task env wid tid caller priority d =
      (if t_status t \<noteq> PAUSED then Raise (Fleet TASK_NOT_PAUSED)
       else if pause_expired env t then
         CommitRaise \<lparr>uw_update = Some (t, cancelled env t), uw_tasks = [], uw_events = [timeout_event env d t]\<rparr>
           (Fleet PAUSE_TIMEOUT)
       else (case resolve_priority priority (t_priority t) of
               Inl y \<Rightarrow> Raise y
             | Inr q \<Rightarrow> Commit \<lparr>uw_update = Some (t, resumed q t), uw_tasks = [],
                                uw_events = [resumed_event env d t caller q]\<rparr>
                          (\<lambda>d'. (refresh_task (resumed q t) d', refresh_event (resumed_event env d t caller q) d'))))"
proof -
  have "t_id t = tid" using get_taskD [OF t] by simp
  then show ?thesis
    using assms
    by (auto simp: resume_task_def transition_to_def validate_transition_def Let_def resumed_def resumed_event_def
        paused_for_def pause_expired_def cancelled_def timeout_event_def split: sum.splits)
qed

lemma resumed_identity: "same_identity t (resumed q t)"
  by (simp add: resumed_def same_identity_def)

text \<open>A new task with its created event alone.\<close>

lemma root_commit:
  assumes ok: "constraints_ok d" and fresh: "t_id n \<notin> t_id ` set (db_tasks d)"
    and key: "case t_idempotency_key n of None \<Rightarrow> True | Some k \<Rightarrow> k \<notin> set (idem_keys (db_tasks d))"
    and c: "c = new_event (t_id n) ''created'' data 1 now"
    and uw: "uw = \<lparr>uw_update = None, uw_tasks = [n], uw_events = [c]\<rparr>"
    and row: "task_row_ok (apply_work uw d) n"
  shows "commit uw d = Some (apply_work uw d)"
    and "get_task (apply_work uw d) (t_id n) = Some n"
    and "get_task d k = Some t \<Longrightarrow> get_task (apply_work uw d) k = Some t"
    and "task_events (apply_work uw d) (t_id n) = [c\<lparr>e_id := db_next_event_id d\<rparr>]"
proof -
  have erow: "event_row_ok (apply_work uw d) c"
    by (simp add: event_row_ok_def c new_event_def int4_def apply_work_tasks uw)
  have ckey: "event_key c \<notin> event_key ` set (db_events d)"
    using fresh_sequence [of d "t_id n" 1] no_task_max_sequence [OF ok fresh]
    by (simp add: event_key_def c new_event_def)
  show commit: "commit uw d = Some (apply_work uw d)"
    using fresh row erow ckey key
    by (intro commit_succeeds [OF ok]) (auto simp: uw split: option.splits)
  show "get_task (apply_work uw d) (t_id n) = Some n"
    using commit_get_insert [OF commit] by (simp add: uw)
  show "get_task (apply_work uw d) k = Some t" if "get_task d k = Some t"
    using commit_get_other [OF commit that] by (simp add: uw)
  show "task_events (apply_work uw d) (t_id n) = [c\<lparr>e_id := db_next_event_id d\<rparr>]"
    using no_task_no_events [OF ok fresh] by (simp add: task_events_apply uw c new_event_def)
qed

end
