(* ===== verification/Samples.thy ===== *)
theory Samples
  imports System
begin

text \<open>
  A small run of the server, for the concrete instances of the properties: an agent registers and
  creates a workflow, a task is created for it, the executor reports it running, and another
  event completes it. Each database is the literal value the calls compute.
\<close>

definition sample_settings :: settings where
  "sample_settings = default_settings"

definition env_at :: "time \<Rightarrow> string \<Rightarrow> env" where
  "env_at now uuid =
     \<lparr>env_settings = sample_settings, env_now_utc = now, env_now = now, env_db_now = now,
      env_uuid = uuid, env_tracks = False, env_sha256 = (\<lambda>s. s)\<rparr>"

definition any_input :: "dict \<Rightarrow> dict \<Rightarrow> schema_outcome" where
  "any_input inp schema = Conforms"

definition sample_key :: string where
  "sample_key = replicate 43 (CHR ''A'') @ ''=''"

definition sample_registration :: register_request where
  "sample_registration =
     \<lparr>rr_agent_id = ''p'', rr_display_name = None, rr_public_key = sample_key, rr_capabilities = None,
      rr_endpoint = None\<rparr>"

definition sample_agent :: agent where
  "sample_agent =
     \<lparr>a_id = ''p'', a_display_name = None, a_public_key = sample_key, a_capabilities = None,
      a_status = REGISTERED, a_last_heartbeat = None, a_registered_at = 1, a_metadata = None\<rparr>"

definition sample_fields :: workflow_fields where
  "sample_fields =
     \<lparr>wf_name = ''wf'', wf_description = None, wf_tags = None, wf_input_schema = None,
      wf_output_schema = None, wf_timeout_seconds = Some 60, wf_result_retention_days = 30\<rparr>"

definition sample_workflow :: workflow where
  "sample_workflow =
     \<lparr>w_id = ''w'', w_name = ''wf'', w_owner = ''p'', w_description = None, w_input_schema = None,
      w_output_schema = None, w_estimated_duration = None, w_timeout_seconds = Some 60,
      w_result_retention_days = 30, w_status = WF_ACTIVE, w_tags = None, w_created_at = 2,
      w_updated_at = None\<rparr>"

definition sample_task :: task where
  "sample_task =
     \<lparr>t_id = ''task-1'', t_workflow_id = ''w'', t_principal = ''p'', t_executor = Some ''p'',
      t_status = ACCEPTED, t_input = [(''n'', JInt 1)], t_result = JNull, t_priority = NORMAL,
      t_timeout_seconds = Some 60, t_parent = None, t_root = None, t_lineage_depth = 0,
      t_delegation_depth = 0, t_callback_url = None, t_idempotency_key = Some ''k'',
      t_created_at = 3, t_started_at = None, t_completed_at = None, t_paused_at = None,
      t_metadata = None\<rparr>"

definition sample_created :: task_event where
  "sample_created =
     \<lparr>e_id = 1, e_task_id = ''task-1'', e_type = ''created'',
      e_data = Some [(''status'', JStr ''accepted''), (''caller'', JStr ''p'')], e_sequence = 1,
      e_created_at = 3\<rparr>"

definition sample_started :: task_event where
  "sample_started =
     \<lparr>e_id = 2, e_task_id = ''task-1'', e_type = ''status'',
      e_data = Some [(''status'', JStr ''running'')], e_sequence = 2, e_created_at = 4\<rparr>"

definition sample_finished :: task_event where
  "sample_finished =
     \<lparr>e_id = 3, e_task_id = ''task-1'', e_type = ''completed'',
      e_data = Some [(''result'', JInt 7)], e_sequence = 3, e_created_at = 5\<rparr>"

definition sample_running_task :: task where
  "sample_running_task = sample_task\<lparr>t_status := RUNNING, t_started_at := Some 4\<rparr>"

definition sample_completed_task :: task where
  "sample_completed_task =
     sample_running_task\<lparr>t_status := COMPLETED, t_completed_at := Some 5, t_result := JInt 7\<rparr>"

definition sample_base :: db where
  "sample_base =
     \<lparr>db_agents = [sample_agent], db_workflows = [sample_workflow], db_tasks = [], db_events = [],
      db_next_event_id = 1\<rparr>"

definition sample_accepted :: db where
  "sample_accepted = sample_base\<lparr>db_tasks := [sample_task], db_events := [sample_created], db_next_event_id := 2\<rparr>"

definition sample_running :: db where
  "sample_running =
     sample_base\<lparr>db_tasks := [sample_running_task], db_events := [sample_created, sample_started],
       db_next_event_id := 3\<rparr>"

definition sample_completed :: db where
  "sample_completed =
     sample_base\<lparr>db_tasks := [sample_completed_task],
       db_events := [sample_created, sample_started, sample_finished], db_next_event_id := 4\<rparr>"

lemma sample_run1:
  "handle any_input (env_at 1 []) (RegisterAgent sample_registration) empty_db
     = empty_db\<lparr>db_agents := [sample_agent]\<rparr>"
  by code_simp

lemma sample_run2:
  "handle any_input (env_at 2 []) (CreateWorkflow ''w'' ''p'' sample_fields)
     (empty_db\<lparr>db_agents := [sample_agent]\<rparr>) = sample_base"
  by code_simp

lemma sample_run3:
  "handle any_input (env_at 3 ''1'')
     (CreateTask ''w'' ''p'' [(''n'', JInt 1)] None ''normal'' None (Some ''k'') None None) sample_base = sample_accepted"
  by code_simp

lemma sample_run4:
  "handle any_input (env_at 4 [])
     (SidecarEvent ''task-1'' ''status'' [(''status'', JStr ''running'')] 2 ''p'') sample_accepted = sample_running"
  by code_simp

lemma sample_run5:
  "handle any_input (env_at 5 [])
     (SidecarEvent ''task-1'' ''completed'' [(''result'', JInt 7)] 3 ''p'') sample_running = sample_completed"
  by code_simp

definition sample_paused_task :: task where
  "sample_paused_task = sample_running_task\<lparr>t_status := PAUSED, t_paused_at := Some 6\<rparr>"

definition sample_pause :: task_event where
  "sample_pause =
     \<lparr>e_id = 3, e_task_id = ''task-1'', e_type = ''pause_requested'',
      e_data = Some [(''from_status'', JStr ''running''), (''to_status'', JStr ''paused''),
        (''reason'', JNull), (''paused_by'', JStr ''p''),
        (''paused_state'', JObj [(''progress'', JInt 0), (''message'', JNull), (''resumable'', JBool True),
           (''state_ttl_seconds'', JInt 3600), (''expires_at'', JStr ''1970-01-01T01:00:00.000006+00:00'')])],
      e_sequence = 3, e_created_at = 6\<rparr>"

definition sample_paused :: db where
  "sample_paused =
     sample_base\<lparr>db_tasks := [sample_paused_task],
       db_events := [sample_created, sample_started, sample_pause], db_next_event_id := 4\<rparr>"

lemma sample_run6:
  "handle any_input (env_at 6 []) (PauseTask ''w'' ''task-1'' ''p'' None) sample_running = sample_paused"
  by code_simp

definition sample_retasked_task :: task where
  "sample_retasked_task = sample_completed_task\<lparr>t_status := RETASKED, t_completed_at := Some 8\<rparr>"

definition sample_successor :: task where
  "sample_successor =
     \<lparr>t_id = ''task-2'', t_workflow_id = ''w'', t_principal = ''p'', t_executor = Some ''p'',
      t_status = ACCEPTED, t_input = [(''n'', JInt 1)], t_result = JNull, t_priority = NORMAL,
      t_timeout_seconds = Some 60, t_parent = Some ''task-1'', t_root = Some ''task-1'',
      t_lineage_depth = 1, t_delegation_depth = 0, t_callback_url = None, t_idempotency_key = None,
      t_created_at = 8, t_started_at = None, t_completed_at = None, t_paused_at = None,
      t_metadata = Some [(''refinement'', JObj [(''message'', JStr ''again'')])]\<rparr>"

definition sample_retask_events :: "task_event list" where
  "sample_retask_events =
     [\<lparr>e_id = 4, e_task_id = ''task-1'', e_type = ''status'',
       e_data = Some [(''from_status'', JStr ''completed''), (''to_status'', JStr ''retasked''),
         (''retask_id'', JStr ''task-2''), (''retasked_by'', JStr ''p''),
         (''refinement_message'', JStr ''again'')], e_sequence = 4, e_created_at = 8\<rparr>,
      \<lparr>e_id = 5, e_task_id = ''task-2'', e_type = ''created'',
       e_data = Some [(''status'', JStr ''accepted''), (''caller'', JStr ''p''), (''retask_of'', JStr ''task-1'')],
       e_sequence = 1, e_created_at = 8\<rparr>]"

definition sample_retasked :: db where
  "sample_retasked =
     sample_base\<lparr>db_tasks := [sample_retasked_task, sample_successor],
       db_events := [sample_created, sample_started, sample_finished] @ sample_retask_events,
       db_next_event_id := 6\<rparr>"

lemma sample_run7:
  "handle any_input (env_at 8 ''2'') (RetaskTask ''w'' ''task-1'' ''p'' [(''message'', JStr ''again'')] None None)
     sample_completed = sample_retasked"
  by code_simp

lemma env_at_settings [simp]: "env_settings (env_at now uuid) = sample_settings"
  by (simp add: env_at_def)

lemma sample_depth [simp]: "fleet_lineage_max_depth sample_settings = 10"
  by (simp add: sample_settings_def default_settings_def)

lemma sample_steps:
  "server_step sample_settings sample_base sample_accepted"
  "server_step sample_settings sample_accepted sample_running"
  "server_step sample_settings sample_running sample_completed"
  "server_step sample_settings sample_running sample_paused"
  "server_step sample_settings sample_completed sample_retasked"
  using server_step.call [OF env_at_settings] sample_run3 sample_run4 sample_run5 sample_run6 sample_run7
  by metis+

lemma reachable_base: "reachable sample_settings sample_base"
proof -
  have "server_step sample_settings empty_db (empty_db\<lparr>db_agents := [sample_agent]\<rparr>)"
    "server_step sample_settings (empty_db\<lparr>db_agents := [sample_agent]\<rparr>) sample_base"
    using server_step.call [OF env_at_settings] sample_run1 sample_run2 by metis+
  then show ?thesis unfolding reachable_def by (meson rtranclp.rtrancl_into_rtrancl rtranclp.rtrancl_refl)
qed

lemma reachable_accepted: "reachable sample_settings sample_accepted"
  using reachable_base sample_steps(1) unfolding reachable_def by (rule rtranclp.rtrancl_into_rtrancl)

lemma reachable_running: "reachable sample_settings sample_running"
  using reachable_accepted sample_steps(2) unfolding reachable_def by (rule rtranclp.rtrancl_into_rtrancl)

lemma reachable_completed: "reachable sample_settings sample_completed"
  using reachable_running sample_steps(3) unfolding reachable_def by (rule rtranclp.rtrancl_into_rtrancl)

lemma reachable_paused: "reachable sample_settings sample_paused"
  using reachable_running sample_steps(4) unfolding reachable_def by (rule rtranclp.rtrancl_into_rtrancl)

lemma reachable_retasked: "reachable sample_settings sample_retasked"
  using reachable_completed sample_steps(5) unfolding reachable_def by (rule rtranclp.rtrancl_into_rtrancl)

lemma sample_lookups:
  "get_workflow sample_accepted ''w'' = Some sample_workflow"
  "get_workflow sample_running ''w'' = Some sample_workflow"
  "get_workflow sample_completed ''w'' = Some sample_workflow"
  "get_task sample_accepted ''task-1'' = Some sample_task"
  "get_task sample_running ''task-1'' = Some sample_running_task"
  "get_task sample_completed ''task-1'' = Some sample_completed_task"
  "get_workflow sample_paused ''w'' = Some sample_workflow"
  "get_task sample_paused ''task-1'' = Some sample_paused_task"
  "get_task sample_retasked ''task-2'' = Some sample_successor"
  by code_simp+

end
