(* ===== verification/Props_Lifecycle.thy ===== *)
theory Props_Lifecycle
  imports Outcomes Samples
begin

text \<open>
  The lifecycle operations, branch by branch: what an authorised caller gets, what is stored, what
  is logged. Every statement is about a database of a run of the server (\<open>reachable\<close>), so that the
  schema constraints and the numbering of events hold.
\<close>

section \<open>Cancel\<close>

text \<open>C29: Cancelling a task. For the principal or the workflow's owner, a task in a terminal state
  is refused with INVALID_STATE_TRANSITION; otherwise, as long as the four-byte event sequence of
  the task is not used up, the stored task becomes CANCELLED with its completion time, every other
  column is kept, and exactly one status event with the next sequence number is appended; with the
  sequence used up the transaction fails and nothing changes.\<close>

theorem cancel_outcome:
  assumes "reachable cfg d" and "get_workflow d wid = Some w" and "get_task d tid = Some t"
    and "t_workflow_id t = wid" and "caller = t_principal t \<or> caller = w_owner w"
  shows
    "let r = run_tx (cancel_task env wid tid caller reason d) d;
         t' = t\<lparr>t_status := CANCELLED, t_completed_at := Some (env_now_utc env)\<rparr>
     in if is_terminal (t_status t) then r = (Inl (Fleet INVALID_STATE_TRANSITION), d)
        else if \<not> sequence_left d tid then r = (Inl DatabaseError, d)
        else fst r = Inr t' \<and> get_task (snd r) tid = Some t'
             \<and> task_events (snd r) tid = task_events d tid @
                 [\<lparr>e_id = db_next_event_id d, e_task_id = tid, e_type = ''status'',
                   e_data = Some [(''from_status'', JStr (status_value (t_status t))),
                                  (''to_status'', JStr ''cancelled''),
                                  (''reason'', jopt_str reason), (''cancelled_by'', JStr caller)],
                   e_sequence = max_sequence d tid + 1, e_created_at = env_db_now env\<rparr>]"
proof -
  have id: "t_id t = tid" using get_taskD [OF assms(3)] by simp
  note tx = cancel_task_commit [OF assms(2-5), of env reason]
  show ?thesis
  proof (cases "is_terminal (t_status t)")
    case True
    then show ?thesis by (simp add: tx)
  next
    case False
    have e: "e_task_id (cancel_event env d t caller reason) = tid" "length (e_type (cancel_event env d t caller reason)) \<le> 64"
      "e_sequence (cancel_event env d t caller reason) = max_sequence d tid + 1"
      using id by (simp_all add: cancel_event_def new_event_def)
    note run_update [OF reachable_inv [OF assms(1)] assms(3) cancelled_identity [of t env] e,
        of "cancel_task env wid tid caller reason"]
    then show ?thesis
      using tx False id by (auto simp: Let_def cancelled_def) (auto simp: cancel_event_def new_event_def)
  qed
qed

lemma cancel_outcome_witness:
  "fst (run_tx (cancel_task (env_at 9 []) ''w'' ''task-1'' ''p'' None sample_running) sample_running)
     = Inr (sample_running_task\<lparr>t_status := CANCELLED, t_completed_at := Some 9\<rparr>)"
proof -
  have "sequence_left sample_running ''task-1''" "\<not> is_terminal (t_status sample_running_task)"
    "t_workflow_id sample_running_task = ''w''" "''p'' = t_principal sample_running_task \<or> ''p'' = w_owner sample_workflow"
    by code_simp+
  moreover have "env_now_utc (env_at 9 []) = 9" by (simp add: env_at_def)
  ultimately show ?thesis
    using cancel_outcome [OF reachable_running sample_lookups(2) sample_lookups(5), of "''p''" "env_at 9 []" None]
    by (simp add: Let_def)
qed

section \<open>Pause and resume\<close>

text \<open>Pausing a task. Only a RUNNING task is pausable; it becomes PAUSED with the pause time
  stamped, and the one appended pause_requested event carries the progress and message of the
  task's metadata (0 and null without one) and the instant the pause expires, the configured
  number of seconds after now.\<close>

theorem pause_outcome:
  assumes "reachable cfg d" and "get_workflow d wid = Some w" and "get_task d tid = Some t"
    and "t_workflow_id t = wid" and "caller = t_principal t \<or> caller = w_owner w"
  shows
    "let r = run_tx (pause_task env wid tid caller reason d) d;
         t' = t\<lparr>t_status := PAUSED, t_paused_at := Some (env_now env)\<rparr>;
         ttl = fleet_pause_ttl_seconds (env_settings env)
     in if t_status t \<noteq> RUNNING then r = (Inl (Fleet TASK_NOT_PAUSABLE), d)
        else if \<not> sequence_left d tid then r = (Inl DatabaseError, d)
        else \<exists>e. fst r = Inr (t', e) \<and> get_task (snd r) tid = Some t'
             \<and> task_events (snd r) tid = task_events d tid @ [e]
             \<and> e = \<lparr>e_id = db_next_event_id d, e_task_id = tid, e_type = ''pause_requested'',
                   e_data = Some [(''from_status'', JStr ''running''), (''to_status'', JStr ''paused''),
                     (''reason'', jopt_str reason), (''paused_by'', JStr caller),
                     (''paused_state'', JObj
                       [(''progress'', meta_get_or (t_metadata t) ''progress'' (JInt 0)),
                        (''message'', meta_get_or (t_metadata t) ''progress_message'' JNull),
                        (''resumable'', JBool True), (''state_ttl_seconds'', JInt ttl),
                        (''expires_at'', JStr (isoformat (env_now env + seconds ttl)))])],
                   e_sequence = max_sequence d tid + 1, e_created_at = env_db_now env\<rparr>"
proof -
  define t' where "t' = t\<lparr>t_status := PAUSED, t_paused_at := Some (env_now env)\<rparr>"
  define ttl where "ttl = fleet_pause_ttl_seconds (env_settings env)"
  define e where "e = new_event tid ''pause_requested''
      (Some [(''from_status'', JStr ''running''), (''to_status'', JStr ''paused''),
             (''reason'', jopt_str reason), (''paused_by'', JStr caller),
             (''paused_state'', JObj
                [(''progress'', meta_get_or (t_metadata t) ''progress'' (JInt 0)),
                 (''message'', meta_get_or (t_metadata t) ''progress_message'' JNull),
                 (''resumable'', JBool True), (''state_ttl_seconds'', JInt ttl),
                 (''expires_at'', JStr (isoformat (env_now env + seconds ttl)))])])
      (max_sequence d tid + 1) (env_db_now env)"
  have id: "t_id t = tid" using get_taskD [OF assms(3)] by simp
  have tx: "pause_task env wid tid caller reason d =
      (if t_status t \<noteq> RUNNING then Raise (Fleet TASK_NOT_PAUSABLE)
       else Commit \<lparr>uw_update = Some (t, t'), uw_tasks = [], uw_events = [e]\<rparr>
              (\<lambda>d'. (refresh_task t' d', refresh_event e d')))"
    using assms(2-5) id
    by (auto simp: pause_task_def transition_to_def validate_transition_def Let_def t'_def e_def ttl_def)
  have "same_identity t t'" by (simp add: t'_def same_identity_def)
  from run_update [OF reachable_inv [OF assms(1)] assms(3) this, of e "pause_task env wid tid caller reason"]
  show ?thesis
    using tx by (cases "t_status t = RUNNING")
      (auto simp: Let_def e_def new_event_def t'_def ttl_def split: if_splits)
qed

lemma pause_outcome_witness:
  "\<exists>e. fst (run_tx (pause_task (env_at 9 []) ''w'' ''task-1'' ''p'' None sample_running) sample_running)
     = Inr (sample_running_task\<lparr>t_status := PAUSED, t_paused_at := Some 9\<rparr>, e)"
proof -
  have "sequence_left sample_running ''task-1''" "t_status sample_running_task = RUNNING"
    "t_workflow_id sample_running_task = ''w''" "''p'' = t_principal sample_running_task \<or> ''p'' = w_owner sample_workflow"
    by code_simp+
  moreover have "env_now (env_at 9 []) = 9" by (simp add: env_at_def)
  ultimately show ?thesis
    using pause_outcome [OF reachable_running sample_lookups(2) sample_lookups(5), of "''p''" "env_at 9 []" None]
    by (simp add: Let_def)
qed

text \<open>Resuming a task. Only a PAUSED task can be resumed. When the pause has lasted longer than
  the configured time to live, the task is stored as CANCELLED with a PAUSE_TIMEOUT status event
  and the caller gets PAUSE_TIMEOUT. Otherwise an unknown priority is refused with nothing stored,
  and a valid one (or none, which keeps the task's) makes the task RUNNING again with the pause
  time cleared, and a resume_requested event records how many whole seconds the pause lasted.\<close>

theorem resume_outcome:
  assumes "reachable cfg d" and "get_workflow d wid = Some w" and "get_task d tid = Some t"
    and "t_workflow_id t = wid" and "caller = t_principal t \<or> caller = w_owner w"
  shows
    "let r = run_tx (resume_task env wid tid caller priority d) d;
         elapsed = (case t_paused_at t of None \<Rightarrow> 0 | Some p \<Rightarrow> env_now env - p);
         ttl = seconds (fleet_pause_ttl_seconds (env_settings env));
         cancelled = t\<lparr>t_status := CANCELLED, t_completed_at := Some (env_now_utc env)\<rparr>
     in if t_status t \<noteq> PAUSED then r = (Inl (Fleet TASK_NOT_PAUSED), d)
        else if t_paused_at t \<noteq> None \<and> ttl < elapsed then
          (if \<not> sequence_left d tid then r = (Inl DatabaseError, d)
           else fst r = Inl (Fleet PAUSE_TIMEOUT) \<and> get_task (snd r) tid = Some cancelled
             \<and> (\<exists>e. task_events (snd r) tid = task_events d tid @ [e] \<and> e_type e = ''status''
                    \<and> meta_get_or (e_data e) ''reason'' JNull = JStr ''PAUSE_TIMEOUT''
                    \<and> e_sequence e = max_sequence d tid + 1))
        else
          (case resolve_priority priority (t_priority t) of
             Inl x \<Rightarrow> r = (Inl x, d)
           | Inr q \<Rightarrow>
               let t' = t\<lparr>t_status := RUNNING, t_paused_at := None, t_priority := q\<rparr>
               in if \<not> sequence_left d tid then r = (Inl DatabaseError, d)
                  else \<exists>e. fst r = Inr (t', e) \<and> get_task (snd r) tid = Some t'
                     \<and> task_events (snd r) tid = task_events d tid @ [e]
                     \<and> e_type e = ''resume_requested'' \<and> e_sequence e = max_sequence d tid + 1
                     \<and> e_data e = Some [(''from_status'', JStr ''paused''), (''to_status'', JStr ''running''),
                          (''resumed_by'', JStr caller),
                          (''paused_duration_seconds'', JInt (int_total_seconds elapsed)),
                          (''priority'', JStr (priority_value q))])"
proof -
  have id: "t_id t = tid" using get_taskD [OF assms(3)] by simp
  note tx = resume_task_commit [OF assms(2-5), of env priority]
  note update = run_update [OF reachable_inv [OF assms(1)] assms(3)]
    and update_raise = run_update_raise [OF reachable_inv [OF assms(1)] assms(3) cancelled_identity [of t env]]
  note clock = pause_expired_def paused_for_def
  consider "t_status t \<noteq> PAUSED" | "t_status t = PAUSED" "pause_expired env t"
    | x where "t_status t = PAUSED" "\<not> pause_expired env t" "resolve_priority priority (t_priority t) = Inl x"
    | q where "t_status t = PAUSED" "\<not> pause_expired env t" "resolve_priority priority (t_priority t) = Inr q"
    by (metis sum.exhaust)
  then show ?thesis
  proof cases
    case 1
    then show ?thesis by (simp add: tx)
  next
    case 2
    have e: "e_task_id (timeout_event env d t) = tid" "length (e_type (timeout_event env d t)) \<le> 64"
      "e_sequence (timeout_event env d t) = max_sequence d tid + 1" "e_type (timeout_event env d t) = ''status''"
      "meta_get_or (e_data (timeout_event env d t)) ''reason'' JNull = JStr ''PAUSE_TIMEOUT''"
      using id by (simp_all add: timeout_event_def new_event_def meta_get_or_def dict_get_or_def)
    show ?thesis
      using update_raise [OF e(1-3), of "resume_task env wid tid caller priority"] tx 2 e(3-5)
      by (auto simp: Let_def clock cancelled_def)
  next
    case 3
    then show ?thesis using tx by (auto simp: Let_def clock)
  next
    case 4
    have e: "e_task_id (resumed_event env d t caller q) = tid" "length (e_type (resumed_event env d t caller q)) \<le> 64"
      "e_sequence (resumed_event env d t caller q) = max_sequence d tid + 1"
      "e_type (resumed_event env d t caller q) = ''resume_requested''"
      "e_data (resumed_event env d t caller q) = Some [(''from_status'', JStr ''paused''), (''to_status'', JStr ''running''),
         (''resumed_by'', JStr caller), (''paused_duration_seconds'', JInt (int_total_seconds (paused_for env t))),
         (''priority'', JStr (priority_value q))]"
      using id by (simp_all add: resumed_event_def new_event_def)
    show ?thesis
      using update [OF resumed_identity [of t q] e(1-3), of "resume_task env wid tid caller priority"] tx 4 e(3-5)
      by (auto simp: Let_def clock resumed_def)
  qed
qed

lemma resume_outcome_witness:
  "fst (run_tx (resume_task (env_at 3601000000 []) ''w'' ''task-1'' ''p'' None sample_paused) sample_paused)
     = Inl (Fleet PAUSE_TIMEOUT)"
proof -
  have "sequence_left sample_paused ''task-1''" "t_status sample_paused_task = PAUSED"
    "t_paused_at sample_paused_task = Some 6" "seconds 3600 = 3600000000"
    "t_workflow_id sample_paused_task = ''w''" "''p'' = t_principal sample_paused_task \<or> ''p'' = w_owner sample_workflow"
    by code_simp+
  moreover have "env_now (env_at 3601000000 []) = 3601000000"
    "fleet_pause_ttl_seconds (env_settings (env_at 3601000000 [])) = 3600"
    by (simp_all add: env_at_def sample_settings_def default_settings_def)
  ultimately show ?thesis
    using resume_outcome [OF reachable_paused sample_lookups(7) sample_lookups(8), of "''p''" "env_at 3601000000 []" None]
    by (simp add: Let_def)
qed

section \<open>Retask and redirect\<close>

text \<open>C28: Retasking. A completed or failed task below the depth limit, retasked by its principal or
  the workflow's owner with a fresh or no idempotency key, becomes RETASKED and gets one ACCEPTED
  successor: the original input overwritten by the additional input of the refinement, the same
  principal, executor, timeout and workflow, one level deeper in the same lineage, with the
  refinement as its metadata. Both rows are stored, and the log of the original says who retasked
  it and as which task.\<close>

theorem retask_outcome:
  assumes reach: "reachable cfg d" and "get_workflow d wid = Some w" and t: "get_task d tid = Some t"
    and "t_workflow_id t = wid" and "caller = t_principal t \<or> caller = w_owner w"
    and "t_status t \<in> {COMPLETED, FAILED}"
    and "t_lineage_depth t < fleet_lineage_max_depth (env_settings env)"
    and m: "merge_additional (t_input t) (dict_get refinement ''additional_input'') = Inr inp"
    and key: "key = None \<or> check_idempotency env d (the key) inp = Inr None"
    and q: "resolve_priority priority (t_priority t) = Inr q"
    and left: "sequence_left d tid"
    and ok: "successor_ok d t (successor env t inp q key [(''refinement'', JObj refinement)])"
  shows
    "let r = run_tx (retask_task env wid tid caller refinement priority key d) d;
         t' = t\<lparr>t_status := RETASKED, t_completed_at := Some (env_now_utc env)\<rparr>;
         n = successor env t inp q key [(''refinement'', JObj refinement)]
     in fst r = Inr (n, t', False) \<and> get_task (snd r) tid = Some t' \<and> get_task (snd r) (t_id n) = Some n
        \<and> (\<exists>e. task_events (snd r) tid = task_events d tid @ [e] \<and> e_type e = ''status''
               \<and> e_data e = Some [(''from_status'', JStr (status_value (t_status t))),
                    (''to_status'', JStr ''retasked''), (''retask_id'', JStr (t_id n)),
                    (''retasked_by'', JStr caller),
                    (''refinement_message'', dict_get refinement ''message'')])"
proof -
  define t' where "t' = t\<lparr>t_status := RETASKED, t_completed_at := Some (env_now_utc env)\<rparr>"
  define n where "n = successor env t inp q key [(''refinement'', JObj refinement)]"
  define e where "e = new_event tid ''status''
      (Some [(''from_status'', JStr (status_value (t_status t))), (''to_status'', JStr ''retasked''),
             (''retask_id'', JStr (t_id n)), (''retasked_by'', JStr caller),
             (''refinement_message'', dict_get refinement ''message'')])
      (max_sequence d tid + 1) (env_now env)"
  define c where "c = new_event (t_id n) ''created''
      (Some [(''status'', JStr ''accepted''), (''caller'', JStr (t_principal t)), (''retask_of'', JStr tid)])
      1 (env_now env)"
  note tx = retask_task_commit [OF assms(2-10), folded t'_def n_def, folded e_def c_def]
  have "same_identity t t'" "created_event (t_id n) c" "t_callback_url n = None"
    by (simp_all add: t'_def same_identity_def c_def created_event_def new_event_def n_def successor_def)
  with run_successor [OF reachable_inv [OF reach] t, of t' e n c "retask_task env wid tid caller refinement priority key"]
  show ?thesis
    using left ok tx successor_child [of t env inp q key]
    by (auto simp: Let_def n_def [symmetric] t'_def [symmetric]) (auto simp: e_def new_event_def n_def successor_def)
qed

lemma retask_outcome_witness:
  "\<exists>n. fst (run_tx (retask_task (env_at 9 ''2'') ''w'' ''task-1'' ''p'' [(''message'', JStr ''x'')] None None
              sample_completed) sample_completed)
     = Inr (n, sample_completed_task\<lparr>t_status := RETASKED, t_completed_at := Some 9\<rparr>, False)"
proof -
  have "sequence_left sample_completed ''task-1''" "t_status sample_completed_task \<in> {COMPLETED, FAILED}"
    "t_workflow_id sample_completed_task = ''w''"
    "''p'' = t_principal sample_completed_task \<or> ''p'' = w_owner sample_workflow"
    "merge_additional (t_input sample_completed_task) (dict_get [(''message'', JStr ''x'')] ''additional_input'')
       = Inr [(''n'', JInt 1)]"
    "resolve_priority None (t_priority sample_completed_task) = Inr NORMAL"
    "successor_ok sample_completed sample_completed_task (successor (env_at 9 ''2'') sample_completed_task
       [(''n'', JInt 1)] NORMAL None [(''refinement'', JObj [(''message'', JStr ''x'')])])"
    "t_lineage_depth sample_completed_task < fleet_lineage_max_depth (env_settings (env_at 9 ''2''))"
    by code_simp+
  moreover have "env_now_utc (env_at 9 ''2'') = 9" by (simp add: env_at_def)
  ultimately show ?thesis
    using retask_outcome [OF reachable_completed sample_lookups(3) sample_lookups(6),
        of "''p''" "env_at 9 ''2''" "[(''message'', JStr ''x'')]" "[(''n'', JInt 1)]" None None NORMAL]
    by (simp add: Let_def)
qed

text \<open>Redirecting. A running or paused task below the depth limit becomes REDIRECTED and gets one
  ACCEPTED successor with the new input (the old one is not merged), which inherits, only when
  asked, the progress and progress message of the original's metadata, next to the reason of the
  redirect.\<close>

theorem redirect_outcome:
  assumes reach: "reachable cfg d" and "get_workflow d wid = Some w" and t: "get_task d tid = Some t"
    and "t_workflow_id t = wid" and "caller = t_principal t \<or> caller = w_owner w"
    and "t_status t \<in> {RUNNING, PAUSED}"
    and "t_lineage_depth t < fleet_lineage_max_depth (env_settings env)"
    and key: "key = None \<or> check_idempotency env d (the key) inp = Inr None"
    and q: "resolve_priority priority (t_priority t) = Inr q"
    and left: "sequence_left d tid"
    and ok: "successor_ok d t (successor env t inp q key (redirect_metadata reason inherit (t_metadata t)))"
  shows
    "let r = run_tx (redirect_task env wid tid caller reason inp inherit priority key d) d;
         t' = t\<lparr>t_status := REDIRECTED, t_completed_at := Some (env_now_utc env)\<rparr>;
         md = redirect_metadata reason inherit (t_metadata t);
         n = successor env t inp q key md
     in fst r = Inr (n, t', False) \<and> get_task (snd r) tid = Some t' \<and> get_task (snd r) (t_id n) = Some n
        \<and> dict_get md ''redirect_reason'' = JStr reason
        \<and> dict_get md ''progress'' = (if inherit then meta_get_or (t_metadata t) ''progress'' JNull else JNull)
        \<and> dict_get md ''progress_message'' =
            (if inherit then meta_get_or (t_metadata t) ''progress_message'' JNull else JNull)
        \<and> (\<exists>e. task_events (snd r) tid = task_events d tid @ [e] \<and> e_type e = ''status''
               \<and> e_data e = Some [(''from_status'', JStr (status_value (t_status t))),
                    (''to_status'', JStr ''redirected''), (''reason'', JStr reason),
                    (''redirect_id'', JStr (t_id n)), (''redirected_by'', JStr caller)])"
proof -
  define t' where "t' = t\<lparr>t_status := REDIRECTED, t_completed_at := Some (env_now_utc env)\<rparr>"
  define md where "md = redirect_metadata reason inherit (t_metadata t)"
  define n where "n = successor env t inp q key md"
  define e where "e = new_event tid ''status''
      (Some [(''from_status'', JStr (status_value (t_status t))), (''to_status'', JStr ''redirected''),
             (''reason'', JStr reason), (''redirect_id'', JStr (t_id n)), (''redirected_by'', JStr caller)])
      (max_sequence d tid + 1) (env_now env)"
  define c where "c = new_event (t_id n) ''created''
      (Some [(''status'', JStr ''accepted''), (''caller'', JStr (t_principal t)), (''redirect_of'', JStr tid)])
      1 (env_now env)"
  have id: "t_id t = tid" using get_taskD [OF t] by simp
  have tx: "redirect_task env wid tid caller reason inp inherit priority key d =
      Commit \<lparr>uw_update = Some (t, t'), uw_tasks = [n], uw_events = [e, c]\<rparr>
        (\<lambda>d'. (refresh_task n d', refresh_task t' d', False))"
    using assms(2-9) id
    by (cases key)
       (auto simp: redirect_task_def transition_to_def validate_transition_def Let_def t'_def n_def e_def c_def
        md_def successor_def)
  have md: "dict_get md ''redirect_reason'' = JStr reason"
      "dict_get md ''progress'' = (if inherit then meta_get_or (t_metadata t) ''progress'' JNull else JNull)"
      "dict_get md ''progress_message'' =
            (if inherit then meta_get_or (t_metadata t) ''progress_message'' JNull else JNull)"
    by (auto simp: md_def redirect_metadata_def Let_def py_simps split: option.splits)
  have "same_identity t t'" "created_event (t_id n) c" "t_callback_url n = None"
    by (simp_all add: t'_def same_identity_def c_def created_event_def new_event_def n_def successor_def)
  with run_successor [OF reachable_inv [OF reach] t, of t' e n c
      "redirect_task env wid tid caller reason inp inherit priority key"]
  show ?thesis
    using left ok tx successor_child [of t env inp q key] md
    by (auto simp: Let_def n_def [symmetric] t'_def [symmetric] md_def [symmetric])
       (auto simp: e_def new_event_def n_def successor_def)
qed

lemma redirect_outcome_witness:
  "\<exists>n. fst (run_tx (redirect_task (env_at 9 ''2'') ''w'' ''task-1'' ''p'' ''why'' [] True None None
              sample_running) sample_running)
     = Inr (n, sample_running_task\<lparr>t_status := REDIRECTED, t_completed_at := Some 9\<rparr>, False)"
proof -
  have "sequence_left sample_running ''task-1''" "t_status sample_running_task \<in> {RUNNING, PAUSED}"
    "t_workflow_id sample_running_task = ''w''"
    "''p'' = t_principal sample_running_task \<or> ''p'' = w_owner sample_workflow"
    "resolve_priority None (t_priority sample_running_task) = Inr NORMAL"
    "successor_ok sample_running sample_running_task (successor (env_at 9 ''2'') sample_running_task
       [] NORMAL None (redirect_metadata ''why'' True (t_metadata sample_running_task)))"
    "t_lineage_depth sample_running_task < fleet_lineage_max_depth (env_settings (env_at 9 ''2''))"
    by code_simp+
  moreover have "env_now_utc (env_at 9 ''2'') = 9" by (simp add: env_at_def)
  ultimately show ?thesis
    using redirect_outcome [OF reachable_running sample_lookups(2) sample_lookups(5),
        of "''p''" "env_at 9 ''2''" None "[]" None NORMAL "''why''" True]
    by (simp add: Let_def)
qed

end
