(* ===== verification/Props_History.thy ===== *)
theory Props_History
  imports Samples
begin

text \<open>
  What every run of the server keeps: statuses move along the transition table, the log of a task
  is append-only with increasing sequence numbers, lineage chains are complete, and only the
  parties of a task can change it.
\<close>

lemma sample_history: "(server_step sample_settings)\<^sup>*\<^sup>* sample_running sample_completed"
  using sample_steps(3) by blast

section \<open>Statuses and logs\<close>

text \<open>C4: In every run, a stored task is never lost and never changes its identity (workflow,
  principal, executor, input, lineage, ...); its status moves only along VALID_TRANSITIONS; a
  terminal task stays terminal; a cancelled, retasked or redirected one keeps its status for ever;
  and no task becomes ACCEPTED again.\<close>

theorem status_history:
  assumes "reachable cfg d" and "(server_step cfg)\<^sup>*\<^sup>* d d'" and "get_task d k = Some t"
  shows "\<exists>t'. get_task d' k = Some t' \<and> same_identity t t' \<and> status_steps (t_status t) (t_status t')
           \<and> (is_terminal (t_status t) \<longrightarrow> is_terminal (t_status t'))
           \<and> (t_status t \<in> {CANCELLED, RETASKED, REDIRECTED} \<longrightarrow> t_status t' = t_status t)
           \<and> (t_status t \<noteq> ACCEPTED \<longrightarrow> t_status t' \<noteq> ACCEPTED)"
proof -
  from reachable_later [OF assms(1,2)] assms(3) obtain t' where
    t': "get_task d' k = Some t'" "same_identity t t'" "status_steps (t_status t) (t_status t')"
    unfolding later_def by blast
  moreover have "t_status t' \<noteq> ACCEPTED" if "t_status t \<noteq> ACCEPTED"
    using t'(3) that never_accepted_again by (metis rtranclp.cases)
  ultimately show ?thesis using terminal_closed final_steps by blast
qed

lemma status_history_witness:
  "\<exists>t'. get_task sample_completed ''task-1'' = Some t' \<and> status_steps RUNNING (t_status t')"
proof -
  have "t_status sample_running_task = RUNNING" by code_simp
  then show ?thesis
    using status_history [OF reachable_running sample_history sample_lookups(5)] by auto
qed

text \<open>The completion time of a stored task is set exactly when its status is terminal.\<close>

theorem completed_at_iff_terminal:
  assumes "reachable cfg d" and "get_task d k = Some t"
  shows "t_completed_at t \<noteq> None \<longleftrightarrow> is_terminal (t_status t)"
  using reachable_inv [OF assms(1)] get_taskD [OF assms(2)] by (auto simp: db_inv_def task_inv_def)

lemma completed_at_iff_terminal_witness:
  "t_completed_at sample_completed_task \<noteq> None \<longleftrightarrow> is_terminal (t_status sample_completed_task)"
  by (rule completed_at_iff_terminal [OF reachable_completed sample_lookups(6)])

text \<open>C5: The event log of a task is append-only. It starts with the created event of the task,
  numbered 1; the sequence numbers strictly increase along it; and whatever the server does later,
  the log seen now is an initial part of the log then.\<close>

theorem log_history:
  assumes "reachable cfg d" and "(server_step cfg)\<^sup>*\<^sup>* d d'"
  shows "prefix (task_events d k) (task_events d' k)
         \<and> sorted_wrt (<) (map e_sequence (task_events d' k))
         \<and> (get_task d' k \<noteq> None \<longrightarrow> (\<exists>e es. task_events d' k = e # es \<and> created_event k e))"
proof -
  have inv: "log_inv d'"
    using server.steps_inv [OF assms(2) reachable_inv [OF assms(1)]] by (simp add: db_inv_def)
  have sorted: "sorted_wrt (<) (map e_sequence (task_events d' k))"
    using inv by (simp add: log_inv_def)
  have "\<exists>e es. task_events d' k = e # es \<and> created_event k e" if t: "get_task d' k = Some t" for t
  proof -
    obtain c where c: "c \<in> set (db_events d')" "created_event k c"
      using inv get_taskD [OF t] by (auto simp: log_inv_def)
    then have mem: "c \<in> set (task_events d' k)"
      by (auto simp: task_events_def created_event_def)
    then obtain e es where log: "task_events d' k = e # es" by (cases "task_events d' k") auto
    have "1 \<le> e_sequence e"
      using inv log by (auto simp: log_inv_def task_events_def filter_eq_Cons_iff)
    moreover have "c = e \<or> e_sequence e < e_sequence c"
      using mem sorted by (auto simp: log)
    ultimately have "c = e" using c(2) by (auto simp: created_event_def)
    then show ?thesis using log c(2) by blast
  qed
  then show ?thesis
    using sorted reachable_later [OF assms] by (auto simp: later_def)
qed

lemma log_history_witness:
  "prefix (task_events sample_running ''task-1'') (task_events sample_completed ''task-1'')"
  using log_history [OF reachable_running sample_history] by blast

section \<open>Lineage\<close>

lemma lineage_row:
  assumes "db_inv mx d" and "get_task d k = Some t"
  shows "0 \<le> t_lineage_depth t \<and> t_lineage_depth t \<le> max 0 mx \<and>
         (case t_parent t of
            None \<Rightarrow> t_root t = None \<and> t_lineage_depth t = 0
          | Some p \<Rightarrow> (\<exists>q. get_task d p = Some q \<and> child_of q t \<and> superseded (t_status q)))"
  using assms(1) get_taskD [OF assms(2)] unfolding db_inv_def lineage_inv_def by blast

lemma parent_task:
  assumes "db_inv mx d" and "get_task d k = Some t" and "t_parent t = Some p"
  shows "\<exists>q. get_task d p = Some q \<and> child_of q t \<and> superseded (t_status q)"
  using lineage_row [OF assms(1,2)] assms(3) by simp

lemma root_depth:
  assumes "db_inv mx d" and "get_task d k = Some t" and "t_parent t = None"
  shows "t_lineage_depth t = 0 \<and> t_root t = None"
  using lineage_row [OF assms(1,2)] assms(3) by simp

lemma str_or_root:
  assumes "db_inv mx d" and "get_task d k = Some t"
  shows "str_or (t_root t) (t_id t) \<noteq> []"
  using assms get_taskD [OF assms(2)]
  by (auto simp: db_inv_def task_inv_def str_or_def split: option.splits)

text \<open>A chain of tasks, each the superseded parent of the next.\<close>

definition linked :: "db \<Rightarrow> string \<Rightarrow> string \<Rightarrow> bool" where
  "linked d a b = (\<exists>p q. get_task d a = Some p \<and> get_task d b = Some q \<and> child_of p q \<and> superseded (t_status p))"

fun chain_of :: "db \<Rightarrow> string list \<Rightarrow> bool" where
  "chain_of d (a # b # cs) = (linked d a b \<and> chain_of d (b # cs))"
| "chain_of d _ = True"

lemma chain_of_snoc: "chain_of d (as @ [a]) \<Longrightarrow> linked d a b \<Longrightarrow> chain_of d (as @ [a, b])"
  by (induction as rule: induct_list012) auto

lemma lineage_chain_induct:
  assumes inv: "db_inv mx d"
  shows "get_task d k = Some t \<Longrightarrow> nat (t_lineage_depth t) = n \<Longrightarrow>
     (let c = rev (t_id t # walk_parents d n (t_parent t))
      in length c = n + 1 \<and> chain_of d c \<and> hd c = str_or (t_root t) (t_id t))"
proof (induction n arbitrary: k t)
  case 0
  have "t_parent t = None"
  proof (rule ccontr)
    assume "t_parent t \<noteq> None"
    then obtain p q where q: "get_task d p = Some q" "child_of q t"
      using parent_task [OF inv 0(1)] by blast
    have "0 \<le> t_lineage_depth q" using lineage_row [OF inv q(1)] by blast
    then show False using q(2) 0(2) by (simp add: child_of_def)
  qed
  then show ?case using root_depth [OF inv 0(1)] by simp
next
  case (Suc n)
  have "t_parent t \<noteq> None"
  proof
    assume "t_parent t = None"
    then show False using root_depth [OF inv Suc.prems(1)] Suc.prems(2) by simp
  qed
  then obtain p q where p: "t_parent t = Some p" and q: "get_task d p = Some q" "child_of q t" "superseded (t_status q)"
    using parent_task [OF inv Suc.prems(1)] by blast
  have ids: "t_id q = p" "t_id t = k" using get_taskD q(1) Suc.prems(1) by auto
  have "nat (t_lineage_depth q) = n" using q(2) Suc.prems(2) by (auto simp: child_of_def)
  note IH = Suc.IH [OF q(1) this]
  have c: "rev (t_id t # walk_parents d (Suc n) (t_parent t))
           = rev (t_id q # walk_parents d n (t_parent q)) @ [t_id t]"
    by (simp add: p q(1))
  have "linked d (t_id q) (t_id t)"
    using q Suc.prems(1) ids by (auto simp: linked_def)
  then have "chain_of d (rev (t_id t # walk_parents d (Suc n) (t_parent t)))"
    using IH chain_of_snoc [of d "rev (walk_parents d n (t_parent q))" "t_id q" "t_id t"]
    unfolding c by (simp add: Let_def)
  moreover have "hd (rev (t_id t # walk_parents d (Suc n) (t_parent t))) = str_or (t_root q) (t_id q)"
    using IH unfolding c Let_def by (subst hd_append2) auto
  moreover have "str_or (t_root t) (t_id t) = str_or (t_root q) (t_id q)"
    using q(2) str_or_root [OF inv q(1)] by (auto simp: child_of_def str_or_def split: if_splits)
  moreover have "length (rev (t_id t # walk_parents d (Suc n) (t_parent t))) = Suc n + 1"
    using IH unfolding c Let_def by simp
  ultimately show ?case by (simp only: Let_def)
qed

text \<open>C24: The lineage chain of a stored task is complete. It has one entry more than the lineage
  depth, runs from the root task of the lineage to the task itself, each entry is the parent of
  the next (one level deeper, the same workflow, principal and executor) and has been retasked or
  redirected; and the depth never exceeds the configured maximum.\<close>

theorem lineage_chain:
  assumes "reachable cfg d" and "get_task d k = Some t"
  shows "let c = build_lineage_chain d t
         in length c = nat (t_lineage_depth t) + 1 \<and> last c = t_id t
            \<and> hd c = str_or (t_root t) (t_id t) \<and> chain_of d c
            \<and> 0 \<le> t_lineage_depth t \<and> t_lineage_depth t \<le> max 0 (fleet_lineage_max_depth cfg)"
  using lineage_chain_induct [OF reachable_inv [OF assms(1)] assms(2) refl]
    lineage_row [OF reachable_inv [OF assms(1)] assms(2)]
  by (simp add: build_lineage_chain_def Let_def)

lemma lineage_chain_witness:
  "hd (build_lineage_chain sample_retasked sample_successor) = ''task-1''"
proof -
  have "str_or (t_root sample_successor) (t_id sample_successor) = ''task-1''" by code_simp
  then show ?thesis
    using lineage_chain [OF reachable_retasked sample_lookups(9)] by (simp add: Let_def)
qed



section \<open>Who can change what\<close>

text \<open>The calls a principal makes on a task: the workflow, the task and the caller.\<close>

fun principal_call :: "call \<Rightarrow> (string \<times> string \<times> string) option" where
  "principal_call (CancelTask wid tid caller reason) = Some (wid, tid, caller)"
| "principal_call (RetaskTask wid tid caller refinement prio key) = Some (wid, tid, caller)"
| "principal_call (RedirectTask wid tid caller reason inp inh prio key) = Some (wid, tid, caller)"
| "principal_call (PauseTask wid tid caller reason) = Some (wid, tid, caller)"
| "principal_call (ResumeTask wid tid caller prio) = Some (wid, tid, caller)"
| "principal_call (InjectContext wid tid caller ct payload sq urg) = Some (wid, tid, caller)"
| "principal_call _ = None"

text \<open>Cancel, retask, redirect, pause, resume and context injection change the database only
  when the task exists in the named workflow and the caller is the task's principal or the
  workflow's owner; and they leave every other stored task as it was.\<close>

theorem principal_calls_authorised:
  assumes "principal_call c = Some (wid, tid, caller)"
  shows "(handle validate env c d \<noteq> d \<longrightarrow>
            (\<exists>w t. get_workflow d wid = Some w \<and> get_task d tid = Some t \<and> t_workflow_id t = wid
                   \<and> (caller = t_principal t \<or> caller = w_owner w)))
         \<and> (\<forall>k t. k \<noteq> tid \<longrightarrow> get_task d k = Some t \<longrightarrow> get_task (handle validate env c d) k = Some t)"
proof -
  have only: "handle validate env c d \<noteq> d \<Longrightarrow>
            \<exists>w t. get_workflow d wid = Some w \<and> get_task d tid = Some t \<and> t_workflow_id t = wid
                   \<and> (caller = t_principal t \<or> caller = w_owner w)"
    using assms
    by (cases c)
       (simp_all only: handle.simps principal_call.simps option.inject prod.inject option.distinct,
        (metis cancel_op.only_principal retask_op.only_principal redirect_op.only_principal
          pause_op.only_principal resume_op.only_principal inject_op.only_principal)+)
  have other: "k \<noteq> tid \<Longrightarrow> get_task d k = Some t \<Longrightarrow> get_task (handle validate env c d) k = Some t" for k t
    using assms
    by (cases c)
       (simp_all only: handle.simps principal_call.simps option.inject prod.inject option.distinct,
        (metis cancel_op.other_tasks retask_op.other_tasks redirect_op.other_tasks
          pause_op.other_tasks resume_op.other_tasks inject_op.other_tasks)+)
  show ?thesis using only other by blast
qed

lemma principal_calls_authorised_witness:
  "\<exists>w t. get_workflow sample_running ''w'' = Some w \<and> get_task sample_running ''task-1'' = Some t
         \<and> t_workflow_id t = ''w'' \<and> (''p'' = t_principal t \<or> ''p'' = w_owner w)"
proof -
  have "handle any_input (env_at 6 []) (PauseTask ''w'' ''task-1'' ''p'' None) sample_running \<noteq> sample_running"
    by code_simp
  then show ?thesis
    using principal_calls_authorised [of "PauseTask ''w'' ''task-1'' ''p'' None" "''w''" "''task-1''" "''p''"]
    by (metis principal_call.simps(4))
qed

text \<open>An event posted by a sidecar changes the database only when the poster is the executor the
  task is assigned to, and never touches another stored task.\<close>

theorem sidecar_authorised:
  "(handle validate env (SidecarEvent tid ty data sq ex) d \<noteq> d \<longrightarrow>
      (\<exists>t. get_task d tid = Some t \<and> t_executor t = Some ex))
   \<and> (\<forall>k t. k \<noteq> tid \<longrightarrow> get_task d k = Some t \<longrightarrow>
        get_task (handle validate env (SidecarEvent tid ty data sq ex) d) k = Some t)"
  using sidecar_op.only_executor sidecar_op.other_tasks by (metis handle.simps(13))

lemma sidecar_authorised_witness:
  "\<exists>t. get_task sample_accepted ''task-1'' = Some t \<and> t_executor t = Some ''p''"
proof -
  have "sample_running \<noteq> sample_accepted" by code_simp
  then show ?thesis
    using sidecar_authorised [of any_input "env_at 4 []" "''task-1''" "''status''" "[(''status'', JStr ''running'')]" 2
        "''p''" sample_accepted] sample_run4
    by metis
qed

text \<open>The calls on agents and workflows.\<close>

fun registry_call :: "call \<Rightarrow> bool" where
  "registry_call (RegisterAgent _) = True"
| "registry_call (Heartbeat _ _) = True"
| "registry_call (Sweep _) = True"
| "registry_call (CreateWorkflow _ _ _) = True"
| "registry_call (UpdateWorkflow _ _ _) = True"
| "registry_call _ = False"

text \<open>Registration, heartbeats, the sweep of the heartbeat monitor and workflow changes never
  touch a task or an event, whatever their status: marking an agent unreachable does not cancel
  or fail its tasks. And task operations never touch an agent or a workflow.\<close>

theorem registry_and_tasks_separate:
  "if registry_call c
   then db_tasks (handle validate env c d) = db_tasks d \<and> db_events (handle validate env c d) = db_events d
   else db_agents (handle validate env c d) = db_agents d
        \<and> db_workflows (handle validate env c d) = db_workflows d"
  by (cases c)
     (simp_all add: register_op.tasks_kept register_op.log_kept heartbeat_op.tasks_kept heartbeat_op.log_kept
        sweep_op.tasks_kept sweep_op.log_kept create_workflow_op.tasks_kept create_workflow_op.log_kept
        update_workflow_op.tasks_kept update_workflow_op.log_kept create_op.run_frame cancel_op.run_frame
        retask_op.run_frame redirect_op.run_frame pause_op.run_frame resume_op.run_frame inject_op.run_frame
        sidecar_op.run_frame)

end
