(* ===== verification/Json_Reader.thy ===== *)
theory Json_Reader
  imports Json
begin

text \<open>
  \<open>json.loads\<close>: the scanner of Python's \<open>json\<close> module over the values of \<open>Json\<close>. Of equal keys of an
  object the last value counts. The numbers of the model are integers and its characters the code
  points below 256; a literal with a fraction or an exponent, \<open>NaN\<close>, \<open>Infinity\<close> and a larger \<open>\u\<close>
  escape lie outside of it and read as None, like the errors. What \<open>json_dumps\<close> writes is read
  back (\<open>json_loads_dumps\<close>).
\<close>

section \<open>Tokens\<close>

definition json_space :: "char \<Rightarrow> bool" where
  "json_space c = (c = CHR 0x20 \<or> c = CHR 0x09 \<or> c = CHR 0x0A \<or> c = CHR 0x0D)"

definition skip_space :: "string \<Rightarrow> string" where
  "skip_space s = dropWhile json_space s"

definition hex_value :: "char \<Rightarrow> nat option" where
  "hex_value c =
     (let n = of_char c :: nat in
      if 48 \<le> n \<and> n \<le> 57 then Some (n - 48)
      else if 97 \<le> n \<and> n \<le> 102 then Some (n - 87)
      else if 65 \<le> n \<and> n \<le> 70 then Some (n - 55)
      else None)"

definition hex4 :: "char \<Rightarrow> char \<Rightarrow> char \<Rightarrow> char \<Rightarrow> nat option" where
  "hex4 a b c d =
     (case (hex_value a, hex_value b, hex_value c, hex_value d) of
        (Some i, Some j, Some k, Some l) \<Rightarrow> Some (((i * 16 + j) * 16 + k) * 16 + l)
      | _ \<Rightarrow> None)"

definition unescape :: "char \<Rightarrow> char option" where
  "unescape c =
     (if c = CHR 0x22 \<or> c = CHR 0x5C \<or> c = CHR ''/'' then Some c
      else if c = CHR ''n'' then Some (CHR 0x0A)
      else if c = CHR ''r'' then Some (CHR 0x0D)
      else if c = CHR ''t'' then Some (CHR 0x09)
      else if c = CHR ''f'' then Some (CHR 0x0C)
      else if c = CHR ''b'' then Some (CHR 0x08)
      else None)"

definition cons_result :: "'a \<Rightarrow> ('a list \<times> string) option \<Rightarrow> ('a list \<times> string) option" where
  "cons_result x r = map_option (\<lambda>(xs, rest). (x # xs, rest)) r"

text \<open>The rest of a string literal, after its opening quote.\<close>

function read_chars :: "string \<Rightarrow> (string \<times> string) option" where
  "read_chars [] = None"
| "read_chars (c # cs) =
     (if c = CHR 0x22 then Some ([], cs)
      else if c = CHR 0x5C then
        (case cs of
           [] \<Rightarrow> None
         | e # cs1 \<Rightarrow>
             if e = CHR ''u'' then
               (case cs1 of
                  h1 # h2 # h3 # h4 # rest \<Rightarrow>
                    (case hex4 h1 h2 h3 h4 of
                       None \<Rightarrow> None
                     | Some n \<Rightarrow> if n < 256 then cons_result (char_of n) (read_chars rest) else None)
                | _ \<Rightarrow> None)
             else
               (case unescape e of
                  None \<Rightarrow> None
                | Some u \<Rightarrow> cons_result u (read_chars cs1)))
      else if (of_char c :: nat) < 32 then None
      else cons_result c (read_chars cs))"
  by pat_completeness auto
termination by (relation "measure length") auto

definition is_digit :: "char \<Rightarrow> bool" where
  "is_digit c = (let n = of_char c :: nat in 48 \<le> n \<and> n \<le> 57)"

definition digits_value :: "string \<Rightarrow> int" where
  "digits_value ds = fold (\<lambda>c n. n * 10 + (of_char c - 48)) ds 0"

definition floating :: "string \<Rightarrow> bool" where
  "floating s =
     (case s of
        c # d # rest \<Rightarrow>
          c = CHR ''.'' \<and> is_digit d
          \<or> (c = CHR ''e'' \<or> c = CHR ''E'')
            \<and> (is_digit d \<or> (d = CHR ''-'' \<or> d = CHR ''+'') \<and> rest \<noteq> [] \<and> is_digit (hd rest))
      | _ \<Rightarrow> False)"

definition read_nat :: "string \<Rightarrow> (int \<times> string) option" where
  "read_nat s =
     (case s of
        [] \<Rightarrow> None
      | c # cs \<Rightarrow>
          if \<not> is_digit c then None
          else
            (let ds = (if c = CHR ''0'' then [c] else takeWhile is_digit s);
                 rest = drop (length ds) s
             in if floating rest then None else Some (digits_value ds, rest)))"

definition read_number :: "string \<Rightarrow> (int \<times> string) option" where
  "read_number s =
     (case s of
        [] \<Rightarrow> None
      | c # cs \<Rightarrow>
          if c = CHR ''-'' then map_option (\<lambda>(n, rest). (- n, rest)) (read_nat cs) else read_nat s)"

section \<open>Values\<close>

definition literal_value :: "string \<Rightarrow> (json \<times> string) option" where
  "literal_value s =
     (if take 4 s = ''null'' then Some (JNull, drop 4 s)
      else if take 4 s = ''true'' then Some (JBool True, drop 4 s)
      else if take 5 s = ''false'' then Some (JBool False, drop 5 s)
      else map_option (\<lambda>(n, rest). (JInt n, rest)) (read_number s))"

definition dict_of_pairs :: "(string \<times> json) list \<Rightarrow> dict" where
  "dict_of_pairs ps = dict_update [] ps"

text \<open>
  A value; the items of a list from one value on; the items of an object from one key on. The
  comparisons of lengths make the recursion visibly well-founded and always hold
  (\<open>read_shorter\<close>).
\<close>

function (sequential)
  read_value :: "string \<Rightarrow> (json \<times> string) option"
  and read_items :: "string \<Rightarrow> (json list \<times> string) option"
  and read_pairs :: "string \<Rightarrow> ((string \<times> json) list \<times> string) option"
where
  "read_value [] = None"
| "read_value (c # cs) =
     (if c = CHR 0x22 then map_option (\<lambda>(s, rest). (JStr s, rest)) (read_chars cs)
      else if c = CHR ''['' then
        (case skip_space cs of
           [] \<Rightarrow> None
         | d # rest \<Rightarrow>
             if d = CHR '']'' then Some (JArr [], rest)
             else if length (d # rest) \<le> length cs
             then map_option (\<lambda>(xs, r). (JArr xs, r)) (read_items (d # rest))
             else None)
      else if c = CHR ''{'' then
        (case skip_space cs of
           [] \<Rightarrow> None
         | d # rest \<Rightarrow>
             if d = CHR ''}'' then Some (JObj [], rest)
             else if length (d # rest) \<le> length cs
             then map_option (\<lambda>(ps, r). (JObj (dict_of_pairs ps), r)) (read_pairs (d # rest))
             else None)
      else literal_value (c # cs))"
| "read_items s =
     (case read_value s of
        None \<Rightarrow> None
      | Some (v, r) \<Rightarrow>
     (case skip_space r of
        [] \<Rightarrow> None
      | d # rest \<Rightarrow>
          if d = CHR '']'' then Some ([v], rest)
          else if d = CHR '','' \<and> length (skip_space rest) < length s
          then cons_result v (read_items (skip_space rest))
          else None))"
| "read_pairs [] = None"
| "read_pairs (c # cs) =
     (if c \<noteq> CHR 0x22 then None
      else
     (case read_chars cs of
        None \<Rightarrow> None
      | Some (k, r) \<Rightarrow>
     (case skip_space r of
        [] \<Rightarrow> None
      | d # r1 \<Rightarrow>
     if d \<noteq> CHR '':'' \<or> length (skip_space r1) > length cs then None
     else
     (case read_value (skip_space r1) of
        None \<Rightarrow> None
      | Some (v, r2) \<Rightarrow>
     (case skip_space r2 of
        [] \<Rightarrow> None
      | e # rest \<Rightarrow>
          if e = CHR ''}'' then Some ([(k, v)], rest)
          else if e = CHR '','' \<and> length (skip_space rest) \<le> length cs
          then cons_result (k, v) (read_pairs (skip_space rest))
          else None)))))"
  by pat_completeness auto
termination
  by (relation "measure (\<lambda>x. case x of Inl s \<Rightarrow> 2 * length s | Inr (Inl s) \<Rightarrow> 2 * length s + 1
        | Inr (Inr s) \<Rightarrow> 2 * length s + 1)") auto

definition json_loads :: "string \<Rightarrow> json option" where
  "json_loads s =
     (case read_value (skip_space s) of
        None \<Rightarrow> None
      | Some (v, rest) \<Rightarrow> if skip_space rest = [] then Some v else None)"

declare read_chars.simps [simp del] read_value.simps [simp del] read_items.simps [simp del] read_pairs.simps [simp del]

section \<open>Every reader consumes\<close>

lemma skip_space_length: "length (skip_space s) \<le> length s"
  by (simp add: skip_space_def length_dropWhile_le)

lemma cons_result_Some: "cons_result x r = Some (ys, rest) \<longleftrightarrow> (\<exists>xs. r = Some (xs, rest) \<and> ys = x # xs)"
  by (auto simp: cons_result_def)

lemma read_chars_shorter: "read_chars s = Some (x, r) \<Longrightarrow> length r < length s"
  by (induction s arbitrary: x rule: read_chars.induct)
     (fastforce simp: read_chars.simps cons_result_Some split: if_splits list.splits option.splits)+

lemma read_nat_shorter: "read_nat s = Some (n, r) \<Longrightarrow> length r < length s"
  by (auto simp: read_nat_def Let_def split: list.splits if_splits)

lemma literal_value_shorter: "literal_value s = Some (v, r) \<Longrightarrow> length r < length s"
  by (cases s)
     (auto simp: literal_value_def read_number_def split: if_splits dest: read_nat_shorter)

lemma read_shorter:
  "read_value s = Some (v, r) \<Longrightarrow> length r < length s"
  "read_items s = Some (vs, r) \<Longrightarrow> length r < length s"
  "read_pairs s = Some (ps, r) \<Longrightarrow> length r < length s"
proof (induction s and s and s arbitrary: v r and vs r and ps r rule: read_value_read_items_read_pairs.induct)
  case (2 c cs)
  consider (str) "c = CHR 0x22" | (arr) "c = CHR ''[''" | (obj) "c = CHR ''{''"
    | (lit) "c \<noteq> CHR 0x22" "c \<noteq> CHR ''[''" "c \<noteq> CHR ''{''" by blast
  then show ?case
  proof cases
    case str
    then show ?thesis using 2(3) read_chars_shorter by (fastforce simp: read_value.simps)
  next
    case arr
    with 2(3) obtain d rest where d: "skip_space cs = d # rest"
      by (cases "skip_space cs") (simp_all add: read_value.simps)
    then have len: "length rest < length cs" using skip_space_length [of cs] by simp
    show ?thesis
    proof (cases "d = CHR '']''")
      case True
      then show ?thesis using 2(3) arr d len by (auto simp: read_value.simps)
    next
      case False
      then obtain xs where "read_items (d # rest) = Some (xs, r)"
        using 2(3) arr d by (auto simp: read_value.simps split: if_splits)
      then show ?thesis using 2(1) [OF _ arr d False] len arr by simp
    qed
  next
    case obj
    with 2(3) obtain d rest where d: "skip_space cs = d # rest"
      by (cases "skip_space cs") (simp_all add: read_value.simps)
    then have len: "length rest < length cs" using skip_space_length [of cs] by simp
    show ?thesis
    proof (cases "d = CHR ''}''")
      case True
      then show ?thesis using 2(3) obj d len by (auto simp: read_value.simps)
    next
      case False
      then obtain xs where "read_pairs (d # rest) = Some (xs, r)"
        using 2(3) obj d by (auto simp: read_value.simps split: if_splits)
      then show ?thesis using 2(2) [OF _ _ obj d False] len obj by simp
    qed
  next
    case lit
    then show ?thesis using 2(3) literal_value_shorter [of "c # cs"] by (simp add: read_value.simps)
  qed
next
  case (3 s)
  obtain v0 r0 where v0: "read_value s = Some (v0, r0)"
    using 3(3) by (cases "read_value s") (auto simp: read_items.simps)
  then obtain d rest where d: "skip_space r0 = d # rest"
    using 3(3) by (cases "skip_space r0") (auto simp: read_items.simps)
  have len: "length rest < length s" using 3(1) [OF v0] skip_space_length [of r0] d by simp
  show ?case
  proof (cases "d = CHR '']''")
    case True
    then show ?thesis using 3(3) v0 d len by (auto simp: read_items.simps)
  next
    case False
    then have c: "d = CHR '','' \<and> length (skip_space rest) < length s"
      using 3(3) v0 d by (auto simp: read_items.simps split: if_splits)
    then obtain xs where "read_items (skip_space rest) = Some (xs, r)"
      using 3(3) v0 d False by (auto simp: read_items.simps cons_result_Some)
    then show ?thesis using 3(2) [OF v0 refl d False c] c by simp
  qed
next
  case (5 c cs)
  obtain k r0 where k: "c = CHR 0x22" "read_chars cs = Some (k, r0)"
    using 5(3) by (cases "read_chars cs") (auto simp: read_pairs.simps split: if_splits)
  then obtain d r1 where d: "skip_space r0 = d # r1"
    using 5(3) by (cases "skip_space r0") (auto simp: read_pairs.simps)
  with 5(3) k have colon: "d = CHR '':''" "length (skip_space r1) \<le> length cs"
    by (auto simp: read_pairs.simps split: if_splits)
  then obtain v2 r2 where v2: "read_value (skip_space r1) = Some (v2, r2)"
    using 5(3) k d by (cases "read_value (skip_space r1)") (auto simp: read_pairs.simps)
  then obtain e rest where e: "skip_space r2 = e # rest"
    using 5(3) k d colon by (cases "skip_space r2") (auto simp: read_pairs.simps)
  have "length r2 < length cs"
    using 5(1) [OF _ k(2) refl d _ v2] k colon by simp
  then have len: "length rest < length cs" using skip_space_length [of r2] e by simp
  show ?case
  proof (cases "e = CHR ''}''")
    case True
    then show ?thesis using 5(3) k d colon v2 e len by (auto simp: read_pairs.simps)
  next
    case False
    then have c: "e = CHR '','' \<and> length (skip_space rest) \<le> length cs"
      using 5(3) k d colon v2 e by (auto simp: read_pairs.simps split: if_splits)
    then obtain xs where "read_pairs (skip_space rest) = Some (xs, r)"
      using 5(3) k d colon v2 e False by (auto simp: read_pairs.simps cons_result_Some)
    then show ?thesis using 5(2) [OF _ k(2) refl d _ v2 refl e False c] c k colon by simp
  qed
qed (simp_all add: read_value.simps read_pairs.simps)

section \<open>Reading what was written\<close>

subsection \<open>Strings\<close>

lemma char_eq_code: "c = d \<longleftrightarrow> (of_char c :: nat) = of_char d"
  by (metis char_of_char)

lemma hex_value_digit [simp]: "k < 16 \<Longrightarrow> hex_value (hex_digit k) = Some k"
  by (auto simp: hex_value_def hex_digit_def Let_def of_char_of)

lemma of_char_bound: "(of_char c :: nat) < 256"
  using of_char_of [of "of_char c :: nat"] by (metis char_of_char mod_less_divisor zero_less_numeral)

lemma hex4_byte: "hex4 (CHR ''0'') (CHR ''0'') (hex_digit (of_char c div 16)) (hex_digit (of_char c mod 16)) = Some (of_char c)"
proof -
  have "(of_char c :: nat) div 16 < 16" 
    using of_char_bound [of c] by (intro less_mult_imp_div_less) simp
  then show ?thesis by (simp add: hex4_def) (simp add: hex_value_def)
qed

lemma char_codes [simp]: "char_of (92::nat) = CHR 0x5C" "char_of (34::nat) = CHR 0x22"
  by code_simp+

lemma read_escape: "read_chars (json_escape c @ t) = cons_result c (read_chars t)"
proof -
  let ?n = "of_char c :: nat"
  consider "c = CHR 0x22" | "c = CHR 0x5C" | "c = CHR 0x0A" | "c = CHR 0x0D" | "c = CHR 0x09"
    | "c = CHR 0x0C" | "c = CHR 0x08"
    | (plain) "32 \<le> ?n" "?n < 127" "?n \<noteq> 34" "?n \<noteq> 92"
    | (hex) "?n \<noteq> 34" "?n \<noteq> 92" "?n \<noteq> 10" "?n \<noteq> 13" "?n \<noteq> 9" "?n \<noteq> 12" "?n \<noteq> 8" "\<not> (32 \<le> ?n \<and> ?n < 127)"
    unfolding char_eq_code by simp linarith
  then show ?thesis
  proof cases
    case plain
    then have "json_escape c = [c]" by (simp add: json_escape_def Let_def)
    then show ?thesis using plain by (simp add: read_chars.simps(2) char_eq_code)
  next
    case hex
    then have esc: "json_escape c = [CHR 0x5C, CHR ''u'', CHR ''0'', CHR ''0'', hex_digit (?n div 16), hex_digit (?n mod 16)]"
      by (simp add: json_escape_def Let_def char_eq_code)
    show ?thesis
      unfolding esc by (subst append_Cons, subst read_chars.simps) (simp add: hex4_byte of_char_bound)
  qed (simp_all add: json_escape_def read_chars.simps(2) unescape_def)
qed

lemma read_string: "read_chars (concat (map json_escape s) @ CHR 0x22 # rest) = Some (s, rest)"
  by (induction s) (simp_all add: read_escape cons_result_def read_chars.simps)

subsection \<open>Numbers\<close>

lemma is_digit_digit [simp]: "k < 10 \<Longrightarrow> is_digit (digit k)"
  by (simp add: is_digit_def digit_def of_char_of)

lemma of_char_digit [simp]: "k < 10 \<Longrightarrow> (of_char (digit k) :: nat) = 48 + k"
  by (simp add: digit_def of_char_of)

lemma nat_str_digits: "c \<in> set (nat_str n) \<Longrightarrow> is_digit c"
  by (induction n rule: nat_str.induct) (subst (asm) (2) nat_str.simps, auto split: if_splits)

lemma nat_str_nonempty [simp]: "nat_str n \<noteq> []"
  by (subst nat_str.simps) simp

lemma nat_str_head: "0 < n \<Longrightarrow> hd (nat_str n) \<noteq> CHR ''0''"
proof (induction n rule: nat_str.induct)
  case (1 n)
  show ?case
  proof (cases "n < 10")
    case True
    then have "digit n \<noteq> CHR ''0''" using 1(2) of_char_digit [of n] by force
    then show ?thesis using True by (subst nat_str.simps) simp
  next
    case False
    then show ?thesis using 1 by (subst nat_str.simps) simp
  qed
qed

lemma digits_value_snoc: "digits_value (ds @ [c]) = digits_value ds * 10 + (of_char c - 48)"
  by (simp add: digits_value_def)

lemma nat_str_value: "digits_value (nat_str n) = int n"
proof (induction n rule: nat_str.induct)
  case (1 n)
  have code: "(of_char (digit k) :: int) = 48 + int k" if "k < 10" for k
    using of_char_digit [OF that] by (metis of_nat_add of_nat_numeral of_nat_of_char)
  show ?case
  proof (cases "n < 10")
    case True
    then show ?thesis by (subst nat_str.simps) (simp add: digits_value_def code)
  next
    case False
    then have "digits_value (nat_str n) = int (n div 10) * 10 + int (n mod 10)"
      using 1 by (subst nat_str.simps) (simp add: digits_value_snoc code)
    then show ?thesis by presburger
  qed
qed

text \<open>What may follow a value without being read into it.\<close>

definition ends :: "string \<Rightarrow> bool" where
  "ends rest = (case rest of [] \<Rightarrow> True | c # _ \<Rightarrow> c = CHR '','' \<or> c = CHR '']'' \<or> c = CHR ''}'')"

lemma ends_simps [simp]: "ends []" "ends (CHR '','' # r)" "ends (CHR '']'' # r)" "ends (CHR ''}'' # r)"
  by (simp_all add: ends_def)

lemma ends_number:
  assumes "ends rest"
  shows "\<not> floating rest" and "takeWhile is_digit rest = []"
  using assms by (auto simp: ends_def floating_def is_digit_def split: list.splits)

lemma read_nat_str:
  assumes "ends rest"
  shows "read_nat (nat_str n @ rest) = Some (int n, rest)"
proof (cases "n = 0")
  case True
  have "nat_str 0 = [CHR ''0'']" by (subst nat_str.simps) (simp add: digit_def char_eq_code)
  then show ?thesis
    using True ends_number [OF assms] by (simp add: read_nat_def is_digit_def digits_value_def)
next
  case False
  obtain c cs where c: "nat_str n = c # cs" by (cases "nat_str n") auto
  have take: "takeWhile is_digit (nat_str n @ rest) = nat_str n"
    using nat_str_digits ends_number(2) [OF assms] by (simp add: takeWhile_append2)
  have "is_digit c" "c \<noteq> CHR ''0''" using nat_str_digits [of c n] nat_str_head [of n] False c by auto
  then show ?thesis
    using take ends_number(1) [OF assms] nat_str_value [of n]
    by (simp add: read_nat_def c Let_def)
qed

lemma read_int_str: "ends rest \<Longrightarrow> read_number (int_str i @ rest) = Some (i, rest)"
proof -
  assume e: "ends rest"
  have "hd (nat_str k) \<noteq> CHR ''-''" for k
    using nat_str_digits [of "hd (nat_str k)" k] by (auto simp: is_digit_def)
  then have pos: "read_number (nat_str k @ rest) = read_nat (nat_str k @ rest)" for k
    by (cases "nat_str k") (auto simp: read_number_def dest: arg_cong [of _ _ hd])
  show ?thesis
  proof (cases "i < 0")
    case True
    then show ?thesis using read_nat_str [OF e, of "nat (- i)"] by (simp add: int_str_def read_number_def)
  next
    case False
    then show ?thesis using read_nat_str [OF e, of "nat i"] pos by (simp add: int_str_def)
  qed
qed

subsection \<open>Values\<close>

text \<open>Python's dictionaries have every key once.\<close>

fun wf_json :: "json \<Rightarrow> bool" where
  "wf_json (JArr xs) = (\<forall>x \<in> set xs. wf_json x)"
| "wf_json (JObj d) = (distinct (map fst d) \<and> (\<forall>kv \<in> set d. wf_json (snd kv)))"
| "wf_json _ = True"

lemma dict_update_distinct:
  "distinct (map fst (d @ e)) \<Longrightarrow> dict_update d e = d @ e"
proof (induction e arbitrary: d)
  case (Cons kv e)
  obtain k v where kv: "kv = (k, v)" by force
  have "dict_set k v d = d @ [(k, v)]"
    using Cons.prems by (intro trans [OF dict_set_def]) (induction d; auto simp: kv)
  then show ?case using Cons by (simp add: kv)
qed simp

lemma dict_of_pairs_distinct: "distinct (map fst d) \<Longrightarrow> dict_of_pairs d = d"
  by (simp add: dict_of_pairs_def dict_update_distinct)

text \<open>How the text of a value begins.\<close>

definition starts :: "string \<Rightarrow> bool" where
  "starts s = (s \<noteq> [] \<and> \<not> json_space (hd s) \<and> hd s \<noteq> CHR '']'')"

lemma starts_skip: "starts s \<Longrightarrow> skip_space (s @ r) = s @ r"
  by (cases s) (simp_all add: starts_def skip_space_def)

lemma digit_starts: "is_digit c \<Longrightarrow> \<not> json_space c \<and> c \<noteq> CHR '']'' \<and> c \<notin> {CHR ''n'', CHR ''t'', CHR ''f'', CHR 0x22, CHR ''['', CHR ''{''}"
  by (auto simp: is_digit_def json_space_def)

lemma int_str_head: "\<exists>c cs. int_str i = c # cs \<and> (c = CHR ''-'' \<or> is_digit c)"
proof (cases "i < 0")
  case False
  then show ?thesis
    using nat_str_digits [of "hd (nat_str (nat i))" "nat i"] by (cases "nat_str (nat i)") (auto simp: int_str_def)
qed (simp add: int_str_def)

lemma dumps_starts: "starts (json_dumps v)"
proof (cases v)
  case (JInt i)
  obtain c cs where "int_str i = c # cs" "c = CHR ''-'' \<or> is_digit c" using int_str_head by blast
  then show ?thesis using JInt digit_starts [of c] by (auto simp: starts_def json_space_def)
qed (auto simp: starts_def json_space_def json_string_def)

lemma literal_int:
  assumes "ends rest"
  shows "read_value (int_str i @ rest) = Some (JInt i, rest)"
proof -
  obtain c cs where c: "int_str i = c # cs" "c = CHR ''-'' \<or> is_digit c" using int_str_head by blast
  have head: "c \<notin> {CHR ''n'', CHR ''t'', CHR ''f'', CHR 0x22, CHR ''['', CHR ''{''}"
    using c(2) digit_starts [of c] by auto
  then show ?thesis
    using read_int_str [OF assms, of i] by (simp add: c(1) read_value.simps literal_value_def)
qed

lemma joined_starts: "xs \<noteq> [] \<Longrightarrow> starts (joined '', '' (map json_dumps xs))"
  using dumps_starts [of "hd xs"] by (cases xs; cases "tl xs") (auto simp: starts_def)

lemma read_items_dumps:
  assumes "xs \<noteq> []" and "\<And>x r. x \<in> set xs \<Longrightarrow> ends r \<Longrightarrow> read_value (json_dumps x @ r) = Some (x, r)"
  shows "read_items (joined '', '' (map json_dumps xs) @ CHR '']'' # rest) = Some (xs, rest)"
  using assms
proof (induction xs)
  case (Cons x xs)
  show ?case
  proof (cases xs)
    case Nil
    then show ?thesis
      using Cons.prems by (subst read_items.simps) (simp add: skip_space_def json_space_def)
  next
    case (Cons y ys)
    let ?tail = "joined '', '' (map json_dumps xs) @ CHR '']'' # rest"
    have "starts (joined '', '' (map json_dumps xs))"
      using dumps_starts [of y] Cons by (cases ys) (auto simp: starts_def)
    then have skip: "skip_space (CHR '' '' # ?tail) = ?tail"
      using starts_skip by (simp add: skip_space_def json_space_def)
    have whole: "joined '', '' (map json_dumps (x # xs)) @ CHR '']'' # rest = json_dumps x @ CHR '','' # CHR '' '' # ?tail"
      using Cons by simp
    have "read_items ?tail = Some (xs, rest)"
      using Cons.IH Cons.prems Cons by simp
    then show ?thesis
      unfolding whole using Cons.prems(2) [of x "CHR '','' # CHR '' '' # ?tail"] skip
      by (subst read_items.simps) (simp add: skip_space_def json_space_def cons_result_def)
  qed
qed simp

lemma read_pairs_dumps:
  assumes "d \<noteq> []" and "\<And>kv r. kv \<in> set d \<Longrightarrow> ends r \<Longrightarrow> read_value (json_dumps (snd kv) @ r) = Some (snd kv, r)"
  shows "read_pairs (joined '', '' (map (\<lambda>(k, v). json_string k @ '': '' @ json_dumps v) d) @ CHR ''}'' # rest) = Some (d, rest)"
  using assms
proof (induction d)
  case (Cons kv d)
  obtain k v where kv: "kv = (k, v)" by force
  let ?show = "\<lambda>(k, v). json_string k @ '': '' @ json_dumps v"
  have val: "ends r \<Longrightarrow> read_value (skip_space (CHR '' '' # json_dumps v @ r)) = Some (v, r)" for r
    using Cons.prems(2) [of kv r] starts_skip [OF dumps_starts] kv
    by (simp add: skip_space_def json_space_def)
  show ?case
  proof (cases d)
    case Nil
    have len: "length (skip_space (CHR '' '' # json_dumps v @ CHR ''}'' # rest)) \<le> length (json_dumps v) + length rest + 2"
      using skip_space_length [of "CHR '' '' # json_dumps v @ CHR ''}'' # rest"] by simp
    show ?thesis
      using Nil val [of "CHR ''}'' # rest"] len
      by (simp add: kv json_string_def read_pairs.simps read_string)
         (simp add: skip_space_def json_space_def)
  next
    case (Cons e es)
    let ?tail = "joined '', '' (map ?show d) @ CHR ''}'' # rest"
    have "starts (joined '', '' (map ?show d))"
      using Cons by (cases e; cases es) (auto simp: starts_def json_string_def json_space_def)
    then have skip: "skip_space (CHR '' '' # ?tail) = ?tail"
      using starts_skip by (simp add: skip_space_def json_space_def)
    have whole: "joined '', '' (map ?show (kv # d)) @ CHR ''}'' # rest
        = CHR 0x22 # concat (map json_escape k) @ CHR 0x22 # CHR '':'' # CHR '' '' # json_dumps v @ CHR '','' # CHR '' '' # ?tail"
      using Cons by (simp add: kv json_string_def)
    have "read_pairs ?tail = Some (d, rest)"
      using Cons.IH Cons.prems Cons by simp
    moreover have "length (skip_space (CHR '' '' # json_dumps v @ CHR '','' # CHR '' '' # ?tail))
        \<le> length (json_dumps v) + length ?tail + 3"
      using skip_space_length [of "CHR '' '' # json_dumps v @ CHR '','' # CHR '' '' # ?tail"] by simp
    ultimately show ?thesis
      unfolding whole using val [of "CHR '','' # CHR '' '' # ?tail"] skip
      by (simp add: read_pairs.simps read_string del: joined.simps)
         (simp add: skip_space_def json_space_def cons_result_def kv)
  qed
qed simp

lemma read_dumps: "wf_json v \<Longrightarrow> ends rest \<Longrightarrow> read_value (json_dumps v @ rest) = Some (v, rest)"
proof (induction v arbitrary: rest)
  case (JInt i)
  then show ?case using literal_int by simp
next
  case (JStr s)
  then show ?case by (simp add: json_string_def read_value.simps read_string)
next
  case (JArr xs)
  show ?case
  proof (cases "xs = []")
    case True
    then show ?thesis by (simp add: read_value.simps skip_space_def json_space_def)
  next
    case False
    let ?body = "joined '', '' (map json_dumps xs) @ CHR '']'' # rest"
    have "starts (joined '', '' (map json_dumps xs))"
      using False by (rule joined_starts)
    then obtain c cs where c: "?body = c # cs" "\<not> json_space c" "c \<noteq> CHR '']''"
      by (cases "joined '', '' (map json_dumps xs)") (simp_all add: starts_def)
    have "read_items ?body = Some (xs, rest)"
      using False JArr by (intro read_items_dumps) auto
    then show ?thesis
      using c by (simp add: read_value.simps skip_space_def)
  qed
next
  case (JObj d)
  show ?case
  proof (cases "d = []")
    case True
    then show ?thesis by (simp add: read_value.simps skip_space_def json_space_def)
  next
    case False
    let ?body = "joined '', '' (map (\<lambda>(k, v). json_string k @ '': '' @ json_dumps v) d) @ CHR ''}'' # rest"
    obtain cs where c: "?body = CHR 0x22 # cs"
      using False by (cases d; cases "tl d") (auto simp: json_string_def)
    have "read_pairs ?body = Some (d, rest)"
      using False JObj by (intro read_pairs_dumps) (auto simp: snds.simps)
    then show ?thesis
      using c JObj.prems by (simp add: read_value.simps skip_space_def json_space_def dict_of_pairs_distinct)
  qed
qed (simp_all add: read_value.simps literal_value_def)

lemma json_loads_dumps: "wf_json v \<Longrightarrow> json_loads (json_dumps v) = Some v"
  using read_dumps [of v "[]"] starts_skip [OF dumps_starts, of v "[]"]
  by (simp add: json_loads_def) (simp add: skip_space_def)

end
