(* ===== verification/Cursors.thy ===== *)
theory Cursors
  imports Json_Reader Base64 Py_Time Errors
begin

text \<open>
  The opaque cursors of the listings: \<open>tasks/responses.py\<close> (\<open>encode_task_cursor\<close>,
  \<open>decode_task_cursor\<close>) and \<open>workflows/service.py\<close> (\<open>encode_cursor\<close>, \<open>decode_cursor\<close>). A cursor is
  the base64 of the JSON text of an object. The two readers differ in what they catch: a text that
  is not an object is a 422 for a task cursor and an uncaught TypeError for a workflow cursor.

  \<open>json.loads\<close> reads bytes as UTF-8 here; a text in UTF-16, UTF-32 or with a byte order mark, and
  characters beyond the model's, are not modelled and read as invalid. \<open>fromisoformat\<close> is
  \<open>datetime.fromisoformat\<close> (None for the ValueError), \<open>py_repr\<close> is \<open>str\<close> of a list or dictionary.
\<close>

section \<open>Text from bytes\<close>

fun bytes_text :: "bytes \<Rightarrow> string option" where
  "bytes_text [] = Some []"
| "bytes_text (b # bs) =
     (if unat b < 128 then map_option (Cons (char_of (unat b))) (bytes_text bs)
      else
        (case bs of
           [] \<Rightarrow> None
         | b2 # rest \<Rightarrow>
             if (unat b = 194 \<or> unat b = 195) \<and> 128 \<le> unat b2 \<and> unat b2 < 192
             then map_option (Cons (char_of ((unat b - 192) * 64 + (unat b2 - 128)))) (bytes_text rest)
             else None))"

lemma unat_byte [simp]: "n < 256 \<Longrightarrow> unat (of_nat n :: byte) = n"
  by (simp add: unat_of_nat)

lemma bytes_text_char: "bytes_text (utf8_char c @ bs) = map_option (Cons c) (bytes_text bs)"
proof -
  define n where "n = (of_char c :: nat)"
  have c: "c = char_of n" and n: "n < 256" by (simp_all add: n_def)
  show ?thesis
  proof (cases "n < 128")
    case True
    then show ?thesis by (simp add: utf8_char_def n_def [symmetric]) (simp add: c)
  next
    case False
    have two: "utf8_char c = [of_nat (192 + n div 64), of_nat (128 + n mod 64)]"
      using False by (simp add: utf8_char_def n_def [symmetric] Let_def)
    have div: "n div 64 = 2 \<or> n div 64 = 3" using False n by auto
    have "unat (of_nat (192 + n div 64) :: byte) = 192 + n div 64"
      "unat (of_nat (128 + n mod 64) :: byte) = 128 + n mod 64"
      using div by (subst unat_byte; auto)+
    moreover have "n div 64 * 64 + n mod 64 = n" by simp
    moreover have "n mod 64 < 64" by simp
    ultimately show ?thesis using div unfolding two by (auto simp del: of_nat_add simp: c)
  qed
qed

lemma bytes_text_utf8 [simp]: "bytes_text (utf8 s) = Some s"
  by (induction s) (simp_all add: utf8_simps bytes_text_char)

section \<open>Writing\<close>

definition encode_object :: "dict \<Rightarrow> string" where
  "encode_object payload = b64encode (utf8 (json_dumps (JObj payload)))"

definition encode_cursor :: "string \<Rightarrow> string" where
  "encode_cursor workflow_id = encode_object [(''id'', JStr workflow_id)]"

definition encode_task_cursor :: "string \<Rightarrow> time \<Rightarrow> string" where
  "encode_task_cursor task_id created_at =
     encode_object [(''id'', JStr task_id), (''created_at'', JStr (isoformat created_at))]"

section \<open>Reading\<close>

text \<open>\<open>json.loads(base64.b64decode(cursor))\<close>; None is a ValueError.\<close>

definition decode_object :: "string \<Rightarrow> json option" where
  "decode_object cursor =
     (case b64decode cursor of
        None \<Rightarrow> None
      | Some bs \<Rightarrow> (case bytes_text bs of None \<Rightarrow> None | Some text \<Rightarrow> json_loads text))"

fun py_str :: "(json \<Rightarrow> string) \<Rightarrow> json \<Rightarrow> string" where
  "py_str py_repr (JStr s) = s"
| "py_str py_repr JNull = ''None''"
| "py_str py_repr (JBool b) = (if b then ''True'' else ''False'')"
| "py_str py_repr (JInt n) = int_str n"
| "py_str py_repr v = py_repr v"

definition decode_cursor :: "(json \<Rightarrow> string) \<Rightarrow> string \<Rightarrow> exn + string" where
  "decode_cursor py_repr cursor =
     (case decode_object cursor of
        None \<Rightarrow> Inl (Fleet INVALID_INPUT)
      | Some (JObj data) \<Rightarrow>
          (case map_of data ''id'' of
             None \<Rightarrow> Inl (Fleet INVALID_INPUT)
           | Some v \<Rightarrow> Inr (py_str py_repr v))
      | Some _ \<Rightarrow> Inl PythonError)"

definition decode_task_cursor ::
    "(json \<Rightarrow> string) \<Rightarrow> (string \<Rightarrow> time option) \<Rightarrow> string \<Rightarrow> exn + (time \<times> string)" where
  "decode_task_cursor py_repr fromisoformat cursor =
     (case decode_object cursor of
        Some (JObj data) \<Rightarrow>
          (case (map_of data ''id'', map_of data ''created_at'') of
             (Some v, Some w) \<Rightarrow>
               (case fromisoformat (py_str py_repr w) of
                  None \<Rightarrow> Inl (Fleet INVALID_INPUT)
                | Some created_at \<Rightarrow> Inr (created_at, py_str py_repr v))
           | _ \<Rightarrow> Inl (Fleet INVALID_INPUT))
      | _ \<Rightarrow> Inl (Fleet INVALID_INPUT))"

section \<open>Round trips\<close>

lemma decode_encode_object: "wf_json (JObj d) \<Longrightarrow> decode_object (encode_object d) = Some (JObj d)"
  by (simp add: decode_object_def encode_object_def json_loads_dumps del: json_dumps.simps)

lemma decode_encode_cursor: "decode_cursor py_repr (encode_cursor wid) = Inr wid"
  by (simp add: decode_cursor_def encode_cursor_def decode_encode_object)

lemma decode_encode_task_cursor:
  "fromisoformat (isoformat t) = Some t \<Longrightarrow>
   decode_task_cursor py_repr fromisoformat (encode_task_cursor tid t) = Inr (t, tid)"
  by (simp add: decode_task_cursor_def encode_task_cursor_def decode_encode_object)

lemma encode_cursor_nonempty [simp]: "encode_cursor wid \<noteq> []" "encode_task_cursor tid t \<noteq> []"
proof -
  have "utf8 (json_dumps (JObj p)) \<noteq> []" for p
    by (simp add: utf8_def Let_def)
  then show "encode_cursor wid \<noteq> []" "encode_task_cursor tid t \<noteq> []"
    by (simp_all add: encode_cursor_def encode_task_cursor_def encode_object_def del: json_dumps.simps)
qed

text \<open>A workflow cursor that decodes to a JSON array.\<close>

lemma decode_cursor_array: "decode_cursor py_repr (b64encode (utf8 ''[]'')) = Inl PythonError"
proof -
  have "json_loads ''[]'' = Some (JArr [])" by code_simp
  then show ?thesis by (simp add: decode_cursor_def decode_object_def)
qed

end
