(* ===== verification/Task_Endpoints.thy ===== *)
theory Task_Endpoints
  imports Responses Sse Callbacks Cursors
begin

text \<open>
  The endpoints of \<open>src/fleet_api/tasks/routes.py\<close>: the request bodies with the checks of their
  pydantic models (a body that fails one is a 422 INVALID_INPUT of the error middleware), the call
  of the service as the authenticated agent, and the response: a status code and a body. The stream
  endpoint is \<open>stream_task_events\<close> of \<open>Sse\<close>.
\<close>

section \<open>Answers\<close>

type_synonym answer = "exn + int \<times> dict"

text \<open>The answer to what a transaction gave, with the database it left.\<close>

definition respond :: "('a \<Rightarrow> db \<Rightarrow> int \<times> dict) \<Rightarrow> (exn + 'a) \<times> db \<Rightarrow> answer \<times> db" where
  "respond body r = (case r of (Inl e, d) \<Rightarrow> (Inl e, d) | (Inr x, d) \<Rightarrow> (Inr (body x d), d))"

definition answer_status :: "answer \<Rightarrow> int" where
  "answer_status a = (case a of Inl e \<Rightarrow> exn_status e | Inr (status, _) \<Rightarrow> status)"

section \<open>Dispatch and reading\<close>

record run_request =
  run_input :: dict
  run_executor :: "string option"
  run_priority :: string
  run_timeout :: "int option"
  run_key :: "string option"
  run_metadata :: "dict option"
  run_callback :: "string option"

definition positive :: "int option \<Rightarrow> bool" where
  "positive n = (case n of None \<Rightarrow> True | Some k \<Rightarrow> 0 < k)"

definition run_task_endpoint ::
    "(dict \<Rightarrow> dict \<Rightarrow> schema_outcome) \<Rightarrow> env \<Rightarrow> string \<Rightarrow> string \<Rightarrow> run_request \<Rightarrow> string option \<Rightarrow> db
       \<Rightarrow> answer \<times> db" where
  "run_task_endpoint validate env agent workflow_id body idempotency_key d =
     (if \<not> positive (run_timeout body) then (Inl (Fleet INVALID_INPUT), d)
      else
        (let effective_idempotency_key = opt_str_or idempotency_key (run_key body)
         in respond (\<lambda>(task, workflow, is_replay) _.
                (if is_replay then 200 else 202,
                 build_task_response task workflow is_replay effective_idempotency_key))
              (run_tx (create_task validate env workflow_id agent (run_input body) (run_executor body)
                  (run_priority body) (run_timeout body) effective_idempotency_key (run_metadata body)
                  (run_callback body) d) d)))"

definition get_task_endpoint :: "db \<Rightarrow> string \<Rightarrow> string \<Rightarrow> answer" where
  "get_task_endpoint d workflow_id task_id =
     (case get_task_of d workflow_id task_id of
        Inl e \<Rightarrow> Inl e
      | Inr task \<Rightarrow> Inr (200, task_to_detail_response task))"

section \<open>Listing\<close>

record list_query =
  q_status :: "string option"
  q_priority :: "string option"
  q_caller :: "string option"
  q_since :: "string option"
  q_until :: "string option"
  q_limit :: int
  q_cursor :: "string option"

text \<open>
  The service's listing with an encoded cursor. It is decoded after the workflow and the filters
  are checked; the next cursor is encoded.
\<close>

definition list_tasks_page ::
    "(json \<Rightarrow> string) \<Rightarrow> (string \<Rightarrow> time option) \<Rightarrow> db \<Rightarrow> string \<Rightarrow> list_query
       \<Rightarrow> exn + task list \<times> string option \<times> bool \<times> nat" where
  "list_tasks_page py_repr fromisoformat d workflow_id q =
     (let page = (\<lambda>c. list_tasks fromisoformat d workflow_id (q_status q) (q_priority q) (q_caller q)
                        (q_since q) (q_until q) c (nat (q_limit q)));
          encoded = map_option (\<lambda>(created_at, task_id). encode_task_cursor task_id created_at)
      in case (case q_cursor q of
                 None \<Rightarrow> page None
               | Some cursor \<Rightarrow>
                   (case page None of
                      Inl e \<Rightarrow> Inl e
                    | Inr _ \<Rightarrow>
                        (case decode_task_cursor py_repr fromisoformat cursor of
                           Inl e \<Rightarrow> Inl e
                         | Inr key \<Rightarrow> page (Some key)))) of
           Inl e \<Rightarrow> Inl e
         | Inr (tasks, next_cursor, has_more, total_count) \<Rightarrow>
             Inr (tasks, encoded next_cursor, has_more, total_count))"

definition query_param :: "string \<Rightarrow> string option \<Rightarrow> string list" where
  "query_param name v = (case v of None \<Rightarrow> [] | Some s \<Rightarrow> [name @ ''='' @ s])"

definition list_self_href :: "string \<Rightarrow> list_query \<Rightarrow> string" where
  "list_self_href workflow_id q =
     (let params = query_param ''status'' (q_status q) @ query_param ''priority'' (q_priority q)
            @ query_param ''caller'' (q_caller q) @ query_param ''since'' (q_since q)
            @ query_param ''until'' (q_until q) @ [''limit='' @ int_str (q_limit q)]
      in ''/workflows/'' @ workflow_id @ ''/tasks'' @ ''?'' @ joined ''&'' params)"

definition list_next_href :: "string \<Rightarrow> string \<Rightarrow> int \<Rightarrow> string" where
  "list_next_href workflow_id next_cursor limit =
     ''/workflows/'' @ workflow_id @ ''/tasks?cursor='' @ next_cursor @ ''&limit='' @ int_str limit"

definition pagination :: "string option \<Rightarrow> bool \<Rightarrow> nat \<Rightarrow> int \<Rightarrow> json" where
  "pagination next_cursor has_more total_count limit =
     JObj [(''next_cursor'', jopt_str next_cursor), (''has_more'', JBool has_more),
           (''total_count'', JInt (int total_count)), (''limit'', JInt limit)]"

definition list_tasks_endpoint ::
    "(json \<Rightarrow> string) \<Rightarrow> (string \<Rightarrow> time option) \<Rightarrow> db \<Rightarrow> string \<Rightarrow> list_query \<Rightarrow> answer" where
  "list_tasks_endpoint py_repr fromisoformat d workflow_id q =
     (if q_limit q < 1 \<or> 100 < q_limit q then Inl (Fleet INVALID_INPUT)
      else
     (case list_tasks_page py_repr fromisoformat d workflow_id q of
        Inl e \<Rightarrow> Inl e
      | Inr (tasks, next_cursor, has_more, total_count) \<Rightarrow>
          (let data = map (\<lambda>t. JObj (task_to_summary_response t)) tasks;
               links = [(''self'', href (list_self_href workflow_id q)),
                        (''workflow'', href (''/workflows/'' @ workflow_id))];
               links = (case next_cursor of
                          None \<Rightarrow> links
                        | Some c \<Rightarrow> if c = [] then links
                                    else links @ [(''next'', href (list_next_href workflow_id c (q_limit q)))])
           in Inr (200, [(''data'', JArr data),
                         (''pagination'', pagination next_cursor has_more total_count (q_limit q)),
                         (''_links'', JObj links)]))))"

section \<open>Lifecycle\<close>

definition cancel_task_endpoint ::
    "env \<Rightarrow> string \<Rightarrow> string \<Rightarrow> string \<Rightarrow> string option option \<Rightarrow> db \<Rightarrow> answer \<times> db" where
  "cancel_task_endpoint env agent workflow_id task_id body d =
     (let reason = (case body of None \<Rightarrow> None | Some r \<Rightarrow> r)
      in respond (\<lambda>task _. (200, cancel_response task agent reason))
           (run_tx (cancel_task env workflow_id task_id agent reason d) d))"

definition pause_task_endpoint ::
    "env \<Rightarrow> string \<Rightarrow> string \<Rightarrow> string \<Rightarrow> string option option \<Rightarrow> db \<Rightarrow> answer \<times> db" where
  "pause_task_endpoint env agent workflow_id task_id body d =
     (let reason = (case body of None \<Rightarrow> None | Some r \<Rightarrow> r)
      in respond (\<lambda>(task, event) _. (200, pause_response (env_settings env) task))
           (run_tx (pause_task env workflow_id task_id agent reason d) d))"

definition resume_task_endpoint ::
    "env \<Rightarrow> string \<Rightarrow> string \<Rightarrow> string \<Rightarrow> string option option \<Rightarrow> db \<Rightarrow> answer \<times> db" where
  "resume_task_endpoint env agent workflow_id task_id body d =
     (let priority = (case body of None \<Rightarrow> None | Some p \<Rightarrow> p)
      in respond (\<lambda>(task, event) _. (200, resume_response task event))
           (run_tx (resume_task env workflow_id task_id agent priority d) d))"

text \<open>\<open>RetaskRefinement.model_dump(exclude_none=True)\<close>.\<close>

record retask_request =
  rt_message :: string
  rt_additional_input :: "dict option"
  rt_constraints :: "dict option"
  rt_priority :: "string option"

definition opt_item :: "string \<Rightarrow> dict option \<Rightarrow> dict" where
  "opt_item k v = (case v of None \<Rightarrow> [] | Some x \<Rightarrow> [(k, JObj x)])"

definition refinement_dict :: "retask_request \<Rightarrow> dict" where
  "refinement_dict body =
     (''message'', JStr (rt_message body)) # opt_item ''additional_input'' (rt_additional_input body)
       @ opt_item ''constraints'' (rt_constraints body)"

definition idempotency_block :: "string option \<Rightarrow> task \<Rightarrow> bool \<Rightarrow> dict" where
  "idempotency_block idempotency_key task is_replay =
     (case idempotency_key of
        None \<Rightarrow> []
      | Some key \<Rightarrow>
          [(''idempotency'',
            JObj [(''key'', JStr key),
                  (''status'', JStr (if is_replay then ''replayed'' else ''created'')),
                  (''expires_at'', JStr (isoformat (t_created_at task + seconds (IDEMPOTENCY_TTL_HOURS * 3600))))])])"

definition lineage_block :: "db \<Rightarrow> task \<Rightarrow> json" where
  "lineage_block d task =
     JObj [(''depth'', JInt (t_lineage_depth task)),
           (''root_task_id'', jopt_str (t_root task)),
           (''chain'', JArr (map JStr (build_lineage_chain d task)))]"

definition retask_response :: "string \<Rightarrow> string option \<Rightarrow> task \<Rightarrow> task \<Rightarrow> bool \<Rightarrow> db \<Rightarrow> dict" where
  "retask_response workflow_id idempotency_key new_task original_task is_replay d =
     [(''task_id'', JStr (t_id new_task)),
      (''parent_task_id'', jopt_str (t_parent new_task)),
      (''workflow_id'', JStr (t_workflow_id new_task)),
      (''status'', JStr (status_value (t_status new_task))),
      (''caller'', JStr (t_principal new_task)),
      (''executor'', jopt_str (t_executor new_task)),
      (''priority'', JStr (priority_value (t_priority new_task))),
      (''created_at'', JStr (isoformat (t_created_at new_task))),
      (''lineage'', lineage_block d new_task),
      (''inherited_context'',
       JObj [(''original_input'', JBool True),
             (''original_result'', JBool (t_result original_task \<noteq> JNull)),
             (''injected_contexts'', JInt (int (count_context_injections d (t_id original_task))))]),
      (''_links'',
       JObj (dict_set ''parent'' (href (task_path workflow_id (t_id original_task)))
               (build_task_links (t_id new_task) workflow_id (t_status new_task))))]
     @ idempotency_block idempotency_key new_task is_replay"

definition retask_task_endpoint ::
    "env \<Rightarrow> string \<Rightarrow> string \<Rightarrow> string \<Rightarrow> retask_request \<Rightarrow> string option \<Rightarrow> db \<Rightarrow> answer \<times> db" where
  "retask_task_endpoint env agent workflow_id task_id body idempotency_key d =
     respond (\<lambda>(new_task, original_task, is_replay) d'.
         (if is_replay then 200 else 201,
          retask_response workflow_id idempotency_key new_task original_task is_replay d'))
       (run_tx (retask_task env workflow_id task_id agent (refinement_dict body) (rt_priority body)
           idempotency_key d) d)"

record redirect_request =
  rd_reason :: string
  rd_new_input :: dict
  rd_inherit_progress :: bool
  rd_priority :: "string option"

definition redirect_response :: "string \<Rightarrow> string option \<Rightarrow> task \<Rightarrow> task \<Rightarrow> bool \<Rightarrow> db \<Rightarrow> dict" where
  "redirect_response workflow_id idempotency_key new_task original_task is_replay d =
     [(''task_id'', JStr (t_id new_task)),
      (''workflow_id'', JStr (t_workflow_id new_task)),
      (''status'', JStr (status_value (t_status new_task))),
      (''redirected_from'', JStr (t_id original_task)),
      (''lineage'', lineage_block d new_task),
      (''caller'', JStr (t_principal new_task)),
      (''executor'', jopt_str (t_executor new_task)),
      (''priority'', JStr (priority_value (t_priority new_task))),
      (''created_at'', JStr (isoformat (t_created_at new_task))),
      (''_links'',
       JObj (dict_set ''redirected_from'' (href (task_path workflow_id (t_id original_task)))
               (build_task_links (t_id new_task) workflow_id (t_status new_task))))]
     @ idempotency_block idempotency_key new_task is_replay"

definition redirect_task_endpoint ::
    "env \<Rightarrow> string \<Rightarrow> string \<Rightarrow> string \<Rightarrow> redirect_request \<Rightarrow> string option \<Rightarrow> db \<Rightarrow> answer \<times> db" where
  "redirect_task_endpoint env agent workflow_id task_id body idempotency_key d =
     respond (\<lambda>(new_task, original_task, is_replay) d'.
         (if is_replay then 200 else 201,
          redirect_response workflow_id idempotency_key new_task original_task is_replay d'))
       (run_tx (redirect_task env workflow_id task_id agent (rd_reason body) (rd_new_input body)
           (rd_inherit_progress body) (rd_priority body) idempotency_key d) d)"

section \<open>Context and events\<close>

record context_request =
  cx_type :: string
  cx_message :: string
  cx_data :: "dict option"
  cx_sequence :: int
  cx_urgency :: string

definition context_types :: "string list" where
  "context_types = [''additional_input'', ''constraint'', ''correction'', ''reference'']"

definition urgencies :: "string list" where
  "urgencies = [''low'', ''normal'', ''immediate'']"

definition context_request_ok :: "context_request \<Rightarrow> bool" where
  "context_request_ok body =
     (cx_type body \<in> set context_types \<and> 0 < cx_sequence body \<and> cx_urgency body \<in> set urgencies)"

definition inject_context_endpoint ::
    "env \<Rightarrow> string \<Rightarrow> string \<Rightarrow> string \<Rightarrow> context_request \<Rightarrow> db \<Rightarrow> answer \<times> db" where
  "inject_context_endpoint env agent workflow_id task_id body d =
     (if \<not> context_request_ok body then (Inl (Fleet INVALID_INPUT), d)
      else
        (let payload_dict = (''message'', JStr (cx_message body)) # opt_item ''data'' (cx_data body)
         in respond (\<lambda>result _. (202, result))
              (run_tx (inject_context env workflow_id task_id agent (cx_type body) payload_dict
                  (cx_sequence body) (cx_urgency body) d) d)))"

record event_request =
  er_type :: string
  er_data :: dict
  er_sequence :: int

definition event_response :: "task_event \<Rightarrow> task \<Rightarrow> dict" where
  "event_response event task =
     [(''received'', JBool True),
      (''event_id'', JInt (e_id event)),
      (''task_id'', JStr (t_id task)),
      (''event_type'', JStr (e_type event)),
      (''sequence'', JInt (e_sequence event)),
      (''created_at'', JStr (isoformat (e_created_at event))),
      (''_links'',
       JObj [(''task'', href (task_path (t_workflow_id task) (t_id task))),
             (''events'', href (''/tasks/'' @ t_id task @ ''/events''))])]"

definition post_task_event ::
    "env \<Rightarrow> string \<Rightarrow> string \<Rightarrow> event_request \<Rightarrow> db \<Rightarrow> answer \<times> db" where
  "post_task_event env agent task_id body d =
     (if er_sequence body \<le> 0 then (Inl (Fleet INVALID_INPUT), d)
      else
        respond (\<lambda>(event, task, _) _. (201, event_response event task))
          (run_tx (process_sidecar_event env task_id (er_type body) (er_data body) (er_sequence body) agent d) d))"

section \<open>Statuses\<close>

lemma respond_db [simp]: "snd (respond f r) = snd r"
  by (cases r; cases "fst r") (auto simp: respond_def)

lemma respond_error: "fst (respond f r) = Inl e \<longleftrightarrow> fst r = Inl e"
  by (cases r; cases "fst r") (auto simp: respond_def)

end
