(* ===== verification/Registry_Endpoints.thy ===== *)
theory Registry_Endpoints
  imports Task_Endpoints Workflows
begin

text \<open>
  The endpoints of \<open>src/fleet_api/agents/routes.py\<close> and \<open>src/fleet_api/workflows/routes.py\<close>.
  \<open>dump_time\<close> is how pydantic's \<open>model_dump(mode="json")\<close> writes a datetime.
\<close>

section \<open>Agents\<close>

definition method_link :: "string \<Rightarrow> string \<Rightarrow> json" where
  "method_link h m = JObj [(''href'', JStr h), (''method'', JStr m)]"

definition agent_links :: "string \<Rightarrow> json" where
  "agent_links agent_id =
     JObj [(''self'', method_link (''/agents/'' @ agent_id) ''GET''),
           (''heartbeat'', method_link (''/agents/'' @ agent_id @ ''/heartbeat'') ''POST''),
           (''workflows'', method_link ''/workflows'' ''GET'')]"

definition onboarding_step :: "int \<Rightarrow> string \<Rightarrow> string \<Rightarrow> string \<Rightarrow> json" where
  "onboarding_step step action endpoint hint =
     JObj [(''step'', JInt step), (''action'', JStr action), (''endpoint'', JStr endpoint), (''hint'', JStr hint)]"

definition onboarding_steps :: "string \<Rightarrow> json list" where
  "onboarding_steps agent_id =
     [onboarding_step 1 ''Send your first heartbeat to activate the agent''
        (''/agents/'' @ agent_id @ ''/heartbeat'')
        ''POST with a signed request to transition from registered to active'',
      onboarding_step 2 ''Register a workflow'' ''/workflows''
        ''POST a workflow definition to begin accepting tasks'',
      onboarding_step 3 ''Check the manifest for available endpoints'' ''/manifest''
        ''GET /manifest returns the full API surface'']"

definition jstrs :: "string list option \<Rightarrow> json" where
  "jstrs xs = (case xs of None \<Rightarrow> JNull | Some ys \<Rightarrow> JArr (map JStr ys))"

definition build_register_response :: "(time \<Rightarrow> string) \<Rightarrow> agent \<Rightarrow> dict" where
  "build_register_response dump_time agent =
     [(''agent_id'', JStr (a_id agent)),
      (''display_name'', jopt_str (a_display_name agent)),
      (''public_key'', JStr (a_public_key agent)),
      (''capabilities'', jstrs (a_capabilities agent)),
      (''status'', JStr (agent_status_value (a_status agent))),
      (''registered_at'', JStr (dump_time (a_registered_at agent))),
      (''onboarding'', JArr (onboarding_steps (a_id agent))),
      (''_links'', agent_links (a_id agent))]"

definition register_endpoint :: "(time \<Rightarrow> string) \<Rightarrow> env \<Rightarrow> register_request \<Rightarrow> db \<Rightarrow> answer \<times> db" where
  "register_endpoint dump_time env body d =
     respond (\<lambda>(agent, created) _. (if created then 201 else 200, build_register_response dump_time agent))
       (register_agent env body d)"

text \<open>A heartbeat stamps \<open>last_heartbeat\<close>, so that the response model has a value for it.\<close>

definition heartbeat_response :: "(time \<Rightarrow> string) \<Rightarrow> agent \<Rightarrow> exn + dict" where
  "heartbeat_response dump_time agent =
     (case a_last_heartbeat agent of
        None \<Rightarrow> Inl PythonError
      | Some t \<Rightarrow>
          Inr [(''agent_id'', JStr (a_id agent)),
               (''status'', JStr (agent_status_value (a_status agent))),
               (''last_heartbeat'', JStr (dump_time t)),
               (''_links'', agent_links (a_id agent))])"

definition heartbeat_endpoint :: "(time \<Rightarrow> string) \<Rightarrow> env \<Rightarrow> string \<Rightarrow> string \<Rightarrow> db \<Rightarrow> answer \<times> db" where
  "heartbeat_endpoint dump_time env auth_agent agent_id d =
     (case heartbeat env auth_agent agent_id d of
        (Inl e, d') \<Rightarrow> (Inl e, d')
      | (Inr agent, d') \<Rightarrow>
          (case heartbeat_response dump_time agent of Inl e \<Rightarrow> (Inl e, d') | Inr r \<Rightarrow> (Inr (200, r), d')))"

definition get_agent_endpoint :: "(time \<Rightarrow> string) \<Rightarrow> db \<Rightarrow> string \<Rightarrow> answer" where
  "get_agent_endpoint dump_time d agent_id =
     (case get_agent d agent_id of
        None \<Rightarrow> Inl (Fleet ENDPOINT_NOT_FOUND)
      | Some agent \<Rightarrow>
          Inr (200,
            [(''agent_id'', JStr (a_id agent)),
             (''display_name'', jopt_str (a_display_name agent)),
             (''public_key'', JStr (a_public_key agent)),
             (''capabilities'', jstrs (a_capabilities agent)),
             (''status'', JStr (agent_status_value (a_status agent))),
             (''registered_at'', JStr (dump_time (a_registered_at agent))),
             (''last_heartbeat'', jopt_str (map_option dump_time (a_last_heartbeat agent))),
             (''_links'', agent_links (a_id agent))]))"

text \<open>What an executor polls: its accepted tasks and the signals of its running ones.\<close>

definition pending_task_item :: "task \<Rightarrow> dict" where
  "pending_task_item task =
     [(''task_id'', JStr (t_id task)),
      (''workflow_id'', JStr (t_workflow_id task)),
      (''input'', JObj (t_input task)),
      (''priority'', JStr (priority_value (t_priority task))),
      (''timeout_seconds'', jopt_int (t_timeout_seconds task)),
      (''created_at'', JStr (isoformat (t_created_at task)))]"

definition get_pending_endpoint :: "env \<Rightarrow> string \<Rightarrow> string \<Rightarrow> db \<Rightarrow> answer" where
  "get_pending_endpoint env auth_agent agent_id d =
     (if auth_agent \<noteq> agent_id then Inl (Fleet NOT_AUTHORIZED)
      else
        (let tasks = get_pending_tasks d agent_id; signals = get_pending_signals env d agent_id
         in Inr (200,
              [(''data'', JArr (map (\<lambda>t. JObj (pending_task_item t)) tasks)),
               (''signals'', JArr (map JObj signals)),
               (''_links'', JObj [(''self'', href (''/agents/'' @ agent_id @ ''/tasks/pending''))])])))"

section \<open>Workflows\<close>

definition workflow_to_response :: "workflow \<Rightarrow> string option \<Rightarrow> dict" where
  "workflow_to_response workflow es =
     [(''id'', JStr (w_id workflow)),
      (''name'', JStr (w_name workflow)),
      (''owner'', JStr (w_owner workflow)),
      (''description'', jopt_str (w_description workflow)),
      (''tags'', jstrs (w_tags workflow)),
      (''input_schema'', (case w_input_schema workflow of None \<Rightarrow> JNull | Some s \<Rightarrow> JObj s)),
      (''output_schema'', (case w_output_schema workflow of None \<Rightarrow> JNull | Some s \<Rightarrow> JObj s)),
      (''timeout_seconds'', jopt_int (w_timeout_seconds workflow)),
      (''result_retention_days'', JInt (w_result_retention_days workflow)),
      (''status'', JStr (workflow_status_value (w_status workflow))),
      (''executor_status'', jopt_str es),
      (''created_at'', JStr (isoformat (w_created_at workflow))),
      (''updated_at'', jopt_time (w_updated_at workflow)),
      (''_links'',
       JObj [(''self'', href (''/workflows/'' @ w_id workflow)),
             (''run'', method_link (''/workflows/'' @ w_id workflow @ ''/run'') ''POST''),
             (''tasks'', href (''/workflows/'' @ w_id workflow @ ''/tasks'')),
             (''update'', method_link (''/workflows/'' @ w_id workflow) ''PUT''),
             (''owner'', href (''/agents/'' @ w_owner workflow))])]"

definition workflow_onboarding :: "string \<Rightarrow> json" where
  "workflow_onboarding workflow_id =
     JArr
       [JObj [(''step'', JInt 1), (''action'', JStr ''Verify your workflow is listed''),
              (''method'', JStr ''GET''), (''endpoint'', JStr (''/workflows/'' @ workflow_id)),
              (''expected_status'', JInt 200)],
        JObj [(''step'', JInt 2), (''action'', JStr ''Run a test invocation''),
              (''method'', JStr ''POST''), (''endpoint'', JStr (''/workflows/'' @ workflow_id @ ''/run'')),
              (''headers'', JObj [(''Authorization'', JStr ''Signature <agent_id>:<signature>'')]),
              (''expected_status'', JInt 202)]]"

text \<open>\<open>WorkflowCreateRequest\<close> and \<open>WorkflowUpdateRequest\<close>: the bounds of the fields.\<close>

definition workflow_fields_ok :: "string \<Rightarrow> workflow_fields \<Rightarrow> bool" where
  "workflow_fields_ok workflow_id f =
     (length workflow_id \<le> 128 \<and> length (wf_name f) \<le> 256 \<and> positive (wf_timeout_seconds f)
      \<and> 0 < wf_result_retention_days f)"

definition create_workflow_endpoint ::
    "env \<Rightarrow> string \<Rightarrow> string \<Rightarrow> workflow_fields \<Rightarrow> db \<Rightarrow> answer \<times> db" where
  "create_workflow_endpoint env agent workflow_id f d =
     (if \<not> workflow_fields_ok workflow_id f then (Inl (Fleet INVALID_INPUT), d)
      else
        respond (\<lambda>workflow _. (201, workflow_to_response workflow None
                               @ [(''onboarding'', workflow_onboarding (w_id workflow))]))
          (create_workflow env workflow_id agent f d))"

definition update_workflow_endpoint ::
    "env \<Rightarrow> string \<Rightarrow> string \<Rightarrow> workflow_changes \<Rightarrow> db \<Rightarrow> answer \<times> db" where
  "update_workflow_endpoint env agent workflow_id body d =
     (if \<not> (case ch_result_retention_days body of Some n \<Rightarrow> positive n | None \<Rightarrow> True)
      then (Inl (Fleet INVALID_INPUT), d)
      else
        respond (\<lambda>workflow _. (200, workflow_to_response workflow None))
          (update_workflow env workflow_id agent body d))"

definition get_workflow_endpoint :: "db \<Rightarrow> string \<Rightarrow> answer" where
  "get_workflow_endpoint d workflow_id =
     (case get_workflow_with_executor_status d workflow_id of
        Inl e \<Rightarrow> Inl e
      | Inr (workflow, es) \<Rightarrow> Inr (200, workflow_to_response workflow es))"

text \<open>\<open>list_workflows\<close> with an encoded cursor, decoded after the status filter is checked.\<close>

definition list_workflows_page ::
    "(json \<Rightarrow> string) \<Rightarrow> db \<Rightarrow> string option \<Rightarrow> string option \<Rightarrow> string option \<Rightarrow> int \<Rightarrow> string option
       \<Rightarrow> exn + (workflow \<times> string option) list \<times> string option \<times> bool \<times> nat" where
  "list_workflows_page py_repr d status owner tag limit cursor =
     (let page = list_workflows d status owner tag (nat limit)
      in case (case cursor of
                 None \<Rightarrow> page None
               | Some c \<Rightarrow>
                   (case page None of
                      Inl e \<Rightarrow> Inl e
                    | Inr _ \<Rightarrow> (case decode_cursor py_repr c of Inl e \<Rightarrow> Inl e | Inr wid \<Rightarrow> page (Some wid)))) of
           Inl e \<Rightarrow> Inl e
         | Inr (items, next_cursor, has_more, total_count) \<Rightarrow>
             Inr (items, map_option encode_cursor next_cursor, has_more, total_count))"

definition list_workflows_endpoint ::
    "(json \<Rightarrow> string) \<Rightarrow> db \<Rightarrow> string option \<Rightarrow> string option \<Rightarrow> string option \<Rightarrow> int \<Rightarrow> string option \<Rightarrow> answer" where
  "list_workflows_endpoint py_repr d status owner tag limit cursor =
     (if limit < 1 \<or> 100 < limit then Inl (Fleet INVALID_INPUT)
      else
     (case list_workflows_page py_repr d status owner tag limit cursor of
        Inl e \<Rightarrow> Inl e
      | Inr (items, next_cursor, has_more, total_count) \<Rightarrow>
          (let links = [(''self'', href ''/workflows''), (''register'', method_link ''/workflows'' ''POST'')];
               links = (case next_cursor of
                          None \<Rightarrow> links
                        | Some c \<Rightarrow> if c = [] then links
                                    else links @ [(''next'', href (''/workflows?cursor='' @ c @ ''&limit='' @ int_str limit))])
           in Inr (200, [(''data'', JArr (map (\<lambda>(w, es). JObj (workflow_to_response w es)) items)),
                         (''pagination'', pagination next_cursor has_more total_count limit),
                         (''_links'', JObj links)]))))"

end
