(* ===== verification/Paging.thy ===== *)
theory Paging
  imports Registry_Endpoints
begin

text \<open>
  Reading a listing page by page: a client that follows the cursors until there is none. The locale
  \<open>keyset\<close> is what a listing needs for that, a key of each row and a strict order in which a
  cursor is before the rows of the next page; the listings of tasks (\<open>tasks/crud.py\<close>) and of workflows
  (\<open>workflows/service.py\<close>) are interpretations of it.
\<close>

section \<open>A client\<close>

fun follow_pages :: "nat \<Rightarrow> ('c option \<Rightarrow> exn + 'r list \<times> 'c option \<times> bool \<times> nat) \<Rightarrow> 'c option \<Rightarrow> 'r list option" where
  "follow_pages 0 page cursor = None"
| "follow_pages (Suc n) page cursor =
     (case page cursor of
        Inl e \<Rightarrow> None
      | Inr (rows, next_cursor, has_more, total_count) \<Rightarrow>
          if has_more then map_option (append rows) (follow_pages n page next_cursor) else Some rows)"

text \<open>Over HTTP: the client reads the data of a page and asks for the next one with the cursor of the body,
  until there is none.\<close>

definition next_cursor_of :: "dict \<Rightarrow> string option" where
  "next_cursor_of body =
     (case dict_get body ''pagination'' of
        JObj p \<Rightarrow> (case dict_get p ''next_cursor'' of JStr c \<Rightarrow> Some c | _ \<Rightarrow> None)
      | _ \<Rightarrow> None)"

definition data_of :: "dict \<Rightarrow> json list" where
  "data_of body = (case dict_get body ''data'' of JArr xs \<Rightarrow> xs | _ \<Rightarrow> [])"

fun follow_cursors :: "nat \<Rightarrow> (string option \<Rightarrow> answer) \<Rightarrow> string option \<Rightarrow> json list option" where
  "follow_cursors 0 get cursor = None"
| "follow_cursors (Suc n) get cursor =
     (case get cursor of
        Inl e \<Rightarrow> None
      | Inr (status, body) \<Rightarrow>
          (case next_cursor_of body of
             None \<Rightarrow> Some (data_of body)
           | Some c \<Rightarrow> map_option (append (data_of body)) (follow_cursors n get (Some c))))"

section \<open>Keyset pages\<close>

text \<open>A page of sorted rows: those after the cursor, up to the limit, and the key of its last row if
  there are more.\<close>

definition keyset_page ::
    "('r \<Rightarrow> 'c) \<Rightarrow> ('c \<Rightarrow> 'c \<Rightarrow> bool) \<Rightarrow> nat \<Rightarrow> 'r list \<Rightarrow> 'c option \<Rightarrow> 'r list \<times> 'c option \<times> bool" where
  "keyset_page key before limit rows cursor =
     (let rest = (case cursor of None \<Rightarrow> rows | Some c \<Rightarrow> filter (\<lambda>r. before c (key r)) rows); page = take limit rest
      in if limit < length rest then (page, Some (key (last page)), True) else (rest, None, False))"

lemma keyset_page_more: "keyset_page key before limit rows c = (page, nxt, further) \<Longrightarrow> further \<longleftrightarrow> nxt \<noteq> None"
  by (auto simp: keyset_page_def Let_def split: if_splits)

lemma keyset_page_next:
  assumes "keyset_page key before limit rows c = (page, Some k, further)" and "0 < limit"
  shows "k \<in> key ` set rows"
proof -
  let ?rest = "case c of None \<Rightarrow> rows | Some c \<Rightarrow> filter (\<lambda>r. before c (key r)) rows"
  have k: "k = key (last (take limit ?rest))" and "take limit ?rest \<noteq> []"
    using assms by (auto simp: keyset_page_def Let_def split: if_splits)
  then have "last (take limit ?rest) \<in> set ?rest" by (metis in_set_takeD last_in_set)
  then show ?thesis using k by (auto split: option.splits)
qed

locale keyset =
  fixes key :: "'r \<Rightarrow> 'c" and before :: "'c \<Rightarrow> 'c \<Rightarrow> bool"
  assumes strict: "\<not> before c c"
    and chain: "before c k \<Longrightarrow> before k l \<Longrightarrow> before c l"
begin

text \<open>In sorted rows the cursor of a row cuts off that row and everything up to it.\<close>

lemma cut:
  assumes "sorted_wrt (\<lambda>x y. before (key x) (key y)) (xs @ ys)" and "xs \<noteq> []"
  shows "filter (\<lambda>r. before (key (last xs)) (key r)) (xs @ ys) = ys"
proof -
  obtain as l where xs: "xs = as @ [l]" using assms(2) by (metis append_butlast_last_id)
  have "\<not> before (key l) (key x)" if "x \<in> set as" for x
  proof -
    have "before (key x) (key l)" using assms(1) that by (simp add: xs sorted_wrt_append)
    then show ?thesis by (metis strict chain)
  qed
  then have "filter (\<lambda>r. before (key l) (key r)) as = []"
    by (simp add: filter_empty_conv)
  moreover have "before (key l) (key y)" if "y \<in> set ys" for y
    using assms that by (simp add: xs sorted_wrt_append)
  ultimately show ?thesis using strict by (simp add: xs filter_id_conv)
qed

lemma page_after:
  assumes "sorted_wrt (\<lambda>x y. before (key x) (key y)) (xs @ ys)"
  shows "keyset_page key before limit (xs @ ys) (if xs = [] then None else Some (key (last xs)))
           = (if limit < length ys then (take limit ys, Some (key (last (take limit ys))), True) else (ys, None, False))"
  using cut [OF assms] by (cases "xs = []") (simp_all add: keyset_page_def Let_def del: filter_append)

text \<open>Following the pages of sorted rows gives all of them, in at most one request more than there are rows.\<close>

lemma follow_from:
  assumes page: "\<And>c. page c = Inr (let (rs, nxt, further) = keyset_page key before limit rows c in (rs, nxt, further, n))"
    and sorted: "sorted_wrt (\<lambda>x y. before (key x) (key y)) rows" and "0 < limit"
  shows "rows = xs @ ys \<Longrightarrow> length ys \<le> m \<Longrightarrow>
    follow_pages (Suc m) page (if xs = [] then None else Some (key (last xs))) = Some ys"
proof (induction m arbitrary: xs ys)
  case 0
  then show ?case
    using page_after [of "[]" "[]" limit] page_after [of xs "[]" limit] sorted by (simp add: page)
next
  case (Suc m)
  have this_page: "page (if xs = [] then None else Some (key (last xs)))
      = Inr (if limit < length ys then (take limit ys, Some (key (last (take limit ys))), True, n) else (ys, None, False, n))"
    using page_after [of xs ys limit] sorted Suc.prems(1) unfolding page by simp
  show ?case
  proof (cases "limit < length ys")
    case True
    let ?zs = "take limit ys"
    have zs: "?zs \<noteq> []" using True \<open>0 < limit\<close> by auto
    have "rows = (xs @ ?zs) @ drop limit ys" "length (drop limit ys) \<le> m"
      using Suc.prems \<open>0 < limit\<close> True by simp_all
    then have "follow_pages (Suc m) page (Some (key (last ?zs))) = Some (drop limit ys)"
      using Suc.IH [of "xs @ ?zs" "drop limit ys"] zs by (simp del: follow_pages.simps)
    then show ?thesis
      using True by (subst follow_pages.simps(2)) (simp add: this_page del: follow_pages.simps)
  qed (simp add: this_page)
qed

lemma follow_all:
  assumes "\<And>c. page c = Inr (let (rs, nxt, further) = keyset_page key before limit rows c in (rs, nxt, further, n))"
    and "sorted_wrt (\<lambda>x y. before (key x) (key y)) rows" and "0 < limit"
  shows "follow_pages (Suc (length rows)) page None = Some rows"
  using follow_from [OF assms, of "[]" rows "length rows"] by simp

text \<open>The same over HTTP, when the endpoint answers each cursor it has given out with the page.\<close>

lemma follow_encoded:
  assumes get: "\<And>c. c \<in> insert None (Some ` key ` set rows) \<Longrightarrow>
      \<exists>body. get (map_option enc c) = Inr (200, body)
        \<and> (case keyset_page key before limit rows c of (rs, nxt, further) \<Rightarrow>
             data_of body = map view rs \<and> next_cursor_of body = map_option enc nxt)"
    and "0 < limit"
  shows "c \<in> insert None (Some ` key ` set rows) \<Longrightarrow>
    follow_cursors m get (map_option enc c)
      = map_option (map view) (follow_pages m
          (\<lambda>c. Inr (let (rs, nxt, further) = keyset_page key before limit rows c in (rs, nxt, further, n))) c)"
proof (induction m arbitrary: c)
  case (Suc m)
  obtain rs nxt further where p: "keyset_page key before limit rows c = (rs, nxt, further)"
    by (cases "keyset_page key before limit rows c")
  note further = keyset_page_more [OF p]
  obtain body where body: "get (map_option enc c) = Inr (200, body)" "data_of body = map view rs"
      "next_cursor_of body = map_option enc nxt"
    using get [OF Suc.prems] p by auto
  show ?case
  proof (cases nxt)
    case (Some k)
    then have "nxt \<in> insert None (Some ` key ` set rows)" using p keyset_page_next \<open>0 < limit\<close> by fastforce
    then show ?thesis using Suc.IH [of nxt] Some further body p by (simp add: option.map_comp comp_def)
  qed (use body p further in simp)
qed simp

lemma follow_cursors_all:
  assumes "\<And>c. c \<in> insert None (Some ` key ` set rows) \<Longrightarrow>
      \<exists>body. get (map_option enc c) = Inr (200, body)
        \<and> (case keyset_page key before limit rows c of (rs, nxt, further) \<Rightarrow>
             data_of body = map view rs \<and> next_cursor_of body = map_option enc nxt)"
    and "0 < limit" and "sorted_wrt (\<lambda>x y. before (key x) (key y)) rows"
  shows "follow_cursors (Suc (length rows)) get None = Some (map view rows)"
  using follow_encoded [OF assms(1,2), of None "Suc (length rows)"]
  unfolding follow_all [OF refl assms(3,2)] option.map by simp

end

section \<open>The two listings\<close>

text \<open>Tasks: newest first, by creation time and id.\<close>

interpretation task_pages: keyset page_key "\<lambda>c k. k < c"
  by unfold_locales auto

lemma page_of_keyset:
  assumes "0 < limit"
  shows "page_of rows c limit = keyset_page page_key (\<lambda>c k. k < c) limit rows c"
proof -
  have "page_of rs None limit = keyset_page page_key (\<lambda>c k. k < c) limit rs None" for rs
    using assms by (auto simp: page_of_def keyset_page_def Let_def min_def)
  then show ?thesis
    using assms by (cases c) (auto simp: page_of_def keyset_page_def Let_def min_def)
qed

lemma base_rows_desc:
  assumes "constraints_ok d"
  shows "sorted_wrt (\<lambda>x y. page_key y < page_key x) (base_rows d f wid)"
proof -
  let ?xs = "sort_key page_key (filter (matches f wid) (db_tasks d))"
  have "distinct (map t_id (filter (matches f wid) (db_tasks d)))"
    using assms by (simp add: constraints_ok_def distinct_map_filter)
  then have "distinct (map page_key (filter (matches f wid) (db_tasks d)))"
    by (auto simp: distinct_map page_key_def inj_on_def)
  then have "distinct (map page_key ?xs)" by (simp add: distinct_map)
  then have "sorted_wrt (<) (map page_key ?xs)"
    by (simp add: strict_sorted_iff)
  then show ?thesis by (simp add: base_rows_def sorted_wrt_rev sorted_wrt_map)
qed

text \<open>Workflows: by id, each with the status of its executor.\<close>

definition workflow_rows :: "db \<Rightarrow> workflow_status \<Rightarrow> string option \<Rightarrow> string option \<Rightarrow> workflow list" where
  "workflow_rows d st owner tag = sort_key w_id (filter (workflow_matches st owner tag) (db_workflows d))"

definition with_executor :: "db \<Rightarrow> workflow \<Rightarrow> workflow \<times> string option" where
  "with_executor d w = (w, executor_status d w)"

interpretation workflow_pages: keyset "\<lambda>item. w_id (fst item)" "(<) :: string \<Rightarrow> string \<Rightarrow> bool"
  by unfold_locales auto

lemma list_workflows_keyset:
  assumes "(case status of None \<Rightarrow> Some WF_ACTIVE | Some s \<Rightarrow> workflow_status_of_value s) = Some st" and "0 < limit"
  shows "list_workflows d status owner tag limit c
    = Inr (let (items, nxt, further) =
                 keyset_page (\<lambda>item. w_id (fst item)) (<) limit (map (with_executor d) (workflow_rows d st owner tag)) c
           in (items, nxt, further, length (workflow_rows d st owner tag)))"
proof -
  have f: "filter (\<lambda>r. x < w_id (fst r)) (map (with_executor d) rs) = map (with_executor d) (filter (\<lambda>w. x < w_id w) rs)" for x rs
    by (simp add: filter_map comp_def with_executor_def)
  show ?thesis
    using assms
    by (cases c) (auto simp: list_workflows_def keyset_page_def workflow_rows_def [symmetric]
        with_executor_def f Let_def take_map min_def last_map simp del: filter_map)
qed

lemma workflow_rows_ascending:
  assumes "constraints_ok d"
  shows "sorted_wrt (<) (map w_id (workflow_rows d st owner tag))"
    and "set (workflow_rows d st owner tag) = {w \<in> set (db_workflows d). workflow_matches st owner tag w}"
    and "distinct (workflow_rows d st owner tag)"
proof -
  let ?rows = "filter (workflow_matches st owner tag) (db_workflows d)"
  have "distinct (map w_id ?rows)"
    using assms by (simp add: constraints_ok_def distinct_map_filter)
  then have "distinct (map w_id (workflow_rows d st owner tag))"
    by (simp add: workflow_rows_def distinct_map)
  then show "sorted_wrt (<) (map w_id (workflow_rows d st owner tag))" "distinct (workflow_rows d st owner tag)"
    by (simp_all add: strict_sorted_iff distinct_map) (simp add: workflow_rows_def)
  show "set (workflow_rows d st owner tag) = {w \<in> set (db_workflows d). workflow_matches st owner tag w}"
    by (auto simp: workflow_rows_def)
qed

end
