(* ===== verification/Props_Crud.thy ===== *)
theory Props_Crud
  imports Outcomes Samples Paging
begin

text \<open>
  Creating, listing and polling: the row a creation stores, the idempotent replay, the pages of a
  listing, the queue and the signals an executor polls.
\<close>

section \<open>Creating\<close>

text \<open>C30: Creating a task. For a registered caller and an executor (the one named, or the workflow's
  owner) that is registered and not suspended, an input the schema accepts, a valid priority and a
  fresh id and idempotency key, the new task is stored ACCEPTED as a root with the timeout of the
  request or else of the workflow, its log is its created event alone, and the answer is the
  stored row.\<close>

theorem create_outcome:
  assumes reach: "reachable cfg d" and w: "get_workflow d wid = Some w" and caller: "get_agent d caller \<noteq> None"
    and exec: "get_agent d (str_or ex (w_owner w)) = Some a" "a_status a \<noteq> SUSPENDED"
    and schema: "validate_input validate inp (w_input_schema w) = Inr ()"
    and prio: "priority_of_value prio = Some q"
    and key: "case key of None \<Rightarrow> True | Some k \<Rightarrow> k \<notin> set (idem_keys (db_tasks d)) \<and> length k \<le> 256"
    and id: "''task-'' @ env_uuid env \<notin> t_id ` set (db_tasks d)" "length (''task-'' @ env_uuid env) \<le> 128"
    and ints: "case opt_int_or timeout (w_timeout_seconds w) of None \<Rightarrow> True | Some n \<Rightarrow> int4 n"
    and cb: "max_len 2048 cb"
  shows
    "let r = run_tx (create_task validate env wid caller inp ex prio timeout key md cb d) d;
         n = \<lparr>t_id = ''task-'' @ env_uuid env, t_workflow_id = wid, t_principal = caller,
              t_executor = Some (str_or ex (w_owner w)), t_status = ACCEPTED, t_input = inp,
              t_result = JNull, t_priority = q,
              t_timeout_seconds = opt_int_or timeout (w_timeout_seconds w), t_parent = None,
              t_root = None, t_lineage_depth = 0, t_delegation_depth = 0, t_callback_url = cb,
              t_idempotency_key = key, t_created_at = env_now env, t_started_at = None,
              t_completed_at = None, t_paused_at = None, t_metadata = md\<rparr>
     in fst r = Inr (n, w, False) \<and> get_task (snd r) (t_id n) = Some n
        \<and> (\<exists>e. task_events (snd r) (t_id n) = [e] \<and> created_event (t_id n) e)
        \<and> (\<forall>k t. get_task d k = Some t \<longrightarrow> get_task (snd r) k = Some t)"
proof -
  define n where "n = \<lparr>t_id = ''task-'' @ env_uuid env, t_workflow_id = wid, t_principal = caller,
              t_executor = Some (str_or ex (w_owner w)), t_status = ACCEPTED, t_input = inp,
              t_result = JNull, t_priority = q,
              t_timeout_seconds = opt_int_or timeout (w_timeout_seconds w), t_parent = None,
              t_root = None, t_lineage_depth = 0, t_delegation_depth = 0, t_callback_url = cb,
              t_idempotency_key = key, t_created_at = env_now env, t_started_at = None,
              t_completed_at = None, t_paused_at = None, t_metadata = md\<rparr>"
  define c where "c = new_event (t_id n) ''created''
      (Some [(''status'', JStr ''accepted''), (''caller'', JStr caller)]) 1 (env_now env)"
  define uw where "uw = \<lparr>uw_update = None, uw_tasks = [n], uw_events = [c]\<rparr>"
  note inv = reachable_inv [OF reach]
  note ok = db_inv_constraints [OF inv]
  have no_key: "find (\<lambda>t. t_idempotency_key t = Some k) ts = None" if "k \<notin> set (idem_keys ts)" for k ts
    using that by (induction ts) (auto split: option.splits)
  have idem: "(case key of None \<Rightarrow> Inr None | Some k \<Rightarrow> check_idempotency env d k inp) = Inr None"
    using key by (auto simp: check_idempotency_def no_key split: option.splits)
  have tx: "create_task validate env wid caller inp ex prio timeout key md cb d =
      Commit uw (\<lambda>d'. (refresh_task n d', w, False))"
    using w exec schema prio
    by (simp add: create_task_def idem get_workflow_or_404_def check_agent_not_suspended_def Let_def
        uw_def n_def c_def)
  have wid: "wid \<in> w_id ` set (db_workflows d)"
    using workflow_tbl.get_sound w by (fastforce simp: get_workflow_def)
  have agents: "caller \<in> a_id ` set (db_agents d)" "str_or ex (w_owner w) \<in> a_id ` set (db_agents d)"
    using caller exec(1) row_get_None_iff [of a_id "db_agents d"] unfolding get_agent_def
    by (metis, metis option.distinct(1))
  have row: "task_row_ok (apply_work uw d) n"
    using wid agents id(2) ints cb key
    by (auto simp: task_row_ok_def references_def n_def int4_def max_len_def split: option.splits)
  have fresh: "t_id n \<notin> t_id ` set (db_tasks d)" using id(1) by (simp add: n_def)
  have new_key: "case t_idempotency_key n of None \<Rightarrow> True | Some k \<Rightarrow> k \<notin> set (idem_keys (db_tasks d))"
    using key by (auto simp: n_def split: option.splits)
  note new = root_commit [OF ok fresh new_key c_def uw_def row]
  show ?thesis
    unfolding Let_def n_def [symmetric] tx
    using new refresh_task_get [OF new(2)] by (auto simp: created_event_def c_def new_event_def)
qed

lemma create_outcome_witness:
  "\<exists>n. fst (run_tx (create_task any_input (env_at 9 ''7'') ''w'' ''p'' [] None ''high'' None None None None
         sample_accepted) sample_accepted) = Inr (n, sample_workflow, False)"
proof -
  have prem: "get_agent sample_accepted ''p'' \<noteq> None"
    "get_agent sample_accepted (str_or None (w_owner sample_workflow)) = Some sample_agent"
    "a_status sample_agent \<noteq> SUSPENDED" "validate_input any_input [] (w_input_schema sample_workflow) = Inr ()"
    "priority_of_value ''high'' = Some HIGH"
    "''task-'' @ env_uuid (env_at 9 ''7'') \<notin> t_id ` set (db_tasks sample_accepted)"
    "length (''task-'' @ env_uuid (env_at 9 ''7'')) \<le> 128"
    "case opt_int_or None (w_timeout_seconds sample_workflow) of None \<Rightarrow> True | Some n \<Rightarrow> int4 n"
    "max_len 2048 None"
    by code_simp+
  show ?thesis
    using create_outcome [OF reachable_accepted sample_lookups(1) prem(1-5) _ prem(6-9), of None None]
    by (auto simp: Let_def)
qed

text \<open>An executor that is not registered is not noticed by the checks of a creation: the foreign
  key refuses the row at commit, the caller gets an internal error (500) instead of a 4xx, and
  nothing is stored.\<close>

theorem create_unknown_executor:
  assumes w: "get_workflow d wid = Some w" and exec: "get_agent d ex = None" "ex \<noteq> []"
    and schema: "validate_input validate inp (w_input_schema w) = Inr ()"
    and prio: "priority_of_value prio = Some q"
  shows "run_tx (create_task validate env wid caller inp (Some ex) prio timeout None md cb d) d = (Inl DatabaseError, d)
         \<and> exn_status DatabaseError = 500"
proof -
  have ex: "str_or (Some ex) (w_owner w) = ex" using exec(2) by (cases ex) simp_all
  obtain n c r where tx: "create_task validate env wid caller inp (Some ex) prio timeout None md cb d =
      Commit \<lparr>uw_update = None, uw_tasks = [n], uw_events = [c]\<rparr> r" and n: "t_executor n = Some ex"
    using w exec(1) schema prio
    by (auto simp: create_task_def get_workflow_or_404_def check_agent_not_suspended_def Let_def ex)
  let ?uw = "\<lparr>uw_update = None, uw_tasks = [n], uw_events = [c]\<rparr>"
  have "ex \<notin> a_id ` set (db_agents d)"
    using exec(1) by (simp add: get_agent_def row_get_None_iff)
  then have "\<not> task_row_ok (apply_work ?uw d) n"
    by (simp add: task_row_ok_def references_def n)
  moreover have "n \<in> set (db_tasks (apply_work ?uw d))" by (simp add: apply_work_tasks)
  ultimately have "commit ?uw d = None"
    unfolding commit_def Let_def constraints_ok_def by auto
  then show ?thesis by (simp add: tx)
qed

lemma create_unknown_executor_witness:
  "fst (run_tx (create_task any_input (env_at 9 ''7'') ''w'' ''p'' [] (Some ''ghost'') ''high'' None None None None
         sample_accepted) sample_accepted) = Inl DatabaseError"
proof -
  have prem: "get_agent sample_accepted ''ghost'' = None" "''ghost'' \<noteq> []"
    "validate_input any_input [] (w_input_schema sample_workflow) = Inr ()"
    "priority_of_value ''high'' = Some HIGH"
    by code_simp+
  show ?thesis
    using create_unknown_executor [OF sample_lookups(1) prem] by simp
qed

section \<open>Idempotency\<close>

lemma find_idempotent:
  "distinct (idem_keys ts) \<Longrightarrow> t \<in> set ts \<Longrightarrow> t_idempotency_key t = Some k \<Longrightarrow>
   find (\<lambda>t. t_idempotency_key t = Some k) ts = Some t"
proof (induction ts)
  case Nil
  then show ?case by simp
next
  case (Cons u ts)
  have mem: "k \<in> set (idem_keys us)" if "t \<in> set us" "t_idempotency_key t = Some k" for us
    using that by (induction us) (auto split: option.splits)
  show ?case
    using Cons mem by (auto split: option.splits)
qed

text \<open>Idempotent replay. When some stored task carries the idempotency key of a creation and its
  input is the same dictionary as the request's (the same items, in any order), the answer is that
  task, marked as a replay, and nothing is stored. This holds for every caller and every existing
  workflow: neither is compared with those of the stored task.\<close>

theorem create_replay:
  assumes reach: "reachable cfg d" and t: "t \<in> set (db_tasks d)" "t_idempotency_key t = Some k"
    and w: "get_workflow d wid = Some w"
    and same: "map_of inp = map_of (t_input t)" "distinct (map fst inp)" "distinct (map fst (t_input t))"
  shows "run_tx (create_task validate env wid caller inp ex prio timeout (Some k) md cb d) d
           = (Inr (t, w, True), d)"
proof -
  have "distinct (idem_keys (db_tasks d))"
    using db_inv_constraints [OF reachable_inv [OF reach]] by (simp add: constraints_ok_def)
  then have "find (\<lambda>t. t_idempotency_key t = Some k) (db_tasks d) = Some t"
    using t by (rule find_idempotent)
  moreover have "input_hash env (t_input t) = input_hash env inp"
    using json_dumps_sorted_cong [OF same] by (simp add: input_hash_def)
  ultimately have "check_idempotency env d k inp = Inr (Some t)"
    by (simp add: check_idempotency_def Let_def)
  then show ?thesis using w by (simp add: create_task_def get_workflow_or_404_def)
qed

lemma create_replay_witness:
  "run_tx (create_task any_input (env_at 9 []) ''w'' ''someone'' [(''n'', JInt 1)] None ''low'' None (Some ''k'') None None
      sample_running) sample_running = (Inr (sample_running_task, sample_workflow, True), sample_running)"
proof -
  have prem: "sample_running_task \<in> set (db_tasks sample_running)" "t_idempotency_key sample_running_task = Some ''k''"
    by code_simp+
  have inp: "t_input sample_running_task = [(''n'', JInt 1)]" by code_simp
  show ?thesis
    by (rule create_replay [OF reachable_running prem sample_lookups(2)]) (simp_all add: inp)
qed

text \<open>The same key with another input (another hash of the sorted text) is refused with
  IDEMPOTENCY_MISMATCH (422), and nothing is stored.\<close>

theorem create_mismatch:
  assumes "reachable cfg d" and "t \<in> set (db_tasks d)" and "t_idempotency_key t = Some k"
    and "input_hash env (t_input t) \<noteq> input_hash env inp"
  shows "run_tx (create_task validate env wid caller inp ex prio timeout (Some k) md cb d) d
           = (Inl (Fleet IDEMPOTENCY_MISMATCH), d) \<and> exn_status (Fleet IDEMPOTENCY_MISMATCH) = 422"
proof -
  have "distinct (idem_keys (db_tasks d))"
    using db_inv_constraints [OF reachable_inv [OF assms(1)]] by (simp add: constraints_ok_def)
  then have "find (\<lambda>t. t_idempotency_key t = Some k) (db_tasks d) = Some t"
    using assms(2,3) by (rule find_idempotent)
  then show ?thesis using assms(4) by (simp add: create_task_def check_idempotency_def Let_def)
qed

lemma create_mismatch_witness:
  "fst (run_tx (create_task any_input (env_at 9 []) ''w'' ''p'' [(''n'', JInt 2)] None ''low'' None (Some ''k'') None None
      sample_running) sample_running) = Inl (Fleet IDEMPOTENCY_MISMATCH)"
proof -
  have prem: "sample_running_task \<in> set (db_tasks sample_running)" "t_idempotency_key sample_running_task = Some ''k''"
    "input_hash (env_at 9 []) (t_input sample_running_task) \<noteq> input_hash (env_at 9 []) [(''n'', JInt 2)]"
    by code_simp+
  show ?thesis
    using create_mismatch [OF reachable_running prem] by simp
qed

section \<open>Listing\<close>

text \<open>Pagination is complete. On an unchanged database, a client that follows the cursors of a
  filtered listing gets every matching task of the workflow exactly once, newest first, whatever
  the page size; each page holds at most that many tasks; and the total is the number of matches.\<close>

theorem pages_complete:
  assumes reach: "reachable cfg d" and w: "get_workflow d wid = Some w"
    and filters: "parse_filter status_of_value status = Inr st" "parse_filter priority_of_value prio = Inr pr"
      "parse_filter fromisoformat since = Inr si" "parse_filter fromisoformat until = Inr un"
    and limit: "0 < limit"
  shows
    "let page = (\<lambda>c. list_tasks fromisoformat d wid status prio caller since until c limit);
         f = \<lparr>f_status = st, f_priority = pr, f_caller = caller, f_since = si, f_until = un\<rparr>;
         wanted = {t \<in> set (db_tasks d). matches f wid t}
     in (\<exists>rows. follow_pages (Suc (card wanted)) page None = Some rows \<and> set rows = wanted \<and> distinct rows
               \<and> sorted_wrt (\<lambda>x y. page_key y < page_key x) rows)
        \<and> (\<forall>c ts next more total_count. page c = Inr (ts, next, more, total_count) \<longrightarrow>
              length ts \<le> limit \<and> total_count = card wanted)"
proof -
  define f where "f = \<lparr>f_status = st, f_priority = pr, f_caller = caller, f_since = si, f_until = un\<rparr>"
  define rows where "rows = base_rows d f wid"
  define page where "page = (\<lambda>c. list_tasks fromisoformat d wid status prio caller since until c limit)"
  note ok = db_inv_constraints [OF reachable_inv [OF reach]]
  have page: "page c = Inr (let (ts, nxt, further) = keyset_page page_key (\<lambda>c k. k < c) limit rows c
                in (ts, nxt, further, length rows))" for c
    unfolding page_of_keyset [OF limit, symmetric]
    using w filters
    by (simp add: page_def list_tasks_def get_workflow_or_404_def rows_def f_def Let_def split: prod.splits)
  have desc: "sorted_wrt (\<lambda>x y. page_key y < page_key x) rows"
    unfolding rows_def by (rule base_rows_desc [OF ok])
  have set_rows: "set rows = {t \<in> set (db_tasks d). matches f wid t}"
    by (auto simp: rows_def base_rows_def)
  have "distinct (db_tasks d)" using distinct_task_ids [OF ok] by (simp add: distinct_map)
  then have dist: "distinct rows" by (simp add: rows_def base_rows_def)
  then have card: "card {t \<in> set (db_tasks d). matches f wid t} = length rows"
    using set_rows distinct_card by metis
  have "follow_pages (Suc (length rows)) page None = Some rows"
    using page desc limit by (rule task_pages.follow_all)
  then show ?thesis
    unfolding f_def [symmetric] page_def [symmetric]
    using page dist desc by (auto simp: Let_def card set_rows keyset_page_def split: if_splits)
qed

lemma pages_complete_witness:
  "\<exists>rows. follow_pages (Suc (card {t \<in> set (db_tasks sample_running).
        matches \<lparr>f_status = Some RUNNING, f_priority = None, f_caller = None, f_since = None, f_until = None\<rparr> ''w'' t}))
      (\<lambda>c. list_tasks (\<lambda>s. None) sample_running ''w'' (Some ''running'') None None None None c 1) None = Some rows"
proof -
  have prem: "parse_filter status_of_value (Some ''running'') = Inr (Some RUNNING)"
    "parse_filter priority_of_value None = Inr None" "parse_filter (\<lambda>s. None :: time option) None = Inr None"
    "0 < (1 :: nat)"
    by code_simp+
  show ?thesis
    using pages_complete [OF reachable_running sample_lookups(2) prem(1-3) prem(3) prem(4), of None]
    unfolding Let_def by blast
qed

end
