(* ===== verification/Props_Executor.thy ===== *)
theory Props_Executor
  imports Outcomes Samples
begin

text \<open>
  The executor's side of the server: the pending queue, the signals, the events it posts, and the
  sequence of context injections.
\<close>

section \<open>Polling\<close>

text \<open>The pending queue of an agent holds exactly the ACCEPTED tasks assigned to it, each once,
  the higher priority first and, within a priority, the older first.\<close>

theorem pending_order:
  assumes "reachable cfg d"
  shows "set (get_pending_tasks d a) = {t \<in> set (db_tasks d). t_executor t = Some a \<and> t_status t = ACCEPTED}
         \<and> distinct (get_pending_tasks d a)
         \<and> sorted_wrt (\<lambda>t u. t_priority u < t_priority t
                          \<or> t_priority u = t_priority t \<and> t_created_at t \<le> t_created_at u) (get_pending_tasks d a)"
proof -
  let ?ts = "filter (\<lambda>t. t_executor t = Some a \<and> t_status t = ACCEPTED) (db_tasks d)"
  have "distinct (db_tasks d)"
    using distinct_task_ids [OF db_inv_constraints [OF reachable_inv [OF assms]]] by (simp add: distinct_map)
  moreover have "sorted (map pending_key (get_pending_tasks d a))"
    by (simp add: get_pending_tasks_def)
  then have "sorted_wrt (\<lambda>t u. pending_key t \<le> pending_key u) (get_pending_tasks d a)"
    by (simp add: sorted_map)
  then have "sorted_wrt (\<lambda>t u. t_priority u < t_priority t
                          \<or> t_priority u = t_priority t \<and> t_created_at t \<le> t_created_at u) (get_pending_tasks d a)"
    by (rule sorted_wrt_mono_rel [rotated])
       (auto simp: pending_key_def less_task_priority_def less_eq_prod_simp)
  ultimately show ?thesis by (auto simp: get_pending_tasks_def)
qed

lemma pending_order_witness:
  "set (get_pending_tasks sample_accepted ''p'')
     = {t \<in> set (db_tasks sample_accepted). t_executor t = Some ''p'' \<and> t_status t = ACCEPTED}"
  using pending_order [OF reachable_accepted] by blast

lemma signal_type_of_event:
  "dict_get (signal_of_event e) ''signal_type'' = JStr (e_type e)"
  by (auto simp: signal_of_event_def Let_def dict_get_def split: option.splits)

text \<open>Signals of a cancellation. A task cancelled within the last minute shows up as a
  cancel_requested signal of its executor if and only if that executor still has some other task
  running or paused: \<open>get_pending_signals\<close> returns early when there is no active task, before it
  looks at the terminated ones, so an executor whose only task is cancelled is never told.\<close>

theorem cancel_signal_iff:
  assumes "t \<in> set (db_tasks d)" and "t_executor t = Some a" and "t_status t = CANCELLED"
    and "t_completed_at t = Some c" and "env_db_now env - seconds 60 \<le> c"
  shows "signal_of_terminated t \<in> set (get_pending_signals env d a)
         \<longleftrightarrow> (\<exists>u \<in> set (db_tasks d). t_executor u = Some a \<and> t_status u \<in> {RUNNING, PAUSED})"
  using assms
  by (auto simp: get_pending_signals_def Let_def filter_empty_conv split: option.splits)

definition sample_cancelled_task :: task where
  "sample_cancelled_task = sample_running_task\<lparr>t_status := CANCELLED, t_completed_at := Some 9\<rparr>"

lemma cancel_signal_iff_witness:
  "signal_of_terminated sample_cancelled_task
     \<notin> set (get_pending_signals (env_at 10 []) (sample_base\<lparr>db_tasks := [sample_cancelled_task]\<rparr>) ''p'')"
proof -
  have prem: "sample_cancelled_task \<in> set (db_tasks (sample_base\<lparr>db_tasks := [sample_cancelled_task]\<rparr>))"
    "t_executor sample_cancelled_task = Some ''p''" "t_status sample_cancelled_task = CANCELLED"
    "t_completed_at sample_cancelled_task = Some 9" "env_db_now (env_at 10 []) - seconds 60 \<le> 9"
    by code_simp+
  then show ?thesis
    using cancel_signal_iff [OF prem] by simp
qed

section \<open>Posted events\<close>

text \<open>The sequence of a posted event has to be beyond every event of the task's log, those the
  server wrote itself included; otherwise nothing is stored. Since each log starts with the
  created event numbered 1, an event posted with sequence 1 is always refused.\<close>

theorem stale_sequence_refused:
  assumes "get_task d tid = Some t" and "t_executor t = Some ex" and "ty \<in> set valid_event_types"
    and "sq \<le> max_sequence d tid \<or> reachable cfg d \<and> sq \<le> 1"
  shows "run_tx (process_sidecar_event env tid ty data sq ex d) d = (Inl (Fleet INVALID_INPUT), d)"
proof -
  have "sq \<le> max_sequence d tid"
    using assms(4)
  proof
    assume r: "reachable cfg d \<and> sq \<le> 1"
    then have "log_inv d" using reachable_inv by (auto simp: db_inv_def)
    then obtain e where "e \<in> set (db_events d)" "created_event tid e"
      using get_taskD [OF assms(1)] by (auto simp: log_inv_def)
    then show ?thesis using r max_sequence_ge [of e d tid] by (auto simp: created_event_def)
  qed
  then show ?thesis using assms(1-3) by (simp add: process_sidecar_event_def)
qed

lemma stale_sequence_refused_witness:
  "run_tx (process_sidecar_event (env_at 9 []) ''task-1'' ''status'' [(''status'', JStr ''running'')] 1 ''p''
      sample_accepted) sample_accepted = (Inl (Fleet INVALID_INPUT), sample_accepted)"
proof -
  have prem: "t_executor sample_task = Some ''p''" "''status'' \<in> set valid_event_types" by code_simp+
  show ?thesis
    using stale_sequence_refused [OF sample_lookups(4) prem, of 1 sample_settings] reachable_accepted by simp
qed

text \<open>The row and the log after an accepted event, for any type.\<close>

lemmas sidecar_run = sidecar_accepted [OF reachable_inv]

text \<open>A completed event. From RUNNING, and only from RUNNING, it stores the result and the
  completion time with status COMPLETED, appends the event under the given sequence, and schedules
  the callback exactly when the task has a callback URL; from any other status nothing is stored.\<close>

theorem completed_event_outcome:
  assumes "reachable cfg d" and "get_task d tid = Some t" and "t_executor t = Some ex"
    and "max_sequence d tid < sq" and "int4 sq"
  shows "let r = run_tx (process_sidecar_event env tid ''completed'' data sq ex d) d
         in if t_status t \<noteq> RUNNING then r = (Inl (Fleet INVALID_STATE_TRANSITION), d)
            else (\<exists>e t'. fst r = Inr (e, t', t_callback_url t \<noteq> None) \<and> get_task (snd r) tid = Some t'
                    \<and> t_status t' = COMPLETED \<and> t_completed_at t' = Some (env_now_utc env)
                    \<and> t_result t' = dict_get data ''result'' \<and> same_identity t t'
                    \<and> task_events (snd r) tid = task_events d tid @ [e] \<and> e_sequence e = sq
                    \<and> e_type e = ''completed'' \<and> e_data e = Some data)"
proof (cases "t_status t = RUNNING")
  case False
  then have "COMPLETED \<notin> set (valid_transitions (t_status t))" by (cases "t_status t") simp_all
  then show ?thesis
    using assms(2-4) False
    by (simp add: process_sidecar_event_def valid_event_types_def apply_event_def transition_to_def
        validate_transition_def)
next
  case True
  define u where "u = record_completion env data (t\<lparr>t_status := COMPLETED, t_completed_at := Some (env_now_utc env)\<rparr>)"
  have u: "t_status u = COMPLETED" "t_completed_at u = Some (env_now_utc env)" "t_result u = dict_get data ''result''"
    "t_callback_url u = t_callback_url t"
    by (simp_all add: u_def record_completion_def Let_def)
  have app: "apply_event env ''completed'' data t = Inr u"
    using True by (simp add: apply_event_def transition_to_def validate_transition_def Let_def u_def)
  have "''completed'' \<in> set valid_event_types" by (simp add: valid_event_types_def)
  from sidecar_run [OF assms(1-3) this assms(4,5) app] show ?thesis
    using True u evolves_identity [OF apply_event_evolves [OF app]] by (auto simp: Let_def new_event_def)
qed

lemma completed_event_outcome_witness:
  "\<exists>e t'. fst (run_tx (process_sidecar_event (env_at 9 []) ''task-1'' ''completed'' [] 5 ''p'' sample_running) sample_running)
     = Inr (e, t', False)"
proof -
  have prem: "t_executor sample_running_task = Some ''p''" "max_sequence sample_running ''task-1'' < 5" "int4 5"
    "t_status sample_running_task = RUNNING" "t_callback_url sample_running_task = None"
    by code_simp+
  show ?thesis
    using completed_event_outcome [OF reachable_running sample_lookups(5) prem(1-3), of "env_at 9 []" "[]"] prem(4,5)
    by (auto simp: Let_def)
qed

text \<open>A second progress report is lost. The metadata column is a plain JSONB dictionary that the
  handler changes in place; unless the ORM tracks such changes (it does not by default), the first
  report of a task without metadata is stored, but a report on a task that has metadata is
  recorded as an event and leaves the task's row, and so its visible progress, as it was.\<close>

theorem progress_update_lost:
  assumes "reachable cfg d" and "get_task d tid = Some t" and "t_executor t = Some ex"
    and "max_sequence d tid < sq" and "int4 sq" and "dict_has data ''progress''" and "\<not> env_tracks env"
  shows "let r = run_tx (process_sidecar_event env tid ''progress'' data sq ex d) d
         in (\<exists>x. fst r = Inr x)
            \<and> (case t_metadata t of
                 Some m \<Rightarrow> get_task (snd r) tid = Some t
               | None \<Rightarrow> (\<exists>t' m. get_task (snd r) tid = Some t' \<and> t_metadata t' = Some m
                            \<and> dict_get m ''progress'' = dict_get data ''progress''))"
proof -
  have app: "apply_event env ''progress'' data t = Inr (record_progress env data t)"
    using assms(6) by (simp add: apply_event_def)
  have "''progress'' \<in> set valid_event_types" by (simp add: valid_event_types_def)
  note run = sidecar_run [OF assms(1-3) this assms(4,5) app]
  show ?thesis
  proof (cases "t_metadata t")
    case None
    then have "\<exists>m. t_metadata (record_progress env data t) = Some m
        \<and> dict_get m ''progress'' = dict_get data ''progress''"
      by (auto simp: record_progress_def flush_metadata_def Let_def)
    then show ?thesis using run None by (auto simp: Let_def)
  next
    case (Some m)
    then have "record_progress env data t = t"
      using assms(7) by (simp add: record_progress_def flush_metadata_def Let_def)
    then show ?thesis using run Some by (auto simp: Let_def)
  qed
qed

lemma progress_update_lost_witness:
  "\<exists>x. fst (run_tx (process_sidecar_event (env_at 9 []) ''task-1'' ''progress'' [(''progress'', JInt 50)] 5 ''p''
       sample_running) sample_running) = Inr x"
proof -
  have prem: "t_executor sample_running_task = Some ''p''" "max_sequence sample_running ''task-1'' < 5" "int4 5"
    "dict_has [(''progress'', JInt 50)] ''progress''" "\<not> env_tracks (env_at 9 [])"
    by code_simp+
  show ?thesis
    using progress_update_lost [OF reachable_running sample_lookups(5) prem] by (auto simp: Let_def)
qed

text \<open>An executor can make its task impossible to cancel: after an accepted event with the largest
  four-byte sequence number, every cancellation fails in the database with the task unchanged.\<close>

theorem executor_blocks_cancel:
  assumes "get_task d tid = Some t" and "max_sequence d tid = 2147483647"
  shows "snd (run_tx (cancel_task env wid tid caller reason d) d) = d
         \<and> (\<forall>x. fst (run_tx (cancel_task env wid tid caller reason d) d) \<noteq> Inr x)"
proof (cases "cancel_task env wid tid caller reason d")
  case (Commit uw r)
  then obtain u u' e where uw: "e_task_id e = tid \<and> e_sequence e = max_sequence d tid + 1"
      "uw = \<lparr>uw_update = Some (u, u'), uw_tasks = [], uw_events = [e]\<rparr>"
    using cancel_work [of env wid tid caller reason d uw] by auto
  have "commit uw d = None"
    using exhausted_commit [of e uw d tid] uw assms(2) by (simp add: sequence_left_def)
  then show ?thesis by (simp add: Commit)
next
  case (CommitRaise uw x)
  then show ?thesis by (auto simp: cancel_task_def Let_def split: op_splits)
qed (auto simp: cancel_task_def Let_def split: op_splits)

definition sample_last_event :: task_event where
  "sample_last_event = sample_started\<lparr>e_id := 3, e_type := ''log'', e_sequence := 2147483647\<rparr>"

definition sample_blocked :: db where
  "sample_blocked = sample_running\<lparr>db_events := [sample_created, sample_started, sample_last_event], db_next_event_id := 4\<rparr>"

lemma executor_blocks_cancel_witness:
  "snd (run_tx (process_sidecar_event (env_at 4 []) ''task-1'' ''log'' [(''status'', JStr ''running'')] 2147483647 ''p''
       sample_running) sample_running) = sample_blocked
   \<and> snd (run_tx (cancel_task (env_at 9 []) ''w'' ''task-1'' ''p'' None sample_blocked) sample_blocked) = sample_blocked"
proof -
  have prem: "get_task sample_blocked ''task-1'' = Some sample_running_task"
    "max_sequence sample_blocked ''task-1'' = 2147483647"
    by code_simp+
  have "snd (run_tx (process_sidecar_event (env_at 4 []) ''task-1'' ''log'' [(''status'', JStr ''running'')] 2147483647 ''p''
       sample_running) sample_running) = sample_blocked"
    by code_simp
  then show ?thesis using executor_blocks_cancel [OF prem] by blast
qed

section \<open>Context injection\<close>

lemma latest_event_le: "latest_event es = Some f \<Longrightarrow> f \<in> set es"
  by (induction es arbitrary: f) (auto split: option.splits if_splits)

lemma latest_event_snoc:
  "\<forall>f \<in> set es. e_created_at f \<le> e_created_at e \<Longrightarrow> latest_event (es @ [e]) = Some e"
  by (induction es) auto

text \<open>Context injections are sequenced. An accepted injection has a sequence beyond the last
  accepted one and becomes the last one, provided the clock has not gone back behind an earlier
  injection (the last one is found by creation time); so the same or a lower sequence is refused
  from then on with CONTEXT_REJECTED. The task's row is not changed, and the event carries the
  payload and the injector.\<close>

theorem context_sequenced:
  assumes reach: "reachable cfg d" and t: "get_task d tid = Some t"
    and acc: "fst (run_tx (inject_context env wid tid caller ct payload sq urg d) d) = Inr resp"
    and clock: "\<forall>e \<in> set (context_events d tid). e_created_at e \<le> env_now env"
  shows "let d' = snd (run_tx (inject_context env wid tid caller ct payload sq urg d) d)
         in (\<exists>n. get_max_context_sequence d tid = Inr n \<and> n < sq)
            \<and> get_max_context_sequence d' tid = Inr sq
            \<and> count_context_injections d' tid = count_context_injections d tid + 1
            \<and> get_task d' tid = Some t
            \<and> (\<forall>sq2 ct2 p2 urg2 env2. sq2 \<le> sq \<longrightarrow>
                 run_tx (inject_context env2 wid tid caller ct2 p2 sq2 urg2 d') d'
                   = (Inl (Fleet CONTEXT_REJECTED), d'))"
proof -
  define op where "op = inject_context env wid tid caller ct payload sq urg d"
  obtain uw r where op: "op = Commit uw r"
    using acc unfolding op_def by (auto simp: inject_context_def Let_def split: op_splits)
  then have work: "tx_work (inject_context env wid tid caller ct payload sq urg d) = Some uw"
    by (simp add: op_def)
  obtain n e where before: "get_max_context_sequence d tid = Inr n" "n < sq"
    and e: "e_task_id e = tid" "e_type e = ''context_injected''" "e_created_at e = env_now env"
    and row: "\<exists>row. e_data e = Some row \<and> map_of row ''context_sequence'' = Some (JInt sq)"
    and uw: "uw = \<lparr>uw_update = None, uw_tasks = [], uw_events = [e]\<rparr>"
    and st: "t_status t \<in> {RUNNING, PAUSED}"
    using inject_work [OF work] t by auto
  obtain d' where c: "commit uw d = Some d'" and snd: "snd (run_tx op d) = d'"
    using acc op by (cases "commit uw d") (auto simp: op_def)
  have d': "d' = apply_work uw d" by (rule commit_apply [OF c])
  have ctx: "context_events d' tid = context_events d tid @ [e\<lparr>e_id := db_next_event_id d\<rparr>]"
    using e by (simp add: context_events_def d' task_events_apply uw)
  have mx: "get_max_context_sequence d' tid = Inr sq"
    using row clock e(3)
    by (auto simp: get_max_context_sequence_def ctx latest_event_snoc dict_get_or_def)
  have t': "get_task d' tid = Some t" using commit_get_other [OF c t] by (simp add: uw)
  have w': "get_workflow d' k = get_workflow d k" for k by (simp add: get_workflow_def d')
  obtain w where w: "get_workflow d wid = Some w" and wid: "t_workflow_id t = wid"
    and auth: "caller = t_principal t \<or> caller = w_owner w"
    using op t unfolding op_def by (auto simp: inject_context_def Let_def split: op_splits)
  have "run_tx (inject_context env2 wid tid caller ct2 p2 sq2 urg2 d') d' = (Inl (Fleet CONTEXT_REJECTED), d')"
    if "sq2 \<le> sq" for sq2 ct2 p2 urg2 env2
    using that w wid auth st t' mx by (auto simp: inject_context_def w')
  then show ?thesis
    using before mx ctx t' snd by (simp add: Let_def op_def [symmetric] count_context_injections_def)
qed

lemma context_sequenced_witness:
  "get_max_context_sequence (snd (run_tx (inject_context (env_at 9 ''c'') ''w'' ''task-1'' ''p'' ''constraint''
      [(''message'', JStr ''m'')] 1 ''normal'' sample_running) sample_running)) ''task-1'' = Inr 1"
proof -
  have prem: "\<exists>resp. fst (run_tx (inject_context (env_at 9 ''c'') ''w'' ''task-1'' ''p'' ''constraint''
      [(''message'', JStr ''m'')] 1 ''normal'' sample_running) sample_running) = Inr resp"
    by (rule exI, code_simp)
  have clock: "\<forall>e \<in> set (context_events sample_running ''task-1''). e_created_at e \<le> env_now (env_at 9 ''c'')"
    by code_simp
  obtain resp where acc: "fst (run_tx (inject_context (env_at 9 ''c'') ''w'' ''task-1'' ''p'' ''constraint''
      [(''message'', JStr ''m'')] 1 ''normal'' sample_running) sample_running) = Inr resp"
    using prem by blast
  show ?thesis
    using context_sequenced [OF reachable_running sample_lookups(5) acc clock] by (simp add: Let_def)
qed

text \<open>The executor sets the sequence of the principal. A context_injected event that the executor reports, as the
  sidecar does for every context it takes, counts as an injection; as the latest one, its
  context_sequence is what the next injection is compared with. So an executor that reports an earlier context
  makes the later sequences valid again; and one that reports a context without an
  integer sequence makes every injection fail with an internal error.\<close>

theorem reported_context_resets:
  assumes reach: "reachable cfg d" and t: "get_task d tid = Some t" and ex: "t_executor t = Some ex"
    and sq: "max_sequence d tid < sq" "int4 sq"
    and clock: "\<forall>e \<in> set (context_events d tid). e_created_at e \<le> env_now env"
    and d': "d' = snd (run_tx (process_sidecar_event env tid ''context_injected'' data sq ex d) d)"
  shows "get_max_context_sequence d' tid
           = (case py_int (dict_get_or data ''context_sequence'' (JInt 0)) of None \<Rightarrow> Inl PythonError | Some n \<Rightarrow> Inr n)"
    and "count_context_injections d' tid = count_context_injections d tid + 1"
    and "py_int (dict_get_or data ''context_sequence'' (JInt 0)) = None \<Longrightarrow> get_workflow d' (t_workflow_id t) = Some w \<Longrightarrow>
           caller = t_principal t \<or> caller = w_owner w \<Longrightarrow> t_status t \<in> {RUNNING, PAUSED} \<Longrightarrow>
           run_tx (inject_context env2 (t_workflow_id t) tid caller ct payload sq2 urg d') d' = (Inl PythonError, d')"
proof -
  have ty: "''context_injected'' \<in> set valid_event_types" by (simp add: valid_event_types_def)
  have app: "apply_event env ''context_injected'' data t = Inr t" by (simp add: apply_event_def)
  let ?e = "new_event tid ''context_injected'' (Some data) sq (env_now env)\<lparr>e_id := db_next_event_id d\<rparr>"
  have kept: "get_task d' tid = Some t" and log: "task_events d' tid = task_events d tid @ [?e]"
    using sidecar_accepted [OF reachable_inv [OF reach] t ex ty sq app] by (auto simp: d')
  have ctx: "context_events d' tid = context_events d tid @ [?e]"
    by (simp add: context_events_def log new_event_def)
  then have "latest_event (context_events d' tid) = Some ?e"
    using latest_event_snoc [of "context_events d tid" ?e] clock by (simp add: new_event_def)
  then show max: "get_max_context_sequence d' tid
           = (case py_int (dict_get_or data ''context_sequence'' (JInt 0)) of None \<Rightarrow> Inl PythonError | Some n \<Rightarrow> Inr n)"
    by (simp add: get_max_context_sequence_def new_event_def)
  show "count_context_injections d' tid = count_context_injections d tid + 1"
    by (simp add: count_context_injections_def ctx)
  show "run_tx (inject_context env2 (t_workflow_id t) tid caller ct payload sq2 urg d') d' = (Inl PythonError, d')"
    if "py_int (dict_get_or data ''context_sequence'' (JInt 0)) = None" "get_workflow d' (t_workflow_id t) = Some w"
      "caller = t_principal t \<or> caller = w_owner w" "t_status t \<in> {RUNNING, PAUSED}"
    using that by (auto simp: inject_context_def kept max)
qed

lemma reported_context_resets_witness:
  "get_max_context_sequence (snd (run_tx (process_sidecar_event (env_at 9 []) ''task-1'' ''context_injected''
      [(''context_sequence'', JNull)] 7 ''p'' sample_running) sample_running)) ''task-1'' = Inl PythonError"
proof -
  have prem: "t_executor sample_running_task = Some ''p''" "max_sequence sample_running ''task-1'' < 7" "int4 7"
    by code_simp+
  have clock: "\<forall>e \<in> set (context_events sample_running ''task-1''). e_created_at e \<le> env_now (env_at 9 [])"
    by code_simp
  show ?thesis
    using reported_context_resets(1) [OF reachable_running sample_lookups(5) prem clock refl, of "[(''context_sequence'', JNull)]"]
    by (simp add: dict_get_or_def)
qed

section \<open>Links\<close>

text \<open>The action links of a task tell the principal what the service will do. The link table has
  cancel, pause, resume, context, redirect or retask for the task's status exactly when that call,
  made by the principal with no optional argument, below the lineage depth limit and with a fresh
  context sequence, goes past every check to its commit.\<close>

theorem links_match_guards:
  assumes w: "get_workflow d wid = Some w" and t: "get_task d tid = Some t" and wid: "t_workflow_id t = wid"
    and depth: "t_lineage_depth t < fleet_lineage_max_depth (env_settings env)"
    and seq: "get_max_context_sequence d tid = Inr n" "n < sq"
  shows "(dict_has (build_task_links tid wid (t_status t)) ''cancel'' \<longleftrightarrow>
            tx_work (cancel_task env wid tid (t_principal t) None d) \<noteq> None)
       \<and> (dict_has (build_task_links tid wid (t_status t)) ''pause'' \<longleftrightarrow>
            tx_work (pause_task env wid tid (t_principal t) None d) \<noteq> None)
       \<and> (dict_has (build_task_links tid wid (t_status t)) ''resume'' \<longleftrightarrow>
            tx_work (resume_task env wid tid (t_principal t) None d) \<noteq> None)
       \<and> (dict_has (build_task_links tid wid (t_status t)) ''context'' \<longleftrightarrow>
            tx_work (inject_context env wid tid (t_principal t) ct payload sq urg d) \<noteq> None)
       \<and> (dict_has (build_task_links tid wid (t_status t)) ''redirect'' \<longleftrightarrow>
            tx_work (redirect_task env wid tid (t_principal t) reason inp inherit None None d) \<noteq> None)
       \<and> (dict_has (build_task_links tid wid (t_status t)) ''retask'' \<longleftrightarrow>
            tx_work (retask_task env wid tid (t_principal t) [(''message'', m)] None None d) \<noteq> None)"
proof -
  have id: "t_id t = tid" using get_taskD [OF t] by simp
  have no: "dict_get [(''message'', m)] ''additional_input'' = JNull" by (simp add: dict_get_def)
  note has = build_task_links_has
  show ?thesis
    by (intro conjI; cases "t_status t")
       (use w t wid depth seq id no in
         \<open>simp_all add: has op_defs transition_to_def validate_transition_def merge_additional_def
            resolve_priority_def Let_def split: option.splits\<close>)
qed

lemma links_match_guards_witness:
  "tx_work (cancel_task (env_at 9 []) ''w'' ''task-1'' (t_principal sample_running_task) None sample_running) \<noteq> None
   \<and> tx_work (resume_task (env_at 9 []) ''w'' ''task-1'' (t_principal sample_running_task) None sample_running) = None"
proof -
  have prem: "t_workflow_id sample_running_task = ''w''"
    "t_lineage_depth sample_running_task < fleet_lineage_max_depth (env_settings (env_at 9 []))"
    "get_max_context_sequence sample_running ''task-1'' = Inr 0" "(0 :: int) < 1"
    by code_simp+
  have has: "dict_has (build_task_links ''task-1'' ''w'' (t_status sample_running_task)) ''cancel''"
    "\<not> dict_has (build_task_links ''task-1'' ''w'' (t_status sample_running_task)) ''resume''"
    by code_simp+
  show ?thesis
    using links_match_guards [OF sample_lookups(2) sample_lookups(5) prem, of ct payload urg reason inp inherit m] has
    by simp
qed

end
