(* ===== verification/Registry_Correct.thy ===== *)
theory Registry_Correct
  imports System
begin

text \<open>
  The operations of the agent registry on the databases of a run, where every row fits its columns: what
  registrations, heartbeats and sweeps store. A write of agents never fails there.
\<close>

section \<open>Rows that fit\<close>

lemma row_get_map: "(\<And>r. key (f r) = key r) \<Longrightarrow> row_get key (map f rs) k = map_option f (row_get key rs k)"
  by (induction rs) auto

definition rows_ok :: "db \<Rightarrow> bool" where
  "rows_ok d = ((\<forall>a \<in> set (db_agents d). agent_row_ok a) \<and> (\<forall>w \<in> set (db_workflows d). workflow_row_ok w))"

lemma write_rows_ok: "rows_ok d \<Longrightarrow> rows_ok (snd (write_rows x d' d))"
  by (auto simp: write_rows_def commit_rows_def rows_ok_def)

lemma handle_rows_ok:
  assumes "rows_ok d"
  shows "rows_ok (handle validate env c d)"
proof -
  have same: "db_agents d' = db_agents d \<Longrightarrow> db_workflows d' = db_workflows d \<Longrightarrow> rows_ok d'" for d'
    using assms by (simp add: rows_ok_def)
  have "rows_ok (snd (register_agent env body d))" "rows_ok (snd (heartbeat env auth ag d))"
    "rows_ok (snd (sweep_update ids d))" "rows_ok (snd (create_workflow env wid owner f d))"
    "rows_ok (snd (update_workflow env wid owner ch d))" for body auth ag ids wid owner f ch
    using assms write_rows_ok [OF assms]
    by (auto simp: op_defs Let_def split: option.splits sum.splits)
  then show ?thesis
    by (cases c)
       (simp_all add: same create_op.run_frame cancel_op.run_frame retask_op.run_frame redirect_op.run_frame
          pause_op.run_frame resume_op.run_frame inject_op.run_frame sidecar_op.run_frame)
qed

interpretation registry: invariant_system empty_db "server_step cfg" rows_ok "\<lambda>_ _. True"
  for cfg
proof
  show "rows_ok empty_db" by (simp add: rows_ok_def empty_db_def)
  show "rows_ok d'" if "rows_ok d" "server_step cfg d d'" for d d'
    using that handle_rows_ok by (auto elim!: server_stepE)
qed simp_all

lemma reachable_rows_ok: "reachable cfg d \<Longrightarrow> rows_ok d"
  unfolding reachable_def by (rule registry.run_keeps_inv)

section \<open>Writing agents\<close>

text \<open>Rewriting agents in place, with fitting rows, always commits.\<close>

lemma write_agents:
  assumes reach: "reachable cfg d" and id: "\<And>a. a_id (f a) = a_id a"
    and fits: "\<And>a. agent_row_ok a \<Longrightarrow> agent_row_ok (f a)"
  shows "write_rows x (d\<lparr>db_agents := map f (db_agents d)\<rparr>) d = (Inr x, d\<lparr>db_agents := map f (db_agents d)\<rparr>)"
    and "get_agent (d\<lparr>db_agents := map f (db_agents d)\<rparr>) k = map_option f (get_agent d k)"
proof -
  let ?d' = "d\<lparr>db_agents := map f (db_agents d)\<rparr>"
  note ok = db_inv_constraints [OF reachable_inv [OF reach]]
  have ids_same: "map a_id (map f (db_agents d)) = map a_id (db_agents d)" using id by simp
  then have set_same: "a_id ` set (map f (db_agents d)) = a_id ` set (db_agents d)"
    by (metis list.set_map)
  have "task_row_ok ?d' t = task_row_ok d t" "event_row_ok ?d' e = event_row_ok d e" for t e
    using set_same by (auto simp: task_row_ok_def event_row_ok_def simp del: set_map)
  then have "constraints_ok ?d'"
    using ok ids_same set_same unfolding constraints_ok_def by (simp del: set_map map_map)
  moreover have "\<forall>a \<in> set (db_agents ?d'). agent_row_ok a"
    using reachable_rows_ok [OF reach] fits by (auto simp: rows_ok_def)
  ultimately have "commit_rows ?d' = Some ?d'"
    using reachable_rows_ok [OF reach] by (simp add: commit_rows_def rows_ok_def)
  then show "write_rows x ?d' d = (Inr x, ?d')" by (simp add: write_rows_def)
  show "get_agent ?d' k = map_option f (get_agent d k)"
    using id by (simp add: get_agent_def row_get_map)
qed

lemma mark_unreachable_row:
  "a_id (mark_unreachable ids a) = a_id a" "agent_row_ok a \<Longrightarrow> agent_row_ok (mark_unreachable ids a)"
  by (simp_all add: mark_unreachable_def agent_row_ok_def)

lemma sweep_update_run:
  assumes "reachable cfg d"
  shows "fst (sweep_update ids d) = Inr ()"
    and "get_agent (snd (sweep_update ids d)) k = map_option (mark_unreachable ids) (get_agent d k)"
proof -
  note w = write_agents [where f = "mark_unreachable ids", OF assms mark_unreachable_row]
  have nil: "mark_unreachable [] = (\<lambda>a. a)" by (simp add: mark_unreachable_def fun_eq_iff)
  show "fst (sweep_update ids d) = Inr ()" by (simp add: sweep_update_def w(1))
  show "get_agent (snd (sweep_update ids d)) k = map_option (mark_unreachable ids) (get_agent d k)"
    by (cases "ids = []") (simp_all add: sweep_update_def w nil option.map_ident)
qed

lemma heartbeat_run:
  assumes "reachable cfg d" and "get_agent d k = Some a"
  shows "fst (heartbeat env k k d) = Inr (beat (env_now env) a)"
    and "get_agent (snd (heartbeat env k k d)) k = Some (beat (env_now env) a)"
proof -
  let ?f = "\<lambda>r. if a_id r = k then beat (env_now env) r else r"
  have f: "a_id (?f r) = a_id r" "agent_row_ok r \<Longrightarrow> agent_row_ok (?f r)" for r
    by (auto simp: beat_def Let_def agent_row_ok_def)
  have upd: "row_upd a_id k (beat (env_now env)) (db_agents d) = map ?f (db_agents d)"
    by (simp add: row_upd_def)
  have "a_id a = k" using assms(2) agent_tbl.get_sound by (auto simp: get_agent_def)
  then show "fst (heartbeat env k k d) = Inr (beat (env_now env) a)"
    "get_agent (snd (heartbeat env k k d)) k = Some (beat (env_now env) a)"
    using write_agents(1) [where f = ?f and x = "beat (env_now env) a", OF assms(1) f]
      write_agents(2) [where f = ?f, OF assms(1) f] assms(2)
    by (simp_all add: heartbeat_def upd)
qed

text \<open>A registration under a new id stores the agent.\<close>

lemma register_run:
  assumes reach: "reachable cfg d" and new: "get_agent d (rr_agent_id body) = None"
    and valid: "validate_agent_id (rr_agent_id body)" "validate_public_key (rr_public_key body)"
    and name: "max_len 256 (rr_display_name body)"
  shows "fst (register_agent env body d) = Inr (new_agent env body, True)"
    and "get_agent (snd (register_agent env body d)) k
           = (if k = rr_agent_id body then Some (new_agent env body) else get_agent d k)"
proof -
  let ?a = "new_agent env body"
  let ?d' = "d\<lparr>db_agents := db_agents d @ [?a]\<rparr>"
  note ok = db_inv_constraints [OF reachable_inv [OF reach]]
  have id: "a_id ?a = rr_agent_id body" by (simp add: new_agent_def)
  have fresh: "rr_agent_id body \<notin> a_id ` set (db_agents d)"
    using new by (simp add: get_agent_def row_get_None_iff)
  have "task_row_ok d t \<Longrightarrow> task_row_ok ?d' t" "event_row_ok ?d' e = event_row_ok d e" for t e
    by (auto simp: task_row_ok_def event_row_ok_def references_def split: option.splits)
  then have "constraints_ok ?d'"
    using ok fresh id unfolding constraints_ok_def by auto
  moreover have "agent_row_ok ?a"
    using valid(1) name by (simp add: agent_row_ok_def new_agent_def validate_agent_id_def)
  ultimately have "commit_rows ?d' = Some ?d'"
    using reachable_rows_ok [OF reach] by (simp add: commit_rows_def rows_ok_def)
  then have "register_agent env body d = (Inr (?a, True), ?d')"
    using valid new by (simp add: register_agent_def write_rows_def Let_def)
  then show "fst (register_agent env body d) = Inr (new_agent env body, True)"
    and "get_agent (snd (register_agent env body d)) k
           = (if k = rr_agent_id body then Some (new_agent env body) else get_agent d k)"
    using new id by (auto simp: get_agent_def row_get_append split: option.splits)
qed

end
