(* ===== verification/Props_Registry.thy ===== *)
theory Props_Registry
  imports Samples Registry_Correct
begin

text \<open>
  Agents, workflows and request authentication: what every call keeps of an agent and a workflow,
  the outcome of registrations, heartbeats and sweeps, and when a request is authenticated.
\<close>

section \<open>Authentication\<close>

text \<open>C7: Authentication against the registered agents. A request gets an identity exactly when its
  path is protected, its Authorization header parses to that agent and a signature, its timestamp
  is within five minutes of the server's clock either way, the agent is registered with the key
  returned and not suspended, and the signature verifies under that key for the signing string of
  this very method, path with query, timestamp and body.\<close>

theorem authenticated_iff:
  "require_auth (get_agent_public_key d) (is_agent_suspended d) verify sha256 fromisoformat now request
     = Authenticated a k \<longleftrightarrow>
   r_path request \<notin> set unprotected_paths
   \<and> (\<exists>header signature timestamp ts agent.
        r_authorization request = Some header
        \<and> parse_authorization_header header = Some (a, signature)
        \<and> r_timestamp request = Some timestamp
        \<and> fromisoformat timestamp = Some ts \<and> \<bar>now - ts\<bar> \<le> REPLAY_WINDOW
        \<and> get_agent d a = Some agent \<and> public_key_of (a_public_key agent) = Inr k
        \<and> a_status agent \<noteq> SUSPENDED
        \<and> verify k signature (build_signing_string sha256 (r_method request) (signed_path request)
                                timestamp (r_body request)))"
proof -
  have reg: "registered_agent d a = Some (k, False) \<longleftrightarrow>
      (\<exists>agent. get_agent d a = Some agent \<and> public_key_of (a_public_key agent) = Inr k
               \<and> a_status agent \<noteq> SUSPENDED)"
    by (auto simp: registered_agent_def split: option.splits sum.splits)
  show ?thesis unfolding db_lookup.identity_iff reg by blast
qed

text \<open>A request signed by the sidecar's \<open>sign_request\<close> for a path without a query is authenticated
  as the signing agent, when the agent is registered with the signer's public key and active, the
  clocks differ by at most five minutes, the timestamp format is read back as written, and the
  signature scheme verifies its own signatures.\<close>

theorem signed_request_authenticated:
  assumes headers: "sign_request sign sha256 sent method path body sk a = (auth, timestamp)"
    and name: "a \<noteq> []" "CHR '':'' \<notin> set a"
    and scheme: "\<And>m. verify (pk sk) (sign sk m) m" "\<And>m. sign sk m \<noteq> []"
    and clock: "fromisoformat (isoformat sent) = Some sent" "\<bar>now - sent\<bar> \<le> REPLAY_WINDOW"
    and agent: "get_agent d a = Some agent" "a_public_key agent = b64encode (pk sk)" "length (pk sk) = 32"
      "a_status agent \<noteq> SUSPENDED"
    and path: "path \<notin> set unprotected_paths"
  shows "require_auth (get_agent_public_key d) (is_agent_suspended d) verify sha256 fromisoformat now
           \<lparr>r_method = method, r_path = path, r_query = [], r_authorization = Some auth,
            r_timestamp = Some timestamp, r_body = body\<rparr> = Authenticated a (pk sk)"
  using assms by (rule signed_granted)

lemma signed_request_authenticated_witness:
  "require_auth (get_agent_public_key sample_base) (is_agent_suspended sample_base)
     (\<lambda>k sig m. sig = 1 # m) (\<lambda>b. ''00'') (\<lambda>s. if s = isoformat 7 then Some 7 else None) 8
     \<lparr>r_method = ''GET'', r_path = ''/agents/p'', r_query = [],
      r_authorization = Some (fst (sign_request (\<lambda>sk m. 1 # m) (\<lambda>b. ''00'') 7 ''GET'' ''/agents/p'' [] () ''p'')),
      r_timestamp = Some (isoformat 7), r_body = []\<rparr> = Authenticated ''p'' (replicate 32 0)"
proof -
  have s: "sign_request (\<lambda>sk m. 1 # m) (\<lambda>b. ''00'') 7 ''GET'' ''/agents/p'' [] () ''p''
      = (fst (sign_request (\<lambda>sk m. 1 # m) (\<lambda>b. ''00'') 7 ''GET'' ''/agents/p'' [] () ''p''), isoformat 7)"
    by (simp add: sign_request_def Let_def)
  have prem: "''p'' \<noteq> []" "CHR '':'' \<notin> set ''p''" "get_agent sample_base ''p'' = Some sample_agent"
    "a_public_key sample_agent = b64encode (replicate 32 0)" "a_status sample_agent \<noteq> SUSPENDED"
    "''/agents/p'' \<notin> set unprotected_paths" "\<bar>8 - 7\<bar> \<le> REPLAY_WINDOW"
    by code_simp+
  show ?thesis
    by (rule signed_request_authenticated [where pk = "\<lambda>_. replicate 32 0" and sk = "()", OF s])
       (use prem in simp_all)
qed

text \<open>The signing string binds the request: two requests whose methods, paths and timestamps hold
  no newline have the same signing string only if method, path with query, timestamp and body
  digest all agree. A signature made for one request does not serve for another.\<close>

theorem signing_string_binds:
  assumes "newline \<notin> set m" "newline \<notin> set m'" "newline \<notin> set p" "newline \<notin> set p'"
    and "newline \<notin> set t" "newline \<notin> set t'"
    and "build_signing_string sha256 m p t b = build_signing_string sha256 m' p' t' b'"
  shows "m = m' \<and> p = p' \<and> t = t' \<and> sha256 b = sha256 b'"
  using assms by (rule signing_string_inj)

lemma signing_string_binds_witness:
  "(''GET'' = ''GET'') \<and> ''/a'' = ''/a'' \<and> ''t'' = ''t'' \<and> (\<lambda>b :: bytes. ''h'') [1] = (\<lambda>b. ''h'') [2]"
proof -
  have "newline \<notin> set ''GET''" "newline \<notin> set ''/a''" "newline \<notin> set ''t''"
    by code_simp+
  moreover have "build_signing_string (\<lambda>b. ''h'') ''GET'' ''/a'' ''t'' [1] = build_signing_string (\<lambda>b. ''h'') ''GET'' ''/a'' ''t'' [2]"
    by (simp add: build_signing_string_def signing_text_def)
  ultimately show ?thesis by (intro signing_string_binds)
qed

section \<open>Agents\<close>

text \<open>What a call may do to a registered agent.\<close>

definition agent_step :: "agent_status \<Rightarrow> agent_status \<Rightarrow> bool" where
  "agent_step s s' = (s' = s \<or> (s, s') \<in> {(REGISTERED, ACTIVE), (UNREACHABLE, ACTIVE), (ACTIVE, UNREACHABLE)})"

definition agent_evolves :: "agent \<Rightarrow> agent \<Rightarrow> bool" where
  "agent_evolves a a' =
     (a_id a' = a_id a \<and> a_display_name a' = a_display_name a \<and> a_public_key a' = a_public_key a
      \<and> a_capabilities a' = a_capabilities a \<and> a_registered_at a' = a_registered_at a
      \<and> a_metadata a' = a_metadata a \<and> agent_step (a_status a) (a_status a'))"

lemma agent_evolves_refl: "agent_evolves a a"
  by (simp add: agent_evolves_def agent_step_def)

lemma beat_evolves: "agent_evolves a (beat now a)"
  by (cases "a_status a") (simp_all add: agent_evolves_def agent_step_def beat_def)

lemma mark_evolves: "agent_evolves a (mark_unreachable ids a)"
  by (simp add: agent_evolves_def agent_step_def mark_unreachable_def)

lemma write_rows_snd: "snd (write_rows x d' d) = d \<or> snd (write_rows x d' d) = d'"
  using write_rows_cases [of x d' d] by auto

lemma register_agents:
  assumes "get_agent d k = Some a"
  shows "get_agent (snd (register_agent env body d)) k = Some a"
proof -
  let ?d' = "d\<lparr>db_agents := db_agents d @ [new_agent env body]\<rparr>"
  have "snd (register_agent env body d) = d \<or> snd (register_agent env body d) = ?d'"
    using write_rows_snd [of "(new_agent env body, True)" ?d' d]
    by (auto simp: register_agent_def Let_def split: option.splits)
  moreover have "get_agent ?d' k = Some a"
    using assms by (simp add: get_agent_def row_get_append)
  ultimately show ?thesis using assms by metis
qed

lemma heartbeat_snd:
  "snd (heartbeat env auth ag d) = d
   \<or> snd (heartbeat env auth ag d) = d\<lparr>db_agents := row_upd a_id ag (beat (env_now env)) (db_agents d)\<rparr>"
  by (auto simp: heartbeat_def split: option.splits) (metis write_rows_snd)+

lemma heartbeat_agents:
  assumes "get_agent d k = Some a"
  shows "\<exists>a'. get_agent (snd (heartbeat env auth ag d)) k = Some a' \<and> agent_evolves a a'"
proof -
  let ?d = "d\<lparr>db_agents := row_upd a_id ag (beat (env_now env)) (db_agents d)\<rparr>"
  have "a_id (beat (env_now env) r) = a_id r" for r by (simp add: beat_def Let_def)
  then have "get_agent ?d k = (if k = ag then Some (beat (env_now env) a) else Some a)"
    using assms by (auto simp: get_agent_def agent_tbl.get_update)
  then show ?thesis using assms heartbeat_snd beat_evolves agent_evolves_refl by metis
qed

lemma sweep_agents:
  assumes "get_agent d k = Some a"
  shows "\<exists>a'. get_agent (snd (sweep_update ids d)) k = Some a' \<and> agent_evolves a a'"
proof -
  let ?d = "d\<lparr>db_agents := map (mark_unreachable ids) (db_agents d)\<rparr>"
  have "a_id (mark_unreachable ids r) = a_id r" for r by (simp add: mark_unreachable_def)
  then have "get_agent ?d k = Some (mark_unreachable ids a)"
    using assms by (simp add: get_agent_def row_get_map)
  moreover have "snd (sweep_update ids d) = d \<or> snd (sweep_update ids d) = ?d"
    by (auto simp: sweep_update_def) (metis write_rows_snd)+
  ultimately show ?thesis using assms mark_evolves agent_evolves_refl by metis
qed

lemma workflows_keep_agents:
  "db_agents (snd (create_workflow env wid owner f d)) = db_agents d"
  "db_agents (snd (update_workflow env wid owner ch d)) = db_agents d"
proof -
  have "db_agents (snd (write_rows x d' d)) = db_agents d" if "db_agents d' = db_agents d" for x :: workflow and d'
    using write_rows_snd [of x d' d] that by auto
  then show "db_agents (snd (create_workflow env wid owner f d)) = db_agents d"
    "db_agents (snd (update_workflow env wid owner ch d)) = db_agents d"
    by (auto simp: create_workflow_def update_workflow_def Let_def split: option.splits sum.splits)
qed

text \<open>An agent's registration is permanent. No call removes an agent or changes its id, public key,
  capabilities or registration time; the status moves only from REGISTERED or UNREACHABLE to
  ACTIVE, and from ACTIVE to UNREACHABLE, so a suspended agent stays suspended; and registering
  again, with whatever key, changes nothing at all.\<close>

theorem agent_history:
  assumes "get_agent d k = Some a"
  shows "(\<exists>a'. get_agent (handle validate env c d) k = Some a' \<and> agent_evolves a a')
         \<and> (\<forall>body. rr_agent_id body = k \<longrightarrow> snd (register_agent env body d) = d)"
proof -
  have kept: "db_agents d' = db_agents d \<Longrightarrow> get_agent d' k = Some a" for d'
    using assms by (simp add: get_agent_def)
  have "\<exists>a'. get_agent (handle validate env c d) k = Some a' \<and> agent_evolves a a'"
    using heartbeat_agents [OF assms] sweep_agents [OF assms] workflows_keep_agents kept agent_evolves_refl
      register_agents [OF assms]
    by (cases c)
       (simp_all add: create_op.run_frame cancel_op.run_frame retask_op.run_frame redirect_op.run_frame
          pause_op.run_frame resume_op.run_frame inject_op.run_frame sidecar_op.run_frame)
  moreover have "snd (register_agent env body d) = d" if "rr_agent_id body = k" for body
    using assms that by (auto simp: register_agent_def)
  ultimately show ?thesis by blast
qed

lemma agent_history_witness:
  "\<exists>a'. get_agent (handle any_input (env_at 9 []) (Heartbeat ''p'' ''p'') sample_base) ''p'' = Some a'
     \<and> agent_evolves sample_agent a'"
proof -
  have "get_agent sample_base ''p'' = Some sample_agent" by code_simp
  then show ?thesis using agent_history by blast
qed

lemma sweep_run:
  assumes "reachable cfg d"
  shows "fst (sweep now timeout d) = Inr ()
         \<and> get_agent (snd (sweep now timeout d)) k =
             map_option (\<lambda>a. if a_status a = ACTIVE \<and> (\<exists>h. a_last_heartbeat a = Some h \<and> h < now - seconds timeout)
                             then a\<lparr>a_status := UNREACHABLE\<rparr> else a) (get_agent d k)"
proof -
  define ids where "ids = sweep_select now timeout d"
  note ok = db_inv_constraints [OF reachable_inv [OF assms]]
  have mark: "mark_unreachable ids a =
      (if a_status a = ACTIVE \<and> (\<exists>h. a_last_heartbeat a = Some h \<and> h < now - seconds timeout)
       then a\<lparr>a_status := UNREACHABLE\<rparr> else a)" if "get_agent d k = Some a" for a
  proof -
    have a: "a \<in> set (db_agents d)" using that agent_tbl.get_sound by (auto simp: get_agent_def)
    have uniq: "b = a" if "b \<in> set (db_agents d)" "a_id b = a_id a" for b
    proof -
      have "distinct (map a_id (db_agents d))" using ok by (simp add: constraints_ok_def)
      then show ?thesis using that a by (simp add: distinct_map inj_on_def)
    qed
    define stale where "stale = (\<lambda>b :: agent. a_status b = ACTIVE
        \<and> (case a_last_heartbeat b of None \<Rightarrow> False | Some h \<Rightarrow> h < now - seconds timeout))"
    have "a_id a \<in> set ids \<longleftrightarrow> (\<exists>b \<in> set (db_agents d). a_id b = a_id a \<and> stale b)"
      unfolding ids_def sweep_select_def Let_def stale_def set_map set_filter image_iff Bex_def mem_Collect_eq
      by metis
    also have "\<dots> \<longleftrightarrow> stale a" using a uniq by metis
    finally show ?thesis by (auto simp: mark_unreachable_def stale_def split: option.splits)
  qed
  show ?thesis
    using sweep_update_run(1) [OF assms, of ids] sweep_update_run(2) [OF assms, of ids k] mark
    by (cases "get_agent d k") (simp_all add: sweep_def ids_def [symmetric])
qed

text \<open>A sweep of the heartbeat monitor marks UNREACHABLE exactly the ACTIVE agents whose last
  heartbeat is older than the timeout (an agent without a heartbeat is never stale), and leaves
  every other agent, and every other field, as it was.\<close>

theorem sweep_marks_stale:
  assumes "reachable cfg d"
  shows "fst (sweep now timeout d) = Inr ()
         \<and> get_agent (snd (sweep now timeout d)) k =
             map_option (\<lambda>a. if a_status a = ACTIVE \<and> (\<exists>h. a_last_heartbeat a = Some h \<and> h < now - seconds timeout)
                             then a\<lparr>a_status := UNREACHABLE\<rparr> else a) (get_agent d k)"
  using assms by (rule sweep_run)

lemma sweep_marks_stale_witness: "fst (sweep 1000 90 sample_base) = Inr ()"
  using sweep_marks_stale [OF reachable_base] by blast

text \<open>The calls between two sweeps, and those that leave agent \<open>k\<close> alone: all but its own heartbeat and
  the monitor's own updates.\<close>

definition calls_run :: "(dict \<Rightarrow> dict \<Rightarrow> schema_outcome) \<Rightarrow> (env \<times> call) list \<Rightarrow> db \<Rightarrow> db" where
  "calls_run validate calls d = fold (\<lambda>(env, c). handle validate env c) calls d"

definition keeps_silent :: "settings \<Rightarrow> string \<Rightarrow> env \<times> call \<Rightarrow> bool" where
  "keeps_silent cfg k = (\<lambda>(env, c). env_settings env = cfg \<and> c \<noteq> Heartbeat k k \<and> (\<forall>ids. c \<noteq> Sweep ids))"

lemma silent_call:
  assumes "keeps_silent cfg k (env, c)" and "get_agent d k = Some a"
  shows "get_agent (handle validate env c d) k = Some a"
proof -
  have kept: "db_agents d' = db_agents d \<Longrightarrow> get_agent d' k = Some a" for d'
    using assms by (simp add: get_agent_def)
  have beat: "get_agent (snd (heartbeat env auth ag d)) k = Some a" if "c = Heartbeat auth ag" for auth ag
  proof (cases "ag = k")
    case True
    then show ?thesis using assms that by (simp add: heartbeat_def keeps_silent_def)
  next
    case False
    have "a_id (beat (env_now env) r) = a_id r" for r by (simp add: beat_def Let_def)
    then have "get_agent (d\<lparr>db_agents := row_upd a_id ag (beat (env_now env)) (db_agents d)\<rparr>) k = Some a"
      using False assms(2) by (simp add: get_agent_def agent_tbl.get_update)
    then show ?thesis using assms(2) heartbeat_snd by metis
  qed
  show ?thesis
    using assms(1) beat kept workflows_keep_agents register_agents [OF assms(2)]
    by (cases c)
       (simp_all add: keeps_silent_def create_op.run_frame cancel_op.run_frame retask_op.run_frame redirect_op.run_frame
          pause_op.run_frame resume_op.run_frame inject_op.run_frame sidecar_op.run_frame)
qed

lemma silent_calls:
  assumes "\<forall>call \<in> set calls. keeps_silent cfg k call" and "reachable cfg d" and "get_agent d k = Some a"
  shows "reachable cfg (calls_run validate calls d)" and "get_agent (calls_run validate calls d) k = Some a"
proof -
  have "reachable cfg (calls_run validate calls d) \<and> get_agent (calls_run validate calls d) k = Some a"
    using assms
  proof (induction calls arbitrary: d)
    case (Cons call calls)
    obtain env c where c: "call = (env, c)" by force
    have q: "keeps_silent cfg k (env, c)" using Cons.prems(1) c by simp
    then have "reachable cfg (handle validate env c d)"
      using Cons.prems(2) server_step.call unfolding reachable_def keeps_silent_def
      by (fastforce intro: rtranclp.rtrancl_into_rtrancl)
    then show ?case
      using Cons.IH Cons.prems(1) silent_call [OF q Cons.prems(3)] by (simp add: c calls_run_def)
  qed (simp add: calls_run_def)
  then show "reachable cfg (calls_run validate calls d)" "get_agent (calls_run validate calls d) k = Some a" by simp_all
qed

lemma sweep_stored:
  assumes "reachable cfg d" and "get_agent d k = Some a"
  shows "reachable cfg (snd (sweep now timeout d))"
    and "get_agent (snd (sweep now timeout d)) k =
      Some (if a_status a = ACTIVE \<and> (\<exists>h. a_last_heartbeat a = Some h \<and> h < now - seconds timeout)
            then a\<lparr>a_status := UNREACHABLE\<rparr> else a)"
proof -
  have "server_step cfg d (handle any_input ((env_at 0 [])\<lparr>env_settings := cfg\<rparr>) (Sweep (sweep_select now timeout d)) d)"
    by (rule server_step.call) simp
  then show "reachable cfg (snd (sweep now timeout d))"
    using assms(1) unfolding reachable_def by (auto simp: sweep_def intro: rtranclp.rtrancl_into_rtrancl)
  show "get_agent (snd (sweep now timeout d)) k =
      Some (if a_status a = ACTIVE \<and> (\<exists>h. a_last_heartbeat a = Some h \<and> h < now - seconds timeout)
            then a\<lparr>a_status := UNREACHABLE\<rparr> else a)"
    using sweep_run [OF assms(1), of now timeout k] assms(2) by simp
qed

text \<open>C15: The monitor finds a silent agent. While the monitor of the application runs and the agent sends no
  heartbeat, whatever other calls are served between the sweeps, an ACTIVE agent becomes UNREACHABLE
  exactly when some sweep is later than its last heartbeat by more than the configured timeout. It
  stays so, with every other field as it was; without such a sweep the agent stays as it was.\<close>

theorem silent_agent_unreachable:
  assumes "reachable cfg d" and "get_agent d k = Some a" and "a_status a = ACTIVE" and "a_last_heartbeat a = Some h"
    and "\<forall>(calls, now) \<in> set rounds. \<forall>call \<in> set calls. keeps_silent cfg k call"
  shows "get_agent (lifespan cfg (map (\<lambda>(calls, now). (calls_run validate calls, now)) rounds) d) k
    = Some (if \<exists>(calls, now) \<in> set rounds. h < now - seconds (fleet_heartbeat_timeout_seconds cfg)
            then a\<lparr>a_status := UNREACHABLE\<rparr> else a)"
proof -
  let ?t = "fleet_heartbeat_timeout_seconds cfg" and ?rounds = "\<lambda>rs. map (\<lambda>(calls, now). (calls_run validate calls, now)) rs"
  have gone: "get_agent (heartbeat_monitor ?t (?rounds rs) d) k = Some b"
    if "reachable cfg d" "get_agent d k = Some b" "a_status b = UNREACHABLE"
      "\<forall>(calls, now) \<in> set rs. \<forall>call \<in> set calls. keeps_silent cfg k call" for rs d b
    using that
  proof (induction rs arbitrary: d)
    case (Cons r rs)
    obtain calls now where r: "r = (calls, now)" by force
    have "\<forall>call \<in> set calls. keeps_silent cfg k call" using Cons.prems(4) r by simp
    note calls = silent_calls [OF this Cons.prems(1,2), of validate]
    show ?case using Cons.IH sweep_stored [OF calls] Cons.prems(3,4) by (simp add: r)
  qed simp
  show ?thesis
    unfolding lifespan_def using assms
  proof (induction rounds arbitrary: d)
    case (Cons r rs)
    obtain calls now where r: "r = (calls, now)" by force
    have "\<forall>call \<in> set calls. keeps_silent cfg k call" using Cons.prems(5) r by simp
    note calls = silent_calls [OF this Cons.prems(1,2), of validate]
    note swept = sweep_stored [OF calls, where now = now and timeout = ?t]
    show ?case
    proof (cases "h < now - seconds ?t")
      case True
      then show ?thesis using gone [of "snd (sweep now ?t (calls_run validate calls d))" "a\<lparr>a_status := UNREACHABLE\<rparr>" rs] swept Cons.prems(3-5) by (simp add: r)
    next
      case False
      then show ?thesis using Cons.IH [OF swept(1)] swept(2) Cons.prems(3-5) by (simp add: r)
    qed
  qed simp
qed

lemma silent_agent_unreachable_witness:
  "get_agent (lifespan sample_settings
       (map (\<lambda>(calls, now). (calls_run any_input calls, now))
          [([(env_at 6 [], CreateWorkflow ''v'' ''p'' sample_fields)], 10000000), ([], 100000000)])
       (snd (heartbeat (env_at 5 []) ''p'' ''p'' sample_base))) ''p''
     = Some (sample_agent\<lparr>a_last_heartbeat := Some 5, a_status := UNREACHABLE\<rparr>)"
proof -
  let ?d = "snd (heartbeat (env_at 5 []) ''p'' ''p'' sample_base)"
  have "server_step sample_settings sample_base (handle any_input (env_at 5 []) (Heartbeat ''p'' ''p'') sample_base)"
    by (rule server_step.call) simp
  then have r: "reachable sample_settings ?d"
    using reachable_base unfolding reachable_def by (auto intro: rtranclp.rtrancl_into_rtrancl)
  have a: "get_agent ?d ''p'' = Some (beat 5 sample_agent)" by code_simp
  have b: "a_status (beat 5 sample_agent) = ACTIVE" "a_last_heartbeat (beat 5 sample_agent) = Some 5"
    "(beat 5 sample_agent)\<lparr>a_status := UNREACHABLE\<rparr> = sample_agent\<lparr>a_last_heartbeat := Some 5, a_status := UNREACHABLE\<rparr>"
    by (simp_all add: beat_def sample_agent_def)
  have q: "\<forall>(calls, now) \<in> set [([(env_at 6 [], CreateWorkflow ''v'' ''p'' sample_fields)], 10000000), ([], 100000000)].
      \<forall>call \<in> set calls. keeps_silent sample_settings ''p'' call"
    by (simp add: keeps_silent_def)
  show ?thesis
    using silent_agent_unreachable [OF r a b(1,2) q, of any_input]
    by (simp add: b(3) seconds_def sample_settings_def default_settings_def)
qed

text \<open>Heartbeats. An agent can send one only for itself. Its heartbeat is stored with the time, and
  makes a REGISTERED or UNREACHABLE agent ACTIVE. But a sweep that selected the agent before the
  heartbeat and updates after it marks the agent UNREACHABLE all the same: the update checks the
  status again and not the heartbeat.\<close>

theorem heartbeat_and_sweep:
  assumes "reachable cfg d" and "get_agent d k = Some a"
  shows "(auth \<noteq> k \<longrightarrow> heartbeat env auth k d = (Inl (Fleet NOT_AUTHORIZED), d))
         \<and> (let d1 = snd (heartbeat env k k d)
            in (\<exists>a1. fst (heartbeat env k k d) = Inr a1 \<and> get_agent d1 k = Some a1
                 \<and> a_last_heartbeat a1 = Some (env_now env)
                 \<and> a_status a1 = (if a_status a = SUSPENDED then SUSPENDED else ACTIVE))
               \<and> (k \<in> set ids \<and> a_status a \<noteq> SUSPENDED \<longrightarrow>
                    (\<exists>a2. get_agent (snd (sweep_update ids d1)) k = Some a2 \<and> a_status a2 = UNREACHABLE
                          \<and> a_last_heartbeat a2 = Some (env_now env))))"
proof -
  let ?d1 = "snd (heartbeat env k k d)"
  note hb = heartbeat_run [OF assms, of env]
  have "beat (env_now env) a = beat (env_now env) a
      \<and> a_last_heartbeat (beat (env_now env) a) = Some (env_now env)
      \<and> a_status (beat (env_now env) a) = (if a_status a = SUSPENDED then SUSPENDED else ACTIVE)
      \<and> a_id (beat (env_now env) a) = k"
    using assms(2) agent_tbl.get_sound by (cases "a_status a") (auto simp: beat_def get_agent_def)
  moreover have "reachable (env_settings env) ?d1 \<or> True" by simp
  moreover have sw: "get_agent (snd (sweep_update ids ?d1)) k = map_option (mark_unreachable ids) (get_agent ?d1 k)"
  proof -
    define env' where "env' = env\<lparr>env_settings := cfg\<rparr>"
    have same: "heartbeat env k k d = heartbeat env' k k d" by (cases env) (simp add: heartbeat_def env'_def cong: option.case_cong)
    have "server_step cfg d (handle any_input env' (Heartbeat k k) d)"
      by (rule server_step.call) (simp add: env'_def)
    then have "reachable cfg ?d1"
      using assms(1) unfolding reachable_def same by (simp add: rtranclp.rtrancl_into_rtrancl)
    then show ?thesis by (rule sweep_update_run)
  qed
  ultimately show ?thesis
    using hb by (auto simp: Let_def mark_unreachable_def) (simp add: heartbeat_def)
qed

lemma heartbeat_and_sweep_witness:
  "\<exists>a2. get_agent (snd (sweep_update [''p''] (snd (heartbeat (env_at 9 []) ''p'' ''p'' sample_base)))) ''p'' = Some a2
     \<and> a_status a2 = UNREACHABLE"
proof -
  have "get_agent sample_base ''p'' = Some sample_agent" "a_status sample_agent = REGISTERED" by code_simp+
  then show ?thesis
    using heartbeat_and_sweep [OF reachable_base, of "''p''" sample_agent "''p''" "env_at 9 []" "[''p'']"]
    by (auto simp: Let_def)
qed

section \<open>Workflows\<close>

lemma registry_keeps_workflows:
  "db_workflows (snd (register_agent env body d)) = db_workflows d"
  "db_workflows (snd (heartbeat env auth ag d)) = db_workflows d"
  "db_workflows (snd (sweep_update ids d)) = db_workflows d"
proof -
  have keep: "db_workflows (snd (write_rows x d' d)) = db_workflows d"
    if "db_workflows d' = db_workflows d" for x :: 'x and d'
    using that write_rows_cases [of x d' d] by auto
  have keep1: "db_workflows (snd (write_rows x d' d)) = db_workflows d"
    if "db_workflows d' = db_workflows d" for x :: agent and d'
    using that write_rows_cases [of x d' d] by auto
  have keep2: "db_workflows (snd (write_rows () d' d)) = db_workflows d"
    if "db_workflows d' = db_workflows d" for d'
    using that write_rows_cases [of "()" d' d] by auto
  have keep3: "db_workflows (snd (write_rows x d' d)) = db_workflows d"
    if "db_workflows d' = db_workflows d" for x :: "agent \<times> bool" and d'
    using that write_rows_cases [of x d' d] by auto
  show "db_workflows (snd (register_agent env body d)) = db_workflows d"
    by (cases "get_agent d (rr_agent_id body)") (simp_all add: register_agent_def Let_def keep3)
  show "db_workflows (snd (heartbeat env auth ag d)) = db_workflows d"
    by (cases "get_agent d ag") (simp_all add: heartbeat_def keep1)
  show "db_workflows (snd (sweep_update ids d)) = db_workflows d"
    by (simp add: sweep_update_def keep2)
qed

lemma create_workflow_appends:
  "snd (create_workflow env wid owner f d) = d
   \<or> (\<exists>x. snd (create_workflow env wid owner f d) = d\<lparr>db_workflows := db_workflows d @ [x]\<rparr>)"
proof -
  have "snd (write_rows x d' d) = d \<or> snd (write_rows x d' d) = d'" for x :: workflow and d'
    using write_rows_cases [of x d' d] by auto
  then show ?thesis
    by (cases "get_workflow d wid") (auto simp: create_workflow_def Let_def)
qed

lemma update_workflow_effect:
  "get_workflow (snd (update_workflow env wid caller ch d)) k = get_workflow d k
   \<or> wid = k \<and> (\<exists>w w'. get_workflow d k = Some w \<and> caller = w_owner w
        \<and> get_workflow (snd (update_workflow env wid caller ch d)) k = Some w'
        \<and> workflow_identity w' = workflow_identity w)"
proof (cases "snd (update_workflow env wid caller ch d) = d")
  case True
  then show ?thesis by simp
next
  case False
  obtain v where v: "get_workflow d wid = Some v" "caller = w_owner v"
    using False by (cases "get_workflow d wid") (auto simp: update_workflow_def split: if_splits)
  obtain u where u: "change_workflow ch v = Inr u"
    using False v by (cases "change_workflow ch v") (auto simp: update_workflow_def)
  let ?u = "u\<lparr>w_updated_at := Some (env_now env)\<rparr>"
  have snd: "snd (update_workflow env wid caller ch d) =
      d\<lparr>db_workflows := row_upd w_id wid (\<lambda>_. ?u) (db_workflows d)\<rparr>"
    using False v u write_rows_cases [of ?u "d\<lparr>db_workflows := row_upd w_id wid (\<lambda>_. ?u) (db_workflows d)\<rparr>" d]
    by (auto simp: update_workflow_def Let_def)
  have vid: "w_id v = wid" using v(1) workflow_tbl.get_sound by (auto simp: get_workflow_def)
  have ident: "workflow_identity ?u = workflow_identity v"
    using change_workflow_identity [OF u] by (simp add: workflow_identity_def)
  have id: "w_id ?u = wid" using ident vid by (simp add: workflow_identity_def)
  have "row_get w_id (row_upd w_id wid (\<lambda>_. ?u) rs) k
      = (if k = wid then map_option (\<lambda>_. ?u) (row_get w_id rs k) else row_get w_id rs k)" for rs
    using id by (induction rs) (auto simp: row_upd_def)
  then show ?thesis
    using v ident unfolding snd by (cases "k = wid") (auto simp: get_workflow_def)
qed

lemma call_keeps_workflows:
  "(\<exists>wid owner f. c = CreateWorkflow wid owner f) \<or> (\<exists>wid caller ch. c = UpdateWorkflow wid caller ch)
   \<or> db_workflows (handle validate env c d) = db_workflows d"
  by (cases c)
     (simp_all add: registry_keeps_workflows create_op.run_frame cancel_op.run_frame retask_op.run_frame
       redirect_op.run_frame pause_op.run_frame resume_op.run_frame inject_op.run_frame sidecar_op.run_frame)

text \<open>Workflows belong to their owners. No call removes a workflow or changes its id, owner or
  creation time; and a call that changes one is an update by its owner. Creating a workflow under a
  taken id changes nothing: the owner gets the existing one back, anybody else WORKFLOW_EXISTS.\<close>

theorem workflow_ownership:
  assumes "get_workflow d k = Some w"
  shows "(\<exists>w'. get_workflow (handle validate env c d) k = Some w' \<and> workflow_identity w' = workflow_identity w
               \<and> (w' \<noteq> w \<longrightarrow> (\<exists>ch. c = UpdateWorkflow k (w_owner w) ch)))
         \<and> (validate_workflow_id k \<longrightarrow> validate_json_schema_field (wf_input_schema f) \<longrightarrow>
            validate_json_schema_field (wf_output_schema f) \<longrightarrow>
            create_workflow env k owner f d = (if owner = w_owner w then Inr w else Inl (Fleet WORKFLOW_EXISTS), d))"
proof -
  have created: "get_workflow (snd (create_workflow env wid owner f d)) k = Some w" for wid owner f
    using create_workflow_appends [of env wid owner f d] assms
    by (auto simp: get_workflow_def row_get_append)
  have updated: "\<exists>w'. get_workflow (snd (update_workflow env wid caller ch d)) k = Some w'
      \<and> workflow_identity w' = workflow_identity w \<and> (w' \<noteq> w \<longrightarrow> wid = k \<and> caller = w_owner w)" for wid caller ch
    using update_workflow_effect [of env wid caller ch d k] assms by auto
  consider (create) wid owner' f' where "c = CreateWorkflow wid owner' f'"
    | (update) wid caller ch where "c = UpdateWorkflow wid caller ch"
    | (other) "db_workflows (handle validate env c d) = db_workflows d"
    using call_keeps_workflows by metis
  then have "\<exists>w'. get_workflow (handle validate env c d) k = Some w' \<and> workflow_identity w' = workflow_identity w
               \<and> (w' \<noteq> w \<longrightarrow> (\<exists>ch. c = UpdateWorkflow k (w_owner w) ch))"
  proof cases
    case create
    then show ?thesis using created by simp
  next
    case update
    then show ?thesis using updated [of wid caller ch] by auto
  next
    case other
    then show ?thesis using assms by (simp add: get_workflow_def)
  qed
  then show ?thesis using assms by (simp add: create_workflow_def)
qed

lemma workflow_ownership_witness:
  "create_workflow (env_at 9 []) ''w'' ''q'' sample_fields sample_base = (Inl (Fleet WORKFLOW_EXISTS), sample_base)"
proof -
  have w: "get_workflow sample_base ''w'' = Some sample_workflow" by code_simp
  have "validate_workflow_id ''w''"
    "validate_json_schema_field (wf_input_schema sample_fields)"
    "validate_json_schema_field (wf_output_schema sample_fields)" "''q'' \<noteq> w_owner sample_workflow"
    by code_simp+
  then show ?thesis
    using workflow_ownership [OF w, where validate = any_input and env = "env_at 9 []" and c = "Heartbeat [] []"
        and owner = "''q''" and f = sample_fields] by simp
qed

end
