(* ===== verification/Props_Stream.thy ===== *)
theory Props_Stream
  imports Samples
begin

text \<open>
  The event stream and the callbacks: what a client of the stream sees of the log of a task while
  the server goes on, and what a delivery does.
\<close>

section \<open>The event stream\<close>

text \<open>The snapshots a stream reads while the server runs: each is later than the one before.\<close>

definition run_snapshots :: "settings \<Rightarrow> db list \<Rightarrow> bool" where
  "run_snapshots cfg ds = (ds \<noteq> [] \<and> reachable cfg (hd ds)
      \<and> (\<forall>i. Suc i < length ds \<longrightarrow> (server_step cfg)\<^sup>*\<^sup>* (ds ! i) (ds ! Suc i)))"

lemma run_snapshots_last:
  assumes "run_snapshots cfg ds"
  shows "reachable cfg (last ds) \<and> (\<forall>d \<in> set ds. prefix (task_events d k) (task_events (last ds) k))"
  using assms
proof (induction ds rule: rev_induct)
  case Nil
  then show ?case by (simp add: run_snapshots_def)
next
  case (snoc d ds)
  show ?case
  proof (cases "ds = []")
    case True
    then show ?thesis using snoc.prems by (simp add: run_snapshots_def)
  next
    case False
    have steps: "(server_step cfg)\<^sup>*\<^sup>* (ds ! i) (ds ! Suc i)" if "Suc i < length ds" for i
    proof -
      have "(server_step cfg)\<^sup>*\<^sup>* ((ds @ [d]) ! i) ((ds @ [d]) ! Suc i)"
        using snoc.prems that unfolding run_snapshots_def by fastforce
      then show ?thesis using that by (simp add: nth_append)
    qed
    then have run: "run_snapshots cfg ds"
      using snoc.prems False by (simp add: run_snapshots_def)
    have "Suc (length ds - 1) < length (ds @ [d])" using False by (simp add: Suc_diff_1)
    then have "(server_step cfg)\<^sup>*\<^sup>* ((ds @ [d]) ! (length ds - 1)) ((ds @ [d]) ! Suc (length ds - 1))"
      using snoc.prems unfolding run_snapshots_def by blast
    then have step: "(server_step cfg)\<^sup>*\<^sup>* (last ds) d"
      using False by (simp add: nth_append last_conv_nth)
    note IH = snoc.IH [OF run]
    have "reachable cfg d" using IH step unfolding reachable_def by (meson rtranclp_trans)
    moreover have "prefix (task_events (last ds) k) (task_events d k)"
      using reachable_later [OF conjunct1 [OF IH] step] by (simp add: later_def)
    ultimately show ?thesis
      using IH by (auto intro: prefix_order.trans)
  qed
qed

lemma reachable_log_sorted: "reachable cfg d \<Longrightarrow> log_sorted d k"
  using reachable_inv by (auto simp: db_inv_def log_inv_def log_sorted_def)

text \<open>C25: The event stream is faithful. However the polls interleave with the rest of the server,
  what a client that had seen events up to \<open>n\<close> gets (keepalives dropped) is an initial part of the
  task's events after \<open>n\<close>, in order, without gaps or duplicates; and as long as the stream is open
  it is all of them, up to the last poll. So reconnecting with the last id seen resumes exactly
  where the stream broke off.\<close>

theorem stream_faithful:
  assumes "run_snapshots cfg (snapshots first polls)"
  shows "let F = last (snapshots first polls); s = event_stream k n hb first polls;
             wanted = map frame_of (filter (\<lambda>e. n < e_sequence e) (task_events F k))
         in prefix (client_view n (fst s)) wanted \<and> (snd s = Open \<longrightarrow> client_view n (fst s) = wanted)"
proof -
  let ?F = "last (snapshots first polls)"
  have F: "log_sorted ?F k" and p: "\<forall>d \<in> set (snapshots first polls). prefix (task_events d k) (task_events ?F k)"
    using run_snapshots_last [OF assms, of k] reachable_log_sorted by blast+
  show ?thesis
    using event_stream_sound [OF F p, of n hb] event_stream_complete [OF F p, of n hb]
    by (simp add: Let_def events_after_def)
qed

lemma stream_faithful_witness:
  "client_view 0 (fst (event_stream ''task-1'' 0 15 (sample_accepted, sample_accepted)
      [(sample_running, sample_running)])) = map frame_of [sample_created, sample_started]"
proof -
  have run: "run_snapshots sample_settings (snapshots (sample_accepted, sample_accepted) [(sample_running, sample_running)])"
    using reachable_accepted sample_steps(2)
    by (auto simp: run_snapshots_def snapshots_def less_Suc_eq)
  have "snd (event_stream ''task-1'' 0 15 (sample_accepted, sample_accepted) [(sample_running, sample_running)]) = Open"
    "map frame_of (filter (\<lambda>e. 0 < e_sequence e) (task_events sample_running ''task-1''))
       = map frame_of [sample_created, sample_started]"
    by code_simp+
  then show ?thesis
    using stream_faithful [OF run, of "''task-1''" 0 15] by (simp add: Let_def snapshots_def)
qed



section \<open>Callbacks\<close>

text \<open>Callback delivery. A task without a URL is a no-op reported as delivered. Otherwise the same
  signed request is posted at most four times, stopping at the first 2xx answer; the result is true
  exactly when one of the four attempts got one; and the exceptions and other statuses on the way
  change nothing else.\<close>

theorem callback_delivery:
  "let (ok, acts) = deliver_callback sign sha256 url_path now respond t
   in case t_callback_url t of
        None \<Rightarrow> ok \<and> acts = []
      | Some url \<Rightarrow>
          (let body = utf8 (json_dumps (JObj (build_callback_payload t)));
               headers = callback_headers sign sha256 url_path now url body
           in (ok \<longleftrightarrow> (\<exists>i < 4. success (respond i)))
              \<and> posts acts = (case find (\<lambda>i. success (respond i)) [0..<4] of None \<Rightarrow> 4 | Some i \<Rightarrow> Suc i)
              \<and> set acts \<subseteq> insert (Post body headers) (range Sleep))"
proof (cases "t_callback_url t")
  case None
  then show ?thesis by (simp add: deliver_callback_def)
next
  case (Some url)
  define body where "body = utf8 (json_dumps (JObj (build_callback_payload t)))"
  define headers where "headers = callback_headers sign sha256 url_path now url body"
  have four: "MAX_ATTEMPTS = 4" by (simp add: MAX_ATTEMPTS_def RETRY_DELAYS_def)
  have run: "deliver_callback sign sha256 url_path now respond t = deliver_loop respond body headers 0 4"
    using Some by (simp add: deliver_callback_def four Let_def body_def headers_def)
  obtain ok acts where r: "deliver_loop respond body headers 0 4 = (ok, acts)" by force
  have "(ok \<longleftrightarrow> (\<exists>i < 4. success (respond i)))
      \<and> posts acts = (case find (\<lambda>i. success (respond i)) [0..<4] of None \<Rightarrow> 4 | Some i \<Rightarrow> Suc i)
      \<and> set acts \<subseteq> insert (Post body headers) (range Sleep)"
    using deliver_loop_success [of respond body headers 0 4] deliver_loop_posts [of respond body headers 0 4]
      deliver_loop_same_body [of respond body headers 0 4]
    unfolding r add_0 fst_conv snd_conv by blast
  then show ?thesis
    using r unfolding run Let_def body_def headers_def by (simp only: Some option.case prod.case)
qed

lemma callback_delivery_witness:
  "fst (deliver_callback (\<lambda>m. m) (\<lambda>b. []) (\<lambda>u. ''/cb'') 0 (\<lambda>i. if i = 2 then Some 204 else None)
     (sample_completed_task\<lparr>t_callback_url := Some ''http://x/cb''\<rparr>))"
proof -
  have "success (if (2::nat) = 2 then Some 204 else None)" by (simp add: success_def)
  then show ?thesis
    using callback_delivery [of "\<lambda>m. m" "\<lambda>b. []" "\<lambda>u. ''/cb''" 0 "\<lambda>i. if i = 2 then Some 204 else None"
        "sample_completed_task\<lparr>t_callback_url := Some ''http://x/cb''\<rparr>"]
    by (auto simp: Let_def split: prod.splits intro!: exI [of _ "2::nat"])
qed

end
