(* ===== verification/Overlap.thy ===== *)
theory Overlap
  imports Outcomes
begin

text \<open>
  Overlapping requests. A request reads the database at one moment and commits at another; between
  the two, another request may have committed. PostgreSQL's default isolation (READ COMMITTED)
  and the code, which takes no row locks and keeps no row versions, let such a commit through
  unless a constraint of the schema stops it.

  A sidecar event and a context injection read everything before they write anything, so that an
  overlapping one is \<open>run_tx (opr d) d1\<close>: read on \<open>d\<close>, committed on \<open>d1\<close>. The lifecycle operations
  select the last sequence number after they changed the loaded task, and the session flushes
  that change before it selects (autoflush): the UPDATE waits for the other transaction, and the
  number is read from the database it left. \<open>overlap\<close> is their commit.
\<close>

section \<open>Late sequence numbers\<close>

definition resequence :: "db \<Rightarrow> unit_of_work \<Rightarrow> unit_of_work" where
  "resequence d1 uw =
     (case uw_update uw of
        None \<Rightarrow> uw
      | Some (old, new) \<Rightarrow>
          uw\<lparr>uw_events := map (\<lambda>e. if e_task_id e = t_id old
                                    then e\<lparr>e_sequence := max_sequence d1 (t_id old) + 1\<rparr> else e) (uw_events uw)\<rparr>)"

text \<open>The database after the call, None when it commits nothing.\<close>

definition overlap :: "'a tx \<Rightarrow> db \<Rightarrow> db option" where
  "overlap tx d1 = (case tx_work tx of None \<Rightarrow> None | Some uw \<Rightarrow> commit (resequence d1 uw) d1)"

text \<open>Without an overlap it is the operation itself.\<close>

lemma resequence_same:
  assumes "\<And>old new e. uw_update uw = Some (old, new) \<Longrightarrow> e \<in> set (uw_events uw) \<Longrightarrow>
             e_task_id e = t_id old \<Longrightarrow> e_sequence e = max_sequence d (t_id old) + 1"
  shows "resequence d uw = uw"
proof (cases "uw_update uw")
  case None
  then show ?thesis by (simp add: resequence_def)
next
  case (Some p)
  obtain old new where p: "p = (old, new)" by force
  have "e\<lparr>e_sequence := max_sequence d (t_id old) + 1\<rparr> = e"
    if "e \<in> set (uw_events uw)" "e_task_id e = t_id old" for e
    using assms [OF _ that] Some p by simp
  then have "map (\<lambda>e. if e_task_id e = t_id old then e\<lparr>e_sequence := max_sequence d (t_id old) + 1\<rparr> else e)
      (uw_events uw) = uw_events uw"
    by (intro map_idI) auto
  then show ?thesis using Some p by (simp add: resequence_def)
qed

lemma overlap_same_update:
  assumes "tx_work tx = Some \<lparr>uw_update = Some (t, t'), uw_tasks = ts, uw_events = [e]\<rparr>"
    and "e_sequence e = max_sequence d (t_id t) + 1"
  shows "overlap tx d = commit \<lparr>uw_update = Some (t, t'), uw_tasks = ts, uw_events = [e]\<rparr> d"
  unfolding overlap_def assms(1) option.case by (subst resequence_same) (use assms(2) in auto)

section \<open>A stale change commits\<close>

text \<open>The row may have moved on, as long as it is the same task: the commit rewrites its columns.\<close>

lemma stale_update_commit:
  assumes ok: "constraints_ok d1" and u: "get_task d1 tid = Some u" and id: "t_id t = tid"
    and e: "e_task_id e = tid" "length (e_type e) \<le> 64" "max_sequence d1 tid < e_sequence e" "int4 (e_sequence e)"
    and uw: "uw = \<lparr>uw_update = Some (t, t'), uw_tasks = [], uw_events = [e]\<rparr>"
  shows "commit uw d1 = Some (apply_work uw d1)"
    and "get_task (apply_work uw d1) tid = Some (merge_task t t' u)"
proof -
  show c: "commit uw d1 = Some (apply_work uw d1)"
    unfolding uw by (rule commit_one_event [OF ok]) (use u e in auto)
  show "get_task (apply_work uw d1) tid = Some (merge_task t t' u)"
    using commit_get_task [OF c u] id by (simp add: uw)
qed

lemma stale_successor_commit:
  assumes inv: "db_inv mx d1" and u: "get_task d1 tid = Some u" and id: "same_identity t u"
    and e: "e_task_id e = tid" "length (e_type e) \<le> 64" "e_sequence e = max_sequence d1 tid + 1"
    and left: "sequence_left d1 tid" and child: "child_of t n" and ok: "successor_ok d1 t n"
    and cb: "t_callback_url n = None" and c: "created_event (t_id n) c"
    and uw: "uw = \<lparr>uw_update = Some (t, t'), uw_tasks = [n], uw_events = [e, c]\<rparr>"
  shows "commit uw d1 = Some (apply_work uw d1)"
proof -
  have idt: "t_id u = tid" "t_id t = tid" and mem: "u \<in> set (db_tasks d1)"
    using get_taskD [OF u] id by (auto simp: same_identity_def)
  have new: "t_id n \<notin> t_id ` set (db_tasks d1)" using ok by (simp add: successor_ok_def)
  then have neq: "t_id n \<noteq> tid" using get_task_id_mem [OF u] by auto
  have child': "child_of u n" and root: "t_root n = Some (str_or (t_root u) (t_id u))"
    using child id by (auto simp: child_of_def same_identity_def)
  have rows: "task_row_ok d1 u"
    using inv mem by (auto simp: db_inv_def constraints_ok_def)
  have row: "task_row_ok (apply_work uw d1) n"
    using rows root child' ok cb apply_work_ids [of d1 uw] root_ref [OF inv mem] get_task_id_mem [OF u] idt
    by (auto simp: task_row_ok_def child_of_def successor_ok_def references_def)
       (auto simp: max_len_def)
  have e_row: "event_row_ok (apply_work uw d1) x" if "x \<in> set [e, c]" for x
    using that e c next_sequence_int4 [OF inv left] get_task_id_mem [OF u] apply_work_ids [of d1 uw]
    by (auto simp: event_row_ok_def created_event_def int4_def apply_work_tasks uw)
  have keys: "event_key c \<notin> event_key ` set (db_events d1)" "event_key e \<notin> event_key ` set (db_events d1)"
    using fresh_sequence [of d1 "t_id n" 1] fresh_sequence [of d1 tid "e_sequence e"] e c
      no_task_max_sequence [OF db_inv_constraints [OF inv] new]
    by (auto simp: event_key_def created_event_def)
  show "commit uw d1 = Some (apply_work uw d1)"
    using new ok keys row e_row neq e c
    by (intro commit_succeeds [OF db_inv_constraints [OF inv]])
       (auto simp: uw successor_ok_def event_key_def created_event_def split: option.splits)
qed

text \<open>The schema stops a commit that repeats a sequence number.\<close>

lemma repeated_sequence_commit:
  assumes "e \<in> set (uw_events uw)" and "event_key e \<in> event_key ` set (db_events d1)"
  shows "commit uw d1 = None"
proof -
  have "event_key ` set (number_events n (uw_events uw)) = event_key ` set (uw_events uw)" for n
    by (metis list.set_map number_events_keys)
  then have "event_key ` set (db_events d1) \<inter> event_key ` set (number_events (db_next_event_id d1) (uw_events uw)) \<noteq> {}"
    using assms by blast
  then have "\<not> distinct (map event_key (db_events (apply_work uw d1)))"
    unfolding apply_work_frame map_append distinct_append list.set_map by blast
  then show ?thesis by (simp add: commit_def constraints_ok_def del: apply_work_frame)
qed

text \<open>After an update with one event the log ends with its sequence number.\<close>

lemma max_sequence_append:
  assumes "task_events d' k = task_events d k @ [e]" and "max_sequence d k < e_sequence e"
  shows "max_sequence d' k = e_sequence e"
  using assms by (cases "task_events d k") (auto simp: max_sequence_def)

end
