(* ===== verification/Props_Concurrency.thy ===== *)
theory Props_Concurrency
  imports Overlap Samples
begin

text \<open>
  What overlapping requests do to a task: which overlaps the schema stops, and which break the
  guarantees that hold of requests that do not overlap.
\<close>

section \<open>Two principals, one context sequence\<close>

text \<open>Of two context injections into the same task that overlap, at most one is stored: an
  injection read before another one committed is refused by the unique event sequence, as a
  database error, and changes nothing.\<close>

theorem overlapping_injections:
  assumes "fst (run_tx (inject_context env wid tid caller ct payload sq urg d) d) = Inr resp"
    and "d1 = snd (run_tx (inject_context env wid tid caller ct payload sq urg d) d)"
  shows "snd (run_tx (inject_context env' wid' tid caller' ct' payload' sq' urg' d) d1) = d1
         \<and> (\<exists>x. fst (run_tx (inject_context env' wid' tid caller' ct' payload' sq' urg' d) d1) = Inl x)"
proof -
  define key where "key = (tid, max_sequence d tid + 1)"
  have work: "\<exists>e. uw_events uw = [e] \<and> event_key e = key"
    if "tx_work (inject_context env wid tid caller ct payload sq urg d) = Some uw"
    for env wid caller ct payload sq urg uw
    using that
    by (auto simp: inject_context_def Let_def new_event_def event_key_def key_def
        split: option.splits sum.splits if_splits dest!: get_taskD)
  have shape: "(\<exists>x. inject_context env wid tid caller ct payload sq urg d = Raise x)
      \<or> (\<exists>uw r. inject_context env wid tid caller ct payload sq urg d = Commit uw r)"
    for env wid caller ct payload sq urg
    by (auto simp: inject_context_def Let_def split: option.splits sum.splits if_splits)
  obtain uw r where tx: "inject_context env wid tid caller ct payload sq urg d = Commit uw r"
    using shape [of env wid caller ct payload sq urg] assms(1) by auto
  then have c: "commit uw d = Some d1"
    using assms by (auto split: option.splits)
  obtain e where e: "uw_events uw = [e]" "event_key e = key" using work [of env wid caller ct payload sq urg uw] tx by auto
  have "key \<in> event_key ` set (db_events d1)"
    using commit_apply [OF c] e by (auto simp: event_key_def)
  then have none: "commit uw' d1 = None"
    if "tx_work (inject_context env' wid' tid caller' ct' payload' sq' urg' d) = Some uw'" for uw'
    using work [OF that] repeated_sequence_commit [of _ uw' d1] by fastforce
  show ?thesis
    using shape [of env' wid' caller' ct' payload' sq' urg'] none by auto
qed

lemma overlapping_injections_witness:
  "\<exists>x. fst (run_tx (inject_context (env_at 9 ''b'') ''w'' ''task-1'' ''p'' ''constraint'' [] 2 ''low'' sample_running)
       (snd (run_tx (inject_context (env_at 8 ''a'') ''w'' ''task-1'' ''p'' ''correction'' [] 1 ''normal'' sample_running)
          sample_running))) = Inl x"
proof -
  let ?r = "run_tx (inject_context (env_at 8 ''a'') ''w'' ''task-1'' ''p'' ''correction'' [] 1 ''normal'' sample_running)
          sample_running"
  have "\<not> (case fst ?r of Inl _ \<Rightarrow> True | Inr _ \<Rightarrow> False)" by code_simp
  then obtain resp where "fst ?r = Inr resp" by (cases "fst ?r") auto
  from overlapping_injections [OF this refl] show ?thesis by blast
qed

section \<open>A cancellation and a completion\<close>

text \<open>C40: A cancellation and a completion that overlap. The executor reports a running task completed
  while the cancellation commits: with the next sequence number the report fails and the task stays
  CANCELLED; with a greater one it is accepted and the task, whose cancellation was confirmed to
  the principal, is COMPLETED with the result, a step the transition table does not have.\<close>

theorem completion_overtakes_cancel:
  assumes reach: "reachable cfg d" and w: "get_workflow d wid = Some w" and t: "get_task d tid = Some t"
    and "t_workflow_id t = wid" and "caller = t_principal t \<or> caller = w_owner w"
    and running: "t_status t = RUNNING" and ex: "t_executor t = Some ex"
    and left: "sequence_left d tid" and sq: "max_sequence d tid < sq" "int4 sq"
    and d1: "d1 = snd (run_tx (cancel_task env wid tid caller reason d) d)"
    and r: "r = run_tx (process_sidecar_event env' tid ''completed'' data sq ex d) d1"
  shows "(\<exists>t1. get_task d1 tid = Some t1 \<and> t_status t1 = CANCELLED)
         \<and> (sq = max_sequence d tid + 1 \<longrightarrow> r = (Inl DatabaseError, d1))
         \<and> (max_sequence d tid + 1 < sq \<longrightarrow>
              (\<exists>x. fst r = Inr x)
              \<and> (\<exists>t2. get_task (snd r) tid = Some t2 \<and> t_status t2 = COMPLETED))
         \<and> \<not> status_steps CANCELLED COMPLETED"
proof -
  have id: "t_id t = tid" using get_taskD [OF t] by simp
  define t1 where "t1 = cancelled env t"
  define e where "e = cancel_event env d t caller reason"
  have tx: "cancel_task env wid tid caller reason d =
      Commit \<lparr>uw_update = Some (t, t1), uw_tasks = [], uw_events = [e]\<rparr> (refresh_task t1)"
    using cancel_task_commit [OF w t assms(4,5), of env reason] running by (simp add: t1_def e_def)
  have e: "e_task_id e = tid" "length (e_type e) \<le> 64" "e_sequence e = max_sequence d tid + 1"
    using id by (simp_all add: e_def cancel_event_def new_event_def)
  note upd = update_commit [OF reachable_inv [OF reach] t cancelled_identity [of t env, folded t1_def], of e, OF _ _ _ left refl]
  have d1': "d1 = apply_work \<lparr>uw_update = Some (t, t1), uw_tasks = [], uw_events = [e]\<rparr> d"
    using upd(1) [OF e] by (simp add: d1 tx)
  have get1: "get_task d1 tid = Some t1" and log1: "task_events d1 tid = task_events d tid @ [e\<lparr>e_id := db_next_event_id d\<rparr>]"
    using upd(2,4) [OF e] by (simp_all add: d1')
  have ok1: "constraints_ok d1" using commit_constraints [OF upd(1) [OF e]] by (simp add: d1')
  have max1: "max_sequence d1 tid = max_sequence d tid + 1"
    using max_sequence_append [OF log1] e by simp
  obtain t2 where t2: "apply_event env' ''completed'' data t = Inr t2" "t_status t2 = COMPLETED"
    using running
    by (auto simp: apply_event_def transition_to_def validate_transition_def record_completion_def Let_def)
  define e2 where "e2 = new_event tid ''completed'' (Some data) sq (env_now env')"
  define uw where "uw = \<lparr>uw_update = Some (t, t2), uw_tasks = [], uw_events = [e2]\<rparr>"
  obtain x where px: "process_sidecar_event env' tid ''completed'' data sq ex d = Commit uw x"
    using t ex sq t2 by (auto simp: process_sidecar_event_def valid_event_types_def Let_def uw_def e2_def)
  have same: "commit uw d1 = None" if "sq = max_sequence d tid + 1"
  proof (rule repeated_sequence_commit [of e2])
    show "e2 \<in> set (uw_events uw)" by (simp add: uw_def)
    have "event_key e2 = event_key e" using that e by (simp add: e2_def event_key_def new_event_def)
    then show "event_key e2 \<in> event_key ` set (db_events d1)" by (simp add: d1' event_key_def)
  qed
  have later: "commit uw d1 = Some (apply_work uw d1)"
      "get_task (apply_work uw d1) tid = Some (merge_task t t2 t1)" if "max_sequence d tid + 1 < sq"
    using stale_update_commit [OF ok1 get1 id, of e2 uw t2] that sq max1
    by (simp_all add: e2_def new_event_def uw_def)
  have "t_status (merge_task t t2 t1) = COMPLETED"
    using t2 running by (simp add: merge_task_def)
  moreover have "\<not> status_steps CANCELLED COMPLETED"
    using final_steps [of CANCELLED COMPLETED] by auto
  ultimately show ?thesis
    using get1 same later r px by (auto simp: t1_def cancelled_def) (metis prod_cases3)
qed

lemma completion_overtakes_cancel_witness:
  "\<exists>t2. get_task (snd (run_tx (process_sidecar_event (env_at 9 []) ''task-1'' ''completed'' [] 7 ''p'' sample_running)
       (snd (run_tx (cancel_task (env_at 8 []) ''w'' ''task-1'' ''p'' None sample_running) sample_running)))) ''task-1'' = Some t2
     \<and> t_status t2 = COMPLETED"
proof -
  have "t_workflow_id sample_running_task = ''w''"
    "''p'' = t_principal sample_running_task \<or> ''p'' = w_owner sample_workflow"
    "t_status sample_running_task = RUNNING" "t_executor sample_running_task = Some ''p''"
    "sequence_left sample_running ''task-1''" "max_sequence sample_running ''task-1'' < 7" "int4 7"
    "max_sequence sample_running ''task-1'' + 1 < 7"
    by code_simp+
  with completion_overtakes_cancel [OF reachable_running sample_lookups(2) sample_lookups(5) _ _ _ _ _ _ _ refl refl,
      of "''p''" "''p''" 7 "env_at 8 []" None "env_at 9 []" "[]"]
  show ?thesis by blast
qed

section \<open>Two retasks\<close>

text \<open>The work of a retask whose event gets the number \<open>s\<close>.\<close>

definition retasked :: "env \<Rightarrow> task \<Rightarrow> task" where
  "retasked env t = t\<lparr>t_status := RETASKED, t_completed_at := Some (env_now_utc env)\<rparr>"

definition retasked_event :: "env \<Rightarrow> task \<Rightarrow> task \<Rightarrow> string \<Rightarrow> dict \<Rightarrow> int \<Rightarrow> task_event" where
  "retasked_event env t n caller refinement s =
     new_event (t_id t) ''status''
       (Some [(''from_status'', JStr (status_value (t_status t))), (''to_status'', JStr ''retasked''),
              (''retask_id'', JStr (t_id n)), (''retasked_by'', JStr caller),
              (''refinement_message'', dict_get refinement ''message'')]) s (env_now env)"

definition successor_event :: "env \<Rightarrow> task \<Rightarrow> task \<Rightarrow> task_event" where
  "successor_event env t n =
     new_event (t_id n) ''created''
       (Some [(''status'', JStr ''accepted''), (''caller'', JStr (t_principal t)), (''retask_of'', JStr (t_id t))])
       1 (env_now env)"

definition retask_unit :: "env \<Rightarrow> task \<Rightarrow> task \<Rightarrow> string \<Rightarrow> dict \<Rightarrow> int \<Rightarrow> unit_of_work" where
  "retask_unit env t n caller refinement s =
     \<lparr>uw_update = Some (t, retasked env t), uw_tasks = [n],
      uw_events = [retasked_event env t n caller refinement s, successor_event env t n]\<rparr>"

lemma retask_facts:
  "same_identity t (retasked env t)" "created_event (t_id n) (successor_event env t n)"
  "e_task_id (retasked_event env t n caller refinement s) = t_id t"
  "length (e_type (retasked_event env t n caller refinement s)) \<le> 64"
  "e_sequence (retasked_event env t n caller refinement s) = s"
  by (simp_all add: retasked_def same_identity_def successor_event_def created_event_def new_event_def retasked_event_def)

lemma successor_facts:
  assumes "n = successor env t inp q None [(''refinement'', JObj refinement)]"
  shows "child_of t n" "t_callback_url n = None" "t_parent n = Some (t_id t)" "t_id n = ''task-'' @ env_uuid env"
    "t_idempotency_key n = None"
  by (simp_all add: assms successor_def child_of_def)

text \<open>What the first of two retasks leaves.\<close>

lemma first_retask:
  assumes inv: "db_inv mx d" and t: "get_task d tid = Some t" and left: "max_sequence d tid < 2147483647"
    and n: "n = successor env t inp q None [(''refinement'', JObj refinement)]" "successor_ok d t n"
    and u: "u = retask_unit env t n caller refinement (max_sequence d tid + 1)"
  shows "commit u d = Some (apply_work u d)"
    and "get_task (apply_work u d) tid = Some (retasked env t)" and "get_task (apply_work u d) (t_id n) = Some n"
    and "max_sequence (apply_work u d) tid = max_sequence d tid + 1"
    and "t_id ` set (db_tasks (apply_work u d)) = insert (t_id n) (t_id ` set (db_tasks d))"
proof -
  have id: "t_id t = tid" using get_taskD [OF t] by simp
  have room: "sequence_left d tid" using left by (simp add: sequence_left_def)
  note event = retask_facts(3-5) [of env t n caller refinement "max_sequence d tid + 1", unfolded id]
  note c = successor_commit [OF inv t retask_facts(1) event room successor_facts(1) [OF n(1)] n(2)
      successor_facts(2) [OF n(1)] retask_facts(2) u [unfolded retask_unit_def]]
  show "commit u d = Some (apply_work u d)" "get_task (apply_work u d) tid = Some (retasked env t)"
    "get_task (apply_work u d) (t_id n) = Some n"
    using c(1-3) by simp_all
  have "task_events (apply_work u d) tid
      = task_events d tid @ [retasked_event env t n caller refinement (max_sequence d tid + 1)\<lparr>e_id := db_next_event_id d\<rparr>]"
    using c(6) by simp
  then show "max_sequence (apply_work u d) tid = max_sequence d tid + 1"
    by (rule max_sequence_append [THEN trans]) (simp_all add: event)
  show "t_id ` set (db_tasks (apply_work u d)) = insert (t_id n) (t_id ` set (db_tasks d))"
    by (simp add: apply_work_tasks u retask_unit_def image_Un)
qed

text \<open>C39: Two retasks of the same task that overlap both commit: the original gets two successors,
  which no sequence of requests that do not overlap can produce.\<close>

theorem overlapping_retasks:
  assumes reach: "reachable cfg d" and w: "get_workflow d wid = Some w" and t: "get_task d tid = Some t"
    and "t_workflow_id t = wid" and "caller = t_principal t \<or> caller = w_owner w"
    and "t_status t \<in> {COMPLETED, FAILED}"
    and "t_lineage_depth t < fleet_lineage_max_depth cfg"
    and cfg: "env_settings env = cfg" "env_settings env' = cfg"
    and "merge_additional (t_input t) (dict_get refinement ''additional_input'') = Inr inp"
    and "resolve_priority priority (t_priority t) = Inr q"
    and left: "max_sequence d tid + 1 < 2147483647"
    and n: "n = successor env t inp q None [(''refinement'', JObj refinement)]" "successor_ok d t n"
    and n': "n' = successor env' t inp q None [(''refinement'', JObj refinement)]" "successor_ok d t n'"
    and neq: "env_uuid env \<noteq> env_uuid env'"
    and d1: "d1 = snd (run_tx (retask_task env wid tid caller refinement priority None d) d)"
  shows "\<exists>d2. overlap (retask_task env' wid tid caller refinement priority None d) d1 = Some d2
              \<and> get_task d2 (t_id n) = Some n \<and> get_task d2 (t_id n') = Some n'
              \<and> t_id n \<noteq> t_id n' \<and> t_parent n = Some tid \<and> t_parent n' = Some tid"
proof -
  note inv = reachable_inv [OF reach]
  have id: "t_id t = tid" using get_taskD [OF t] by simp
  have work: "tx_work (retask_task e wid tid caller refinement priority None d)
      = Some (retask_unit e t (successor e t inp q None [(''refinement'', JObj refinement)]) caller refinement
          (max_sequence d tid + 1))"
    if "env_settings e = cfg" for e
    using retask_task_commit [OF assms(2-6), of e refinement inp None priority q] assms(7,10,11) that id
    by (simp add: retask_unit_def retasked_def retasked_event_def successor_event_def)
  define u where "u = retask_unit env t n caller refinement (max_sequence d tid + 1)"
  have room: "max_sequence d tid < 2147483647" using left by simp
  note first = first_retask [OF inv t room n u_def]
  have d1': "d1 = apply_work u d"
    using work [OF cfg(1)] first(1) d1 assms(2-7) cfg
    by (cases "retask_task env wid tid caller refinement priority None d") (simp_all add: n u_def)
  have inv1: "db_inv (fleet_lineage_max_depth cfg) d1"
    unfolding d1 using retask_op.run_inv [of env d] inv cfg by simp
  have ids: "t_id n' \<noteq> t_id n" "t_id n' \<noteq> tid" "t_id n \<noteq> tid"
  proof -
    show "t_id n' \<noteq> t_id n" using neq by (simp add: successor_facts(4) [OF n(1)] successor_facts(4) [OF n'(1)])
    show "t_id n' \<noteq> tid" "t_id n \<noteq> tid"
      using n(2) n'(2) get_task_id_mem [OF t] unfolding successor_ok_def by metis+
  qed
  define v where "v = retask_unit env' t n' caller refinement (max_sequence d1 tid + 1)"
  have reseq: "resequence d1 (retask_unit env' t n' caller refinement (max_sequence d tid + 1)) = v"
    using ids id
    by (simp add: resequence_def retask_unit_def v_def retasked_event_def successor_event_def new_event_def)
  have ok1: "successor_ok d1 t n'"
    using n'(2) ids first(5) successor_facts(5) [OF n'(1)] by (simp add: successor_ok_def d1')
  have left1: "sequence_left d1 tid" using left first(4) by (simp add: sequence_left_def d1')
  note event = retask_facts(3-5) [of env' t n' caller refinement "max_sequence d1 tid + 1", unfolded id]
  have c2: "commit v d1 = Some (apply_work v d1)"
    by (rule stale_successor_commit [OF inv1 first(2) [folded d1'] retask_facts(1) event left1
          successor_facts(1) [OF n'(1)] ok1 successor_facts(2) [OF n'(1)] retask_facts(2) v_def [unfolded retask_unit_def]])
  have "get_task (apply_work v d1) (t_id n') = Some n'"
    using commit_get_insert [OF c2] by (simp add: v_def retask_unit_def)
  moreover have "get_task (apply_work v d1) (t_id n) = Some n"
    by (rule commit_get_other [OF c2 first(3) [folded d1']]) (use ids id in \<open>auto simp: v_def retask_unit_def\<close>)
  moreover have "overlap (retask_task env' wid tid caller refinement priority None d) d1 = Some (apply_work v d1)"
    using work [OF cfg(2)] reseq c2 by (simp add: overlap_def n'(1) [symmetric])
  ultimately show ?thesis
    using ids successor_facts(3) [OF n(1)] successor_facts(3) [OF n'(1)] id by auto
qed

lemma overlapping_retasks_witness:
  "\<exists>d2 n n'. overlap (retask_task (env_at 9 ''3'') ''w'' ''task-1'' ''p'' [] None None sample_completed)
       (snd (run_tx (retask_task (env_at 8 ''2'') ''w'' ''task-1'' ''p'' [] None None sample_completed) sample_completed))
       = Some d2
     \<and> get_task d2 ''task-2'' = Some n \<and> get_task d2 ''task-3'' = Some n'
     \<and> t_parent n = Some ''task-1'' \<and> t_parent n' = Some ''task-1''"
proof -
  let ?n = "\<lambda>env. successor env sample_completed_task [(''n'', JInt 1)] NORMAL None [(''refinement'', JObj [])]"
  have "t_status sample_completed_task \<in> {COMPLETED, FAILED}"
    "t_workflow_id sample_completed_task = ''w''"
    "''p'' = t_principal sample_completed_task \<or> ''p'' = w_owner sample_workflow"
    "t_lineage_depth sample_completed_task < fleet_lineage_max_depth sample_settings"
    "merge_additional (t_input sample_completed_task) (dict_get [] ''additional_input'') = Inr [(''n'', JInt 1)]"
    "resolve_priority None (t_priority sample_completed_task) = Inr NORMAL"
    "max_sequence sample_completed ''task-1'' + 1 < 2147483647"
    "successor_ok sample_completed sample_completed_task (?n (env_at 8 ''2''))"
    "successor_ok sample_completed sample_completed_task (?n (env_at 9 ''3''))"
    by code_simp+
  moreover have "env_uuid (env_at 8 ''2'') \<noteq> env_uuid (env_at 9 ''3'')" by (simp add: env_at_def)
  moreover have "t_id (?n (env_at 8 ''2'')) = ''task-2''" "t_id (?n (env_at 9 ''3'')) = ''task-3''"
    by (simp_all add: successor_def env_at_def)
  ultimately show ?thesis
    using overlapping_retasks [OF reachable_completed sample_lookups(3) sample_lookups(6) _ _ _ _
        env_at_settings env_at_settings _ _ _ refl _ refl _ _ refl,
        of "''p''" "[]" "[(''n'', JInt 1)]" None NORMAL 8 "''2''" 9 "''3''"]
    by fastforce
qed

section \<open>Two creations with one idempotency key\<close>

lemma repeated_key_commit:
  assumes "k \<in> set (idem_keys (uw_tasks uw))" and "k \<in> set (idem_keys (db_tasks d1))"
  shows "commit uw d1 = None"
proof -
  have "\<not> distinct (idem_keys (db_tasks (apply_work uw d1)))"
    using assms by (auto simp: apply_work_tasks)
  then show ?thesis by (simp add: commit_def constraints_ok_def)
qed

text \<open>A creation with a key that no stored task has stores one task with it; when it is not refused, then in any
  environment.\<close>

lemma keyed_creation:
  assumes "fst (run_tx (create_task validate env wid caller inp ex prio timeout (Some k) md cb d) d) = Inr (n, w, False)"
  obtains (created) n0 where "find (\<lambda>t. t_idempotency_key t = Some k) (db_tasks d) = None" and "get_workflow d wid = Some w"
    and "t_idempotency_key n0 = Some k" and "t_input n0 = inp"
    and "create_task validate env wid caller inp ex prio timeout (Some k) md cb d
           = Commit \<lparr>uw_update = None, uw_tasks = [n0],
                     uw_events = [new_event (t_id n0) ''created'' (Some [(''status'', JStr ''accepted''), (''caller'', JStr caller)]) 1 (env_now env)]\<rparr>
               (\<lambda>d'. (refresh_task n0 d', w, False))"
    and "\<exists>n' uw r. t_idempotency_key n' = Some k \<and> uw_tasks uw = [n']
           \<and> create_task validate env' wid caller inp ex prio timeout (Some k) md cb d = Commit uw r"
proof -
  have none: "find (\<lambda>t. t_idempotency_key t = Some k) (db_tasks d) = None"
    using assms by (auto simp: create_task_def check_idempotency_def get_workflow_or_404_def Let_def split: option.splits if_splits)
  have w: "get_workflow d wid = Some w"
    using assms by (auto simp: create_task_def check_idempotency_def none get_workflow_or_404_def Let_def
        split: option.splits sum.splits if_splits)
  obtain q where guards: "check_agent_not_suspended d (str_or ex (w_owner w)) = Inr ()"
      "validate_input validate inp (w_input_schema w) = Inr ()" "priority_of_value prio = Some q"
    using assms by (auto simp: create_task_def check_idempotency_def none w get_workflow_or_404_def Let_def
        split: option.splits sum.splits if_splits)
  show ?thesis
    by (rule that [OF none w]) (auto simp: create_task_def check_idempotency_def none w get_workflow_or_404_def Let_def guards)
qed

text \<open>C38: A request that is delivered twice. When a creation with an idempotency key is delivered again while it is
  still being stored, the second delivery passes the check of the key, and is answered with an internal
  error (500) for the unique index of the keys; nothing more is stored. Delivered again
  after it was stored, it is answered with the stored task, as a replay.\<close>

theorem overlapping_creates:
  assumes "fst (run_tx (create_task validate env wid caller inp ex prio timeout (Some k) md cb d) d) = Inr (n, w, False)"
    and "d1 = snd (run_tx (create_task validate env wid caller inp ex prio timeout (Some k) md cb d) d)"
  shows "run_tx (create_task validate env' wid caller inp ex prio timeout (Some k) md cb d) d1 = (Inl DatabaseError, d1)
         \<and> exn_status DatabaseError = 500
         \<and> run_tx (create_task validate env' wid caller inp ex prio timeout (Some k) md cb d1) d1 = (Inr (n, w, True), d1)"
  using assms(1)
proof (rule keyed_creation [where env' = env'])
  fix n0
  assume none: "find (\<lambda>t. t_idempotency_key t = Some k) (db_tasks d) = None" and w: "get_workflow d wid = Some w"
    and n0: "t_idempotency_key n0 = Some k" "t_input n0 = inp"
    and tx: "create_task validate env wid caller inp ex prio timeout (Some k) md cb d
           = Commit \<lparr>uw_update = None, uw_tasks = [n0],
                     uw_events = [new_event (t_id n0) ''created'' (Some [(''status'', JStr ''accepted''), (''caller'', JStr caller)]) 1 (env_now env)]\<rparr>
               (\<lambda>d'. (refresh_task n0 d', w, False))"
    and again: "\<exists>n' uw r. t_idempotency_key n' = Some k \<and> uw_tasks uw = [n']
           \<and> create_task validate env' wid caller inp ex prio timeout (Some k) md cb d = Commit uw r"
  let ?uw = "\<lparr>uw_update = None, uw_tasks = [n0],
      uw_events = [new_event (t_id n0) ''created'' (Some [(''status'', JStr ''accepted''), (''caller'', JStr caller)]) 1 (env_now env)]\<rparr>"
  have c: "commit ?uw d = Some d1" and n: "n = refresh_task n0 d1"
    using assms by (auto simp: tx split: option.splits)
  have d1: "db_tasks d1 = db_tasks d @ [n0]" "get_workflow d1 wid = Some w"
    using commit_apply [OF c] w by (simp_all add: apply_work_tasks updated_tasks_def get_workflow_def)
  have "n = n0" using commit_get_insert [OF c] refresh_task_get n by simp
  moreover have "find (\<lambda>t. t_idempotency_key t = Some k) (db_tasks d1) = Some n0"
    using none n0 by (simp add: d1 find_append)
  ultimately have "run_tx (create_task validate env' wid caller inp ex prio timeout (Some k) md cb d1) d1 = (Inr (n, w, True), d1)"
    using n0 d1(2) by (simp add: create_task_def check_idempotency_def get_workflow_or_404_def)
  moreover obtain n' uw r where "t_idempotency_key n' = Some k" "uw_tasks uw = [n']"
      "create_task validate env' wid caller inp ex prio timeout (Some k) md cb d = Commit uw r"
    using again by blast
  then have "run_tx (create_task validate env' wid caller inp ex prio timeout (Some k) md cb d) d1 = (Inl DatabaseError, d1)"
    using repeated_key_commit [of k uw d1] n0 by (simp add: d1)
  ultimately show ?thesis by simp
qed

lemma overlapping_creates_witness:
  "fst (run_tx (create_task any_input (env_at 10 ''8'') ''w'' ''p'' [] None ''high'' None (Some ''key'') None None sample_accepted)
         (snd (run_tx (create_task any_input (env_at 9 ''7'') ''w'' ''p'' [] None ''high'' None (Some ''key'') None None
                         sample_accepted) sample_accepted))) = Inl DatabaseError"
proof -
  let ?r = "run_tx (create_task any_input (env_at 9 ''7'') ''w'' ''p'' [] None ''high'' None (Some ''key'') None None sample_accepted)
      sample_accepted"
  have "case fst ?r of Inl _ \<Rightarrow> False | Inr (_, _, replay) \<Rightarrow> \<not> replay" by code_simp
  then obtain n w where "fst ?r = Inr (n, w, False)" by (auto split: sum.splits)
  from overlapping_creates [OF this refl] show ?thesis by simp
qed

end
