(* ===== verification/Props_Endpoints.thy ===== *)
theory Props_Endpoints
  imports Samples Paging
begin

text \<open>
  The endpoints: what a client sees of the services through statuses, bodies and encoded cursors.
\<close>

section \<open>Following the cursors of a listing\<close>

definition summaries :: "task list \<Rightarrow> json list" where
  "summaries ts = map (\<lambda>t. JObj (task_to_summary_response t)) ts"

definition encode_key :: "time \<times> string \<Rightarrow> string" where
  "encode_key = (\<lambda>(t, k). encode_task_cursor k t)"

lemma endpoint_body:
  assumes "1 \<le> q_limit q" and "q_limit q \<le> 100"
    and "list_tasks_page py_repr fromisoformat d wid q = Inr (ts, nxt, further, n)"
  shows "\<exists>body. list_tasks_endpoint py_repr fromisoformat d wid q = Inr (200, body)
           \<and> data_of body = summaries ts \<and> next_cursor_of body = nxt"
  using assms
  by (auto simp: list_tasks_endpoint_def data_of_def next_cursor_of_def pagination_def summaries_def
      dict_get_def jopt_str_def Let_def split: option.splits)

text \<open>C26: A client gets every task through the cursors. On an unchanged database whose timestamps are read
  back as they are written, a client that follows the encoded next cursors of the filtered listing,
  with any page size from 1 to 100, gets status 200 each time and the summary of every matching task
  of the workflow exactly once, newest first, after at most one request for each of them and one more.\<close>

theorem cursor_listing_complete:
  assumes reach: "reachable cfg d" and w: "get_workflow d wid = Some w"
    and filters: "parse_filter status_of_value (q_status q) = Inr st" "parse_filter priority_of_value (q_priority q) = Inr pr"
      "parse_filter fromisoformat (q_since q) = Inr si" "parse_filter fromisoformat (q_until q) = Inr un"
    and limit: "1 \<le> q_limit q" "q_limit q \<le> 100"
    and times: "\<forall>t \<in> set (db_tasks d). fromisoformat (isoformat (t_created_at t)) = Some (t_created_at t)"
  shows
    "let f = \<lparr>f_status = st, f_priority = pr, f_caller = q_caller q, f_since = si, f_until = un\<rparr>;
         wanted = {t \<in> set (db_tasks d). matches f wid t};
         get = (\<lambda>c. list_tasks_endpoint py_repr fromisoformat d wid (q\<lparr>q_cursor := c\<rparr>))
     in \<exists>rows. follow_cursors (Suc (card wanted)) get None = Some (summaries rows) \<and> set rows = wanted
          \<and> distinct rows \<and> sorted_wrt (\<lambda>x y. page_key y < page_key x) rows"
proof -
  define f where "f = \<lparr>f_status = st, f_priority = pr, f_caller = q_caller q, f_since = si, f_until = un\<rparr>"
  define rows where "rows = base_rows d f wid"
  note ok = db_inv_constraints [OF reachable_inv [OF reach]]
  have set_rows: "set rows = {t \<in> set (db_tasks d). matches f wid t}"
    by (auto simp: rows_def base_rows_def)
  have "distinct (db_tasks d)" using distinct_task_ids [OF ok] by (simp add: distinct_map)
  then have dist: "distinct rows" by (simp add: rows_def base_rows_def)
  have desc: "sorted_wrt (\<lambda>x y. page_key y < page_key x) rows"
    unfolding rows_def by (rule base_rows_desc [OF ok])
  have pos: "0 < nat (q_limit q)" using limit by simp
  have listed: "list_tasks fromisoformat d wid (q_status q) (q_priority q) (q_caller q) (q_since q) (q_until q) c (nat (q_limit q))
      = Inr (let (ts, nxt, further) = keyset_page page_key (\<lambda>c k. k < c) (nat (q_limit q)) rows c
             in (ts, nxt, further, length rows))" for c
    unfolding page_of_keyset [OF pos, symmetric]
    using w filters by (simp add: list_tasks_def get_workflow_or_404_def rows_def f_def Let_def split: prod.splits)
  have "follow_cursors (Suc (length rows)) (\<lambda>c. list_tasks_endpoint py_repr fromisoformat d wid (q\<lparr>q_cursor := c\<rparr>)) None
      = Some (map (\<lambda>t. JObj (task_to_summary_response t)) rows)"
  proof (rule task_pages.follow_cursors_all [OF _ pos desc])
    fix c assume c: "c \<in> insert None (Some ` page_key ` set rows)"
    obtain ts nxt further where p: "keyset_page page_key (\<lambda>c k. k < c) (nat (q_limit q)) rows c = (ts, nxt, further)"
      by (cases "keyset_page page_key (\<lambda>c k. k < c) (nat (q_limit q)) rows c")
    have "\<exists>r. list_tasks fromisoformat d wid (q_status q) (q_priority q) (q_caller q) (q_since q) (q_until q) None
        (nat (q_limit q)) = Inr r" unfolding listed by blast
    moreover have "\<And>t k. c = Some (t, k) \<Longrightarrow> fromisoformat (isoformat t) = Some t"
      using c times set_rows by (auto simp: page_key_def)
    ultimately have "list_tasks_page py_repr fromisoformat d wid (q\<lparr>q_cursor := map_option encode_key c\<rparr>)
        = Inr (ts, map_option encode_key nxt, further, length rows)"
      using p listed [of c]
      by (cases c) (auto simp: list_tasks_page_def encode_key_def [abs_def] decode_encode_task_cursor Let_def)
    then show "\<exists>body. list_tasks_endpoint py_repr fromisoformat d wid (q\<lparr>q_cursor := map_option encode_key c\<rparr>) = Inr (200, body)
        \<and> (case keyset_page page_key (\<lambda>c k. k < c) (nat (q_limit q)) rows c of (rs, nxt, further) \<Rightarrow>
             data_of body = map (\<lambda>t. JObj (task_to_summary_response t)) rs
             \<and> next_cursor_of body = map_option encode_key nxt)"
      using endpoint_body [of "q\<lparr>q_cursor := map_option encode_key c\<rparr>"] limit p by (auto simp: summaries_def)
  qed
  moreover have "card {t \<in> set (db_tasks d). matches f wid t} = length rows"
    using set_rows dist distinct_card by metis
  ultimately show ?thesis
    unfolding f_def [symmetric] Let_def summaries_def using set_rows dist desc by auto
qed

definition read_sample_time :: "string \<Rightarrow> time option" where
  "read_sample_time s = (if s = isoformat 3 then Some 3 else None)"

definition all_tasks :: list_query where
  "all_tasks = \<lparr>q_status = None, q_priority = None, q_caller = None, q_since = None, q_until = None,
                q_limit = 1, q_cursor = None\<rparr>"

lemma cursor_listing_complete_witness:
  "let f = \<lparr>f_status = None, f_priority = None, f_caller = None, f_since = None, f_until = None\<rparr>;
       wanted = {t \<in> set (db_tasks sample_running). matches f ''w'' t}
   in \<exists>rows. follow_cursors (Suc (card wanted))
        (\<lambda>c. list_tasks_endpoint (\<lambda>_. []) read_sample_time sample_running ''w'' (all_tasks\<lparr>q_cursor := c\<rparr>)) None
      = Some (summaries rows) \<and> set rows = wanted"
proof -
  have filters: "parse_filter status_of_value (q_status all_tasks) = Inr None"
    "parse_filter priority_of_value (q_priority all_tasks) = Inr None"
    "parse_filter read_sample_time (q_since all_tasks) = Inr None" "parse_filter read_sample_time (q_until all_tasks) = Inr None"
    and limit: "1 \<le> q_limit all_tasks" "q_limit all_tasks \<le> 100"
    by (simp_all add: all_tasks_def parse_filter_def)
  have times: "\<forall>t \<in> set (db_tasks sample_running). read_sample_time (isoformat (t_created_at t)) = Some (t_created_at t)"
    by (simp add: sample_running_def sample_running_task_def sample_task_def read_sample_time_def)
  show ?thesis
    using cursor_listing_complete [OF reachable_running sample_lookups(2) filters limit times, of "\<lambda>_. []"]
    by (auto simp: Let_def all_tasks_def)
qed

section \<open>Workflows\<close>

lemma workflows_body:
  assumes "1 \<le> limit" and "limit \<le> 100"
    and "list_workflows_page py_repr d status owner tag limit cursor = Inr (items, nxt, further, n)"
  shows "\<exists>body. list_workflows_endpoint py_repr d status owner tag limit cursor = Inr (200, body)
           \<and> data_of body = map (\<lambda>(w, es). JObj (workflow_to_response w es)) items \<and> next_cursor_of body = nxt"
  using assms
  by (auto simp: list_workflows_endpoint_def data_of_def next_cursor_of_def pagination_def dict_get_def jopt_str_def Let_def
      split: option.splits)

text \<open>A client gets every workflow through the cursors. On an unchanged database, with a known status
  or none, any owner and tag, and any page size from 1 to 100, a client that follows the encoded cursors
  gets status 200 each time and every matching workflow exactly once, in the order of their ids, each as
  its row is and with the status of its owner, after at most one request for each of them and one more.\<close>

theorem workflow_listing_complete:
  assumes reach: "reachable cfg d" and limit: "1 \<le> limit" "limit \<le> 100"
    and status: "(case status of None \<Rightarrow> Some WF_ACTIVE | Some s \<Rightarrow> workflow_status_of_value s) = Some st"
  shows
    "let wanted = {w \<in> set (db_workflows d). workflow_matches st owner tag w};
         get = list_workflows_endpoint py_repr d status owner tag limit
     in \<exists>rows. follow_cursors (Suc (card wanted)) get None
                 = Some (map (\<lambda>w. JObj (workflow_to_response w (executor_status d w))) rows)
          \<and> set rows = wanted \<and> sorted_wrt (<) (map w_id rows)"
proof -
  let ?rows = "workflow_rows d st owner tag" and ?key = "\<lambda>item. w_id (fst item)"
  let ?items = "map (with_executor d) ?rows"
  note rows = workflow_rows_ascending [OF db_inv_constraints [OF reachable_inv [OF reach]], of st owner tag]
  have pos: "0 < nat limit" using limit by simp
  have asc: "sorted_wrt (\<lambda>x y. ?key x < ?key y) ?items"
    using rows(1) by (simp add: sorted_wrt_map with_executor_def)
  have "follow_cursors (Suc (length ?items)) (list_workflows_endpoint py_repr d status owner tag limit) None
      = Some (map (\<lambda>(w, es). JObj (workflow_to_response w es)) ?items)"
  proof (rule workflow_pages.follow_cursors_all [where enc = encode_cursor, OF _ pos asc])
    fix c
    obtain items nxt further where p: "keyset_page ?key (<) (nat limit) ?items c = (items, nxt, further)"
      by (cases "keyset_page ?key (<) (nat limit) ?items c")
    have "list_workflows_page py_repr d status owner tag limit (map_option encode_cursor c)
        = Inr (items, map_option encode_cursor nxt, further, length ?rows)"
      using p by (cases c) (simp_all add: list_workflows_page_def list_workflows_keyset [OF status pos] decode_encode_cursor
          Let_def split: prod.splits)
    then show "\<exists>body. list_workflows_endpoint py_repr d status owner tag limit (map_option encode_cursor c) = Inr (200, body)
        \<and> (case keyset_page ?key (<) (nat limit) ?items c of (rs, nxt, further) \<Rightarrow>
             data_of body = map (\<lambda>(w, es). JObj (workflow_to_response w es)) rs
             \<and> next_cursor_of body = map_option encode_cursor nxt)"
      using workflows_body [OF limit] p by auto
  qed
  moreover have "card {w \<in> set (db_workflows d). workflow_matches st owner tag w} = length ?rows"
    using rows(2,3) distinct_card by metis
  ultimately show ?thesis
    using rows unfolding Let_def
    by (intro exI [of _ ?rows]) (simp add: comp_def with_executor_def del: follow_cursors.simps)
qed

lemma workflow_listing_complete_witness:
  "\<exists>rows. follow_cursors (Suc (card {w \<in> set (db_workflows sample_base). workflow_matches WF_ACTIVE (Some ''p'') None w}))
        (list_workflows_endpoint (\<lambda>_. []) sample_base None (Some ''p'') None 1) None
      = Some (map (\<lambda>w. JObj (workflow_to_response w (executor_status sample_base w))) rows)
    \<and> set rows = {w \<in> set (db_workflows sample_base). workflow_matches WF_ACTIVE (Some ''p'') None w}"
  using workflow_listing_complete [OF reachable_base, of 1 None WF_ACTIVE "Some ''p''" None "\<lambda>_. []"]
  by (simp add: Let_def del: follow_cursors.simps) blast

section \<open>Errors\<close>

lemma run_tx_error:
  assumes "fst (run_tx t d) = Inl e"
  shows "snd (run_tx t d) = d \<or> (\<exists>uw. t = CommitRaise uw e)"
  using assms by (cases t) (auto split: option.splits)

lemma no_commit_raise:
  "create_task validate env wid caller inp ex prio to key md cb d \<noteq> CommitRaise uw e"
  "cancel_task env wid tid caller why d \<noteq> CommitRaise uw e"
  "pause_task env wid tid caller why d \<noteq> CommitRaise uw e"
  "retask_task env wid tid caller refinement p key d \<noteq> CommitRaise uw e"
  "redirect_task env wid tid caller reason inputs inherit p key d \<noteq> CommitRaise uw e"
  "inject_context env wid tid caller ct payload sq urg d \<noteq> CommitRaise uw e"
  "process_sidecar_event env tid ty data sq agent d \<noteq> CommitRaise uw e"
  by (auto simp: create_task_def cancel_task_def pause_task_def retask_task_def redirect_task_def inject_context_def
      process_sidecar_event_def Let_def split: op_splits)

lemma resume_commit_raise: "resume_task env wid tid caller prio d = CommitRaise uw e \<Longrightarrow> e = Fleet PAUSE_TIMEOUT"
  by (auto simp: resume_task_def Let_def split: op_splits)

lemma heartbeat_beats: "heartbeat env auth k d = (Inr a, d') \<Longrightarrow> a_last_heartbeat a = Some (env_now env)"
  by (auto simp: heartbeat_def write_rows_def beat_def Let_def split: if_splits option.splits)

lemma run_error: "fst (run_tx t d) = Inl e \<Longrightarrow> (\<And>uw e. t \<noteq> CommitRaise uw e) \<Longrightarrow> snd (run_tx t d) = d"
  using run_tx_error by blast

text \<open>An answer that is no error, or came without a change.\<close>

definition clean :: "db \<Rightarrow> answer \<times> db \<Rightarrow> bool" where
  "clean d r = (case fst r of Inl e \<Rightarrow> snd r = d | Inr _ \<Rightarrow> True)"

lemma cleanI: "(\<And>e. fst r = Inl e \<Longrightarrow> snd r = d) \<Longrightarrow> clean d r"
  by (auto simp: clean_def split: sum.splits)

text \<open>C27: An error answer means that nothing happened. Whenever an endpoint that can write answers with an
  error (a refused body, a coded error, a database error or another exception), the database is as
  it was before the request. There is one exception: a resume that is refused with PAUSE_TIMEOUT
  has cancelled the task.\<close>

theorem error_answers_change_nothing:
  "clean d (run_task_endpoint validate env agent wid run_body key d)
   \<and> clean d (cancel_task_endpoint env agent wid tid reason d)
   \<and> clean d (pause_task_endpoint env agent wid tid reason d)
   \<and> (clean d (resume_task_endpoint env agent wid tid prio d)
      \<or> fst (resume_task_endpoint env agent wid tid prio d) = Inl (Fleet PAUSE_TIMEOUT))
   \<and> clean d (retask_task_endpoint env agent wid tid retask_body key d)
   \<and> clean d (redirect_task_endpoint env agent wid tid redirect_body key d)
   \<and> clean d (inject_context_endpoint env agent wid tid context_body d)
   \<and> clean d (post_task_event env agent tid event_body d)
   \<and> clean d (register_endpoint dump env register_body d)
   \<and> clean d (heartbeat_endpoint dump env agent agent_id d)
   \<and> clean d (create_workflow_endpoint env agent wid content d)
   \<and> clean d (update_workflow_endpoint env agent wid changes d)"
proof (intro conjI)
  note steps = respond_error Let_def
  show "clean d (run_task_endpoint validate env agent wid run_body key d)"
    by (rule cleanI)
       (auto simp: run_task_endpoint_def steps intro: run_error [OF _ no_commit_raise(1)] split: if_splits)
  show "clean d (cancel_task_endpoint env agent wid tid reason d)"
    by (rule cleanI) (auto simp: cancel_task_endpoint_def steps intro: run_error [OF _ no_commit_raise(2)])
  show "clean d (pause_task_endpoint env agent wid tid reason d)"
    by (rule cleanI) (auto simp: pause_task_endpoint_def steps intro: run_error [OF _ no_commit_raise(3)])
  show "clean d (resume_task_endpoint env agent wid tid prio d)
      \<or> fst (resume_task_endpoint env agent wid tid prio d) = Inl (Fleet PAUSE_TIMEOUT)"
    using run_tx_error resume_commit_raise
    by (fastforce simp: resume_task_endpoint_def steps clean_def split: sum.splits)
  show "clean d (retask_task_endpoint env agent wid tid retask_body key d)"
    by (rule cleanI) (auto simp: retask_task_endpoint_def steps intro: run_error [OF _ no_commit_raise(4)])
  show "clean d (redirect_task_endpoint env agent wid tid redirect_body key d)"
    by (rule cleanI) (auto simp: redirect_task_endpoint_def steps intro: run_error [OF _ no_commit_raise(5)])
  show "clean d (inject_context_endpoint env agent wid tid context_body d)"
    by (rule cleanI)
       (auto simp: inject_context_endpoint_def steps intro: run_error [OF _ no_commit_raise(6)] split: if_splits)
  show "clean d (post_task_event env agent tid event_body d)"
    by (rule cleanI)
       (auto simp: post_task_event_def steps intro: run_error [OF _ no_commit_raise(7)] split: if_splits)
  show "clean d (register_endpoint dump env register_body d)"
    by (rule cleanI) (auto simp: register_endpoint_def steps register_op.failed)
  show "clean d (heartbeat_endpoint dump env agent agent_id d)"
    using heartbeat_op.failed [of env agent agent_id d]
    by (intro cleanI) (auto simp: heartbeat_endpoint_def heartbeat_response_def dest: heartbeat_beats
        split: prod.splits sum.splits option.splits)
  show "clean d (create_workflow_endpoint env agent wid content d)"
    by (rule cleanI) (auto simp: create_workflow_endpoint_def steps create_workflow_op.failed split: if_splits)
  show "clean d (update_workflow_endpoint env agent wid changes d)"
    by (rule cleanI) (auto simp: update_workflow_endpoint_def steps update_workflow_op.failed split: if_splits)
qed

lemma error_answers_change_nothing_witness:
  "pause_task_endpoint (env_at 5 []) ''q'' ''w'' ''task-1'' None sample_running = (Inl (Fleet NOT_AUTHORIZED), sample_running)"
proof -
  have e: "fst (pause_task_endpoint (env_at 5 []) ''q'' ''w'' ''task-1'' None sample_running) = Inl (Fleet NOT_AUTHORIZED)"
    by code_simp
  have "clean sample_running (pause_task_endpoint (env_at 5 []) ''q'' ''w'' ''task-1'' None sample_running)"
    using error_answers_change_nothing by blast
  then show ?thesis using e by (simp add: clean_def prod_eq_iff)
qed

end
