(* ===== verification/Board.thy ===== *)
theory Board
  imports Outcomes
begin

text \<open>
  What the task service promises, without tables, transactions, logs and clocks: a board of cards.
  A card has a workflow, a principal, an executor, a parent and a status; whoever may touch a card
  moves it along the transition table, or supersedes it with one new card. The server refines the
  board: every call is one step of the caller (\<open>Props_Board\<close>).
\<close>

section \<open>The specification\<close>

record card =
  cd_workflow :: string
  cd_principal :: string
  cd_executor :: "string option"
  cd_parent :: "string option"
  cd_status :: task_status

record board =
  bd_owner :: "string \<rightharpoonup> string"
  bd_card :: "string \<rightharpoonup> card"

text \<open>The principal, the executor and the owner of the workflow may touch a card.\<close>

definition may :: "string \<Rightarrow> board \<Rightarrow> card \<Rightarrow> bool" where
  "may who b c = (who = cd_principal c \<or> Some who = cd_executor c \<or> bd_owner b (cd_workflow c) = Some who)"

inductive board_step :: "string \<Rightarrow> board \<Rightarrow> board \<Rightarrow> bool" where
  idle: "board_step who b b"
| own: "bd_owner b w = None \<Longrightarrow> board_step who b (b\<lparr>bd_owner := (bd_owner b)(w \<mapsto> who)\<rparr>)"
| create: "bd_card b k = None \<Longrightarrow> cd_principal c = who \<Longrightarrow> cd_status c = ACCEPTED \<Longrightarrow> cd_parent c = None \<Longrightarrow>
    bd_owner b (cd_workflow c) \<noteq> None \<Longrightarrow> board_step who b (b\<lparr>bd_card := (bd_card b)(k \<mapsto> c)\<rparr>)"
| move: "bd_card b k = Some c \<Longrightarrow> may who b c \<Longrightarrow> s \<in> set (valid_transitions (cd_status c)) \<Longrightarrow>
    board_step who b (b\<lparr>bd_card := (bd_card b)(k \<mapsto> c\<lparr>cd_status := s\<rparr>)\<rparr>)"
| supersede: "bd_card b k = Some c \<Longrightarrow> may who b c \<Longrightarrow> s \<in> set (valid_transitions (cd_status c)) \<Longrightarrow>
    s = RETASKED \<or> s = REDIRECTED \<Longrightarrow> bd_card b j = None \<Longrightarrow>
    board_step who b (b\<lparr>bd_card := (bd_card b)(k \<mapsto> c\<lparr>cd_status := s\<rparr>,
                                              j \<mapsto> c\<lparr>cd_status := ACCEPTED, cd_parent := Some k\<rparr>)\<rparr>)"

section \<open>The abstraction\<close>

definition card_of :: "task \<Rightarrow> card" where
  "card_of t = \<lparr>cd_workflow = t_workflow_id t, cd_principal = t_principal t, cd_executor = t_executor t,
                cd_parent = t_parent t, cd_status = t_status t\<rparr>"

definition board_of :: "db \<Rightarrow> board" where
  "board_of d = \<lparr>bd_owner = (\<lambda>w. map_option w_owner (get_workflow d w)),
                 bd_card = (\<lambda>k. map_option card_of (get_task d k))\<rparr>"

text \<open>Who a call acts for; the heartbeat monitor is the server itself.\<close>

fun caller_of :: "call \<Rightarrow> string" where
  "caller_of (RegisterAgent body) = rr_agent_id body"
| "caller_of (Heartbeat auth agent) = auth"
| "caller_of (Sweep ids) = []"
| "caller_of (CreateWorkflow wid owner f) = owner"
| "caller_of (UpdateWorkflow wid caller ch) = caller"
| "caller_of (CreateTask wid caller inp ex prio to key md cb) = caller"
| "caller_of (CancelTask wid tid caller reason) = caller"
| "caller_of (RetaskTask wid tid caller refinement prio key) = caller"
| "caller_of (RedirectTask wid tid caller reason inp inh prio key) = caller"
| "caller_of (PauseTask wid tid caller reason) = caller"
| "caller_of (ResumeTask wid tid caller prio) = caller"
| "caller_of (InjectContext wid tid caller ct payload sq urg) = caller"
| "caller_of (SidecarEvent tid ty data sq ex) = ex"

section \<open>One commit is one step\<close>

lemma board_of_simps [simp]:
  "bd_owner (board_of d) w = map_option w_owner (get_workflow d w)"
  "bd_card (board_of d) k = map_option card_of (get_task d k)"
  by (simp_all add: board_of_def)

lemma board_eqI: "(\<And>w. bd_owner a w = bd_owner b w) \<Longrightarrow> (\<And>k. bd_card a k = bd_card b k) \<Longrightarrow> a = (b :: board)"
  by (cases a; cases b) auto

lemma commit_get:
  assumes "commit uw d = Some d'"
  shows "get_task d' k = (case get_task d k of
           Some t \<Rightarrow> Some (case uw_update uw of None \<Rightarrow> t | Some (old, new) \<Rightarrow> if k = t_id old then merge_task old new t else t)
         | None \<Rightarrow> row_get t_id (uw_tasks uw) k)"
  using commit_get_task [OF assms, of k] commitD [OF assms]
  by (auto simp: get_task_def apply_work_tasks row_get_append updated_tasks_get split: option.splits)

lemma commit_workflow [simp]: "commit uw d = Some d' \<Longrightarrow> get_workflow d' w = get_workflow d w"
  using commitD by (fastforce simp: get_workflow_def)

definition work_by :: "string \<Rightarrow> db \<Rightarrow> unit_of_work \<Rightarrow> bool" where
  "work_by who d uw =
     (case uw_update uw of
        None \<Rightarrow> \<forall>n \<in> set (uw_tasks uw). t_principal n = who \<and> get_workflow d (t_workflow_id n) \<noteq> None
      | Some (old, new) \<Rightarrow> may who (board_of d) (card_of old))"

lemma card_of_evolved:
  "same_identity t u \<Longrightarrow> card_of u = (card_of t)\<lparr>cd_status := t_status u\<rparr>"
  by (simp add: card_of_def same_identity_def)

lemma card_of_child: "child_of p t \<Longrightarrow> t_status t = ACCEPTED \<Longrightarrow>
    card_of t = (card_of p)\<lparr>cd_status := ACCEPTED, cd_parent := Some (t_id p)\<rparr>"
  by (simp add: card_of_def child_of_def)

lemma inserted_new:
  assumes "commit uw d = Some d'" and "n \<in> set (uw_tasks uw)"
  shows "get_task d (t_id n) = None"
proof (rule ccontr)
  assume "get_task d (t_id n) \<noteq> None"
  then have "t_id n \<in> t_id ` set (updated_tasks uw d)"
    using get_task_id_mem by (metis option.exhaust updated_tasks_id_set)
  moreover have "distinct (map t_id (updated_tasks uw d @ uw_tasks uw))"
    using commitD [OF assms(1)] apply_work_tasks [of uw d] by (metis constraints_ok_def)
  ultimately show False using assms(2) by (auto simp del: updated_tasks_ids updated_tasks_id_set)
qed

lemma commit_board_step:
  assumes inv: "db_inv mx d" and good: "good_work mx d uw" and c: "commit uw d = Some d'" and who: "work_by who d uw"
  shows "board_step who (board_of d) (board_of d')"
proof (cases "uw_update uw")
  case None
  show ?thesis
  proof (cases "uw_tasks uw")
    case Nil
    have "board_of d' = board_of d"
      using c None Nil by (intro board_eqI) (auto simp: commit_get split: option.splits)
    then show ?thesis by (simp add: board_step.idle)
  next
    case (Cons n ns)
    then have n: "uw_tasks uw = [n]" "fresh_task n" "root_task n"
      using good None by (auto simp: good_work_def good_insert_def split: list.splits)
    have new: "get_task d (t_id n) = None" using inserted_new [OF c] n(1) by simp
    have "board_of d' = (board_of d)\<lparr>bd_card := (bd_card (board_of d))(t_id n \<mapsto> card_of n)\<rparr>"
      using c None n(1) new by (intro board_eqI) (auto simp: commit_get split: option.splits)
    moreover have "board_step who (board_of d) \<dots>"
      using who None n new
      by (intro board_step.create) (auto simp: work_by_def card_of_def fresh_task_def root_task_def)
    ultimately show ?thesis by simp
  qed
next
  case (Some p)
  obtain old new where p: "uw_update uw = Some (old, new)" using Some by (cases p) auto
  have old: "get_task d (t_id old) = Some old" "evolves old new"
    using good p by (auto simp: good_work_def good_update_def)
  have merged: "merge_task old new old = new" using old(2) evolves_identity by simp
  have may: "may who (board_of d) (card_of old)" using who p by (simp add: work_by_def)
  have card: "card_of new = (card_of old)\<lparr>cd_status := t_status new\<rparr>"
    using old(2) evolves_identity card_of_evolved by blast
  have step: "t_status new \<noteq> t_status old \<Longrightarrow> t_status new \<in> set (valid_transitions (cd_status (card_of old)))"
    using old(2) by (auto simp: evolves_def status_step_simps card_of_def)
  show ?thesis
  proof (cases "uw_tasks uw")
    case Nil
    have b: "board_of d' = (board_of d)\<lparr>bd_card := (bd_card (board_of d))(t_id old \<mapsto> (card_of old)\<lparr>cd_status := t_status new\<rparr>)\<rparr>"
      using c p Nil old merged card by (intro board_eqI) (auto simp: commit_get split: option.splits)
    show ?thesis
    proof (cases "t_status new = t_status old")
      case True
      have "(card_of old)\<lparr>cd_status := t_status old\<rparr> = card_of old" by (simp add: card_of_def)
      then have "board_of d' = board_of d"
        using b True old(1) by (intro board_eqI) auto
      then show ?thesis by (simp add: board_step.idle)
    next
      case False
      show ?thesis
        unfolding b using old(1) may step [OF False] by (intro board_step.move) auto
    qed
  next
    case (Cons n ns)
    then have n: "uw_tasks uw = [n]" "fresh_task n" "child_of old n" "superseded (t_status new)" "t_status new \<noteq> t_status old"
      using good p by (auto simp: good_work_def good_insert_def split: list.splits)
    have new: "get_task d (t_id n) = None" using inserted_new [OF c] n(1) by simp
    then have neq: "t_id n \<noteq> t_id old" using old(1) by auto
    have cn: "card_of n = (card_of old)\<lparr>cd_status := ACCEPTED, cd_parent := Some (t_id old)\<rparr>"
      using card_of_child n by (simp add: fresh_task_def)
    have b: "board_of d' = (board_of d)\<lparr>bd_card := (bd_card (board_of d))
        (t_id old \<mapsto> (card_of old)\<lparr>cd_status := t_status new\<rparr>,
         t_id n \<mapsto> (card_of old)\<lparr>cd_status := ACCEPTED, cd_parent := Some (t_id old)\<rparr>)\<rparr>"
      using c p n(1) new neq old merged card cn by (intro board_eqI) (auto simp: commit_get split: option.splits)
    show ?thesis
      unfolding b using old(1) may step [OF n(5)] n(4) new by (intro board_step.supersede) (auto simp: superseded_def)
  qed
qed

section \<open>The operations\<close>

context task_operation begin

lemma refines_board:
  assumes "db_inv mx d" and "\<And>uw. tx_work (opr d) = Some uw \<Longrightarrow> work_by who d uw"
  shows "board_step who (board_of d) (board_of (snd (run_tx (opr d) d)))"
proof (rule run_cases [of d])
  assume "snd (run_tx (opr d) d) = d"
  then show ?thesis by (simp add: board_step.idle)
next
  fix uw assume "tx_work (opr d) = Some uw" "commit uw d = Some (snd (run_tx (opr d) d))"
  then show ?thesis using assms good commit_board_step by blast
qed

end

context principal_operation begin

lemma authorised_work:
  assumes "tx_work (opr d) = Some uw"
  shows "\<exists>w t. get_workflow d wid = Some w \<and> get_task d tid = Some t \<and> t_workflow_id t = wid
               \<and> (caller = t_principal t \<or> caller = w_owner w)"
proof (rule ccontr)
  assume "\<not> ?thesis"
  then have "\<exists>c. opr d = Raise (Fleet c)"
    using no_workflow [of d] no_task [of d] foreign_task [of d] not_principal [of d]
    by (metis not_None_eq)
  then show False using assms by auto
qed

lemma principal_refines:
  assumes inv: "db_inv mx d" and "\<And>uw. tx_work (opr d) = Some uw \<Longrightarrow> uw_update uw = None \<Longrightarrow> uw_tasks uw = []"
  shows "board_step caller (board_of d) (board_of (snd (run_tx (opr d) d)))"
proof (rule refines_board [OF inv])
  fix uw assume uw: "tx_work (opr d) = Some uw"
  obtain w t where wt: "get_workflow d wid = Some w" "get_task d tid = Some t" "t_workflow_id t = wid"
      "caller = t_principal t \<or> caller = w_owner w"
    using authorised_work [OF uw] by blast
  show "work_by caller d uw"
  proof (cases "uw_update uw")
    case None
    then show ?thesis using assms(2) [OF uw] by (simp add: work_by_def)
  next
    case (Some p)
    then obtain old new where p: "uw_update uw = Some (old, new)" by (cases p) auto
    have "get_task d (t_id old) = Some old"
      using good [OF inv uw] p by (auto simp: good_work_def good_update_def)
    then have "old = t" using concernsD [OF target [OF uw] p] wt(2) by simp
    then show ?thesis using p wt by (auto simp: work_by_def may_def card_of_def)
  qed
qed

end

end
