(* ===== verification/Row_Types.thy ===== *)
theory Row_Types
  imports System
begin

text \<open>
  What the rows of agents and workflows are known to be in every run, beyond the constraints of the
  schema: the registration checks hold for what is stored, because nothing changes an id, a key or
  a schema without them.
\<close>

definition agent_typed :: "agent \<Rightarrow> bool" where
  "agent_typed a = (agent_row_ok a \<and> validate_agent_id (a_id a) \<and> validate_public_key (a_public_key a))"

definition workflow_typed :: "workflow \<Rightarrow> bool" where
  "workflow_typed w =
     (workflow_row_ok w \<and> validate_workflow_id (w_id w)
      \<and> validate_json_schema_field (w_input_schema w) \<and> validate_json_schema_field (w_output_schema w))"

definition rows_typed :: "db \<Rightarrow> bool" where
  "rows_typed d = ((\<forall>a \<in> set (db_agents d). agent_typed a) \<and> (\<forall>w \<in> set (db_workflows d). workflow_typed w))"

lemma write_rows_typed:
  assumes "rows_typed d"
    and "\<And>a. a \<in> set (db_agents d') \<Longrightarrow> agent_row_ok a \<Longrightarrow> agent_typed a"
    and "\<And>w. w \<in> set (db_workflows d') \<Longrightarrow> workflow_row_ok w \<Longrightarrow> workflow_typed w"
  shows "rows_typed (snd (write_rows x d' d))"
  using assms by (auto simp: write_rows_def commit_rows_def rows_typed_def split: option.splits)

lemma same_rows_typed: "rows_typed d \<Longrightarrow> db_agents d' = db_agents d \<Longrightarrow> db_workflows d' = db_workflows d \<Longrightarrow> rows_typed d'"
  by (simp add: rows_typed_def)

lemma register_typed: "rows_typed d \<Longrightarrow> rows_typed (snd (register_agent env body d))"
  by (auto simp: register_agent_def Let_def split: option.splits intro!: write_rows_typed)
     (auto simp: rows_typed_def agent_typed_def new_agent_def)

lemma heartbeat_typed: "rows_typed d \<Longrightarrow> rows_typed (snd (heartbeat env auth agent d))"
  by (auto simp: heartbeat_def row_upd_def split: option.splits intro!: write_rows_typed)
     (auto simp: rows_typed_def agent_typed_def beat_def Let_def split: if_splits)

lemma sweep_typed: "rows_typed d \<Longrightarrow> rows_typed (snd (sweep_update ids d))"
  by (auto simp: sweep_update_def intro!: write_rows_typed)
     (auto simp: rows_typed_def agent_typed_def mark_unreachable_def split: if_splits)

lemma create_workflow_typed: "rows_typed d \<Longrightarrow> rows_typed (snd (create_workflow env wid owner f d))"
  by (auto simp: create_workflow_def Let_def split: option.splits intro!: write_rows_typed)
     (auto simp: rows_typed_def workflow_typed_def)

lemma set_if_field:
  assumes "\<And>v w. g (f v w) = g w"
  shows "g (set_if x f w) = g w" and "g (set_if_some y f w) = g w"
  using assms by (auto simp: set_if_def set_if_some_def split: option.splits)

lemma set_if_schema:
  "w_input_schema (set_if x (\<lambda>v w. w\<lparr>w_input_schema := v\<rparr>) w) = (case x of None \<Rightarrow> w_input_schema w | Some v \<Rightarrow> v)"
  "w_output_schema (set_if x (\<lambda>v w. w\<lparr>w_output_schema := v\<rparr>) w) = (case x of None \<Rightarrow> w_output_schema w | Some v \<Rightarrow> v)"
  by (auto simp: set_if_def split: option.splits)

lemma change_workflow_schemas:
  assumes "change_workflow c w = Inr w'"
    and "validate_json_schema_field (w_input_schema w)" and "validate_json_schema_field (w_output_schema w)"
  shows "validate_json_schema_field (w_input_schema w') \<and> validate_json_schema_field (w_output_schema w')"
proof -
  have "w_input_schema w' = (case ch_input_schema c of None \<Rightarrow> w_input_schema w | Some v \<Rightarrow> v)"
    "w_output_schema w' = (case ch_output_schema c of None \<Rightarrow> w_output_schema w | Some v \<Rightarrow> v)"
    "case ch_input_schema c of None \<Rightarrow> True | Some v \<Rightarrow> validate_json_schema_field v"
    "case ch_output_schema c of None \<Rightarrow> True | Some v \<Rightarrow> validate_json_schema_field v"
    using assms(1) unfolding change_workflow_def Let_def
    by (auto simp: set_if_field set_if_schema split: option.splits if_splits)
  then show ?thesis using assms(2,3) by (auto split: option.splits)
qed

lemma update_workflow_typed:
  assumes "rows_typed d"
  shows "rows_typed (snd (update_workflow env wid caller ch d))"
proof (cases "\<exists>w w1. get_workflow d wid = Some w \<and> w_owner w = caller \<and> change_workflow ch w = Inr w1")
  case False
  then have "snd (update_workflow env wid caller ch d) = d"
    by (auto simp: update_workflow_def split: option.splits sum.splits)
  then show ?thesis using assms by simp
next
  case True
  then obtain w w1 where w: "get_workflow d wid = Some w" "w_owner w = caller" "change_workflow ch w = Inr w1" by blast
  have mem: "w \<in> set (db_workflows d)" using w(1) by (auto simp: get_workflow_def dest: row_get_SomeD)
  then have typed: "workflow_typed w" using assms by (simp add: rows_typed_def)
  have id: "w_id w1 = w_id w" using change_workflow_identity [OF w(3)] by (simp add: workflow_identity_def)
  define w' where "w' = w1\<lparr>w_updated_at := Some (env_now env)\<rparr>"
  have run: "update_workflow env wid caller ch d
      = write_rows w' (d\<lparr>db_workflows := row_upd w_id wid (\<lambda>_. w') (db_workflows d)\<rparr>) d"
    using w by (simp add: update_workflow_def Let_def w'_def)
  have new: "workflow_row_ok w' \<Longrightarrow> workflow_typed w'"
    using typed id change_workflow_schemas [OF w(3)] by (simp add: workflow_typed_def w'_def)
  show ?thesis
    unfolding run
  proof (rule write_rows_typed [OF assms])
    fix v assume "v \<in> set (db_workflows (d\<lparr>db_workflows := row_upd w_id wid (\<lambda>_. w') (db_workflows d)\<rparr>))" "workflow_row_ok v"
    then show "workflow_typed v" using new assms by (auto simp: row_upd_def rows_typed_def split: if_splits)
  qed (use assms in \<open>simp add: rows_typed_def\<close>)
qed

lemma handle_typed:
  assumes "rows_typed d"
  shows "rows_typed (handle validate env c d)"
  using register_typed heartbeat_typed sweep_typed create_workflow_typed update_workflow_typed assms
  by (cases c)
     (simp_all add: same_rows_typed [OF assms] create_op.run_frame cancel_op.run_frame retask_op.run_frame
        redirect_op.run_frame pause_op.run_frame resume_op.run_frame inject_op.run_frame sidecar_op.run_frame)

interpretation typed: invariant_system empty_db "server_step cfg" rows_typed "\<lambda>_ _. True"
  for cfg
proof
  show "rows_typed empty_db" by (simp add: rows_typed_def empty_db_def)
  show "rows_typed d'" if "rows_typed d" "server_step cfg d d'" for d d'
    using that handle_typed by (auto elim!: server_stepE)
qed simp_all

lemma reachable_typed: "reachable cfg d \<Longrightarrow> rows_typed d"
  unfolding reachable_def by (rule typed.run_keeps_inv)

text \<open>A stored key is a key, so that the lookup never crashes.\<close>

lemma typed_key: "agent_typed a \<Longrightarrow> \<exists>k. public_key_of (a_public_key a) = Inr k \<and> length k = 32"
  by (auto simp: agent_typed_def validate_public_key_def public_key_of_def split: option.splits)

lemma typed_lookup:
  assumes "rows_typed d"
  shows "get_agent_public_key d a \<noteq> Inl e" and "is_agent_suspended d a \<noteq> Inl e"
  using assms typed_key
  by (fastforce simp: get_agent_public_key_def is_agent_suspended_def rows_typed_def get_agent_def
      split: option.splits sum.splits dest: row_get_SomeD)+

text \<open>References resolve.\<close>

lemma row_found: "k \<in> key ` set rs \<Longrightarrow> \<exists>r. row_get key rs k = Some r"
  using row_get_None_iff by (metis not_None_eq)

lemma referencesD: "references ks x \<Longrightarrow> x = Some k \<Longrightarrow> k \<in> ks"
  by (simp add: references_def)

lemma stored_references:
  assumes "task_row_ok d t"
  shows "\<exists>w. get_workflow d (t_workflow_id t) = Some w" and "\<exists>a. get_agent d (t_principal t) = Some a"
    and "t_executor t = Some e \<Longrightarrow> \<exists>a. get_agent d e = Some a"
    and "t_parent t = Some p \<Longrightarrow> \<exists>u. get_task d p = Some u"
    and "t_root t = Some r \<Longrightarrow> \<exists>u. get_task d r = Some u"
  using assms row_found referencesD
  unfolding task_row_ok_def get_workflow_def get_agent_def get_task_def by metis+

lemma stored_owner:
  assumes "constraints_ok d" and "w \<in> set (db_workflows d)"
  shows "\<exists>a. get_agent d (w_owner w) = Some a"
proof -
  have "w_owner w \<in> a_id ` set (db_agents d)" using assms unfolding constraints_ok_def by blast
  then show ?thesis unfolding get_agent_def by (rule row_found)
qed

end
