(* ===== verification/Props_Board.thy ===== *)
theory Props_Board
  imports Board Row_Types Samples
begin

text \<open>
  The refinement of the board by the server, and the types of the rows in every reachable database.
\<close>

section \<open>Refinement\<close>

lemma create_work_by:
  assumes "tx_work (create_task validate env wid caller inp ex prio to key md cb d) = Some uw"
  shows "work_by caller d uw"
  using create_work [OF assms] by (auto simp: work_by_def)

lemma sidecar_work_by:
  assumes "tx_work (process_sidecar_event env tid ty data sq ex d) = Some uw"
  shows "work_by ex d uw"
  using sidecar_work [OF assms] by (auto simp: work_by_def may_def card_of_def)

lemma lifecycle_updates:
  "tx_work (cancel_task env wid tid caller r d) = Some uw \<Longrightarrow> uw_update uw = None \<Longrightarrow> uw_tasks uw = []"
  "tx_work (pause_task env wid tid caller r d) = Some uw \<Longrightarrow> uw_update uw = None \<Longrightarrow> uw_tasks uw = []"
  "tx_work (resume_task env wid tid caller p d) = Some uw \<Longrightarrow> uw_update uw = None \<Longrightarrow> uw_tasks uw = []"
  "tx_work (retask_task env wid tid caller refinement p key d) = Some uw \<Longrightarrow> uw_update uw = None \<Longrightarrow> uw_tasks uw = []"
  "tx_work (redirect_task env wid tid caller reason inp inh p key d) = Some uw \<Longrightarrow> uw_update uw = None \<Longrightarrow> uw_tasks uw = []"
  "tx_work (inject_context env wid tid caller ct payload sq urg d) = Some uw \<Longrightarrow> uw_update uw = None \<Longrightarrow> uw_tasks uw = []"
  by (auto dest!: cancel_work pause_work resume_work retask_work redirect_work inject_work)

lemma same_rows_board: "db_tasks d' = db_tasks d \<Longrightarrow> db_workflows d' = db_workflows d \<Longrightarrow> board_of d' = board_of d"
  by (simp add: board_of_def get_task_def get_workflow_def)

lemma register_workflows: "db_workflows (snd (register_agent env body d)) = db_workflows d"
  using write_rows_cases [of "(new_agent env body, True)" "d\<lparr>db_agents := db_agents d @ [new_agent env body]\<rparr>" d]
  by (auto simp: register_agent_def Let_def split: option.splits)

lemma heartbeat_workflows: "db_workflows (snd (heartbeat env auth agent d)) = db_workflows d"
proof -
  have "db_workflows (snd (write_rows x (d\<lparr>db_agents := as\<rparr>) d)) = db_workflows d" for x :: agent and as
    using write_rows_cases [of x "d\<lparr>db_agents := as\<rparr>" d] by auto
  then show ?thesis by (simp add: heartbeat_def split: option.splits)
qed

lemma sweep_workflows: "db_workflows (snd (sweep_update ids d)) = db_workflows d"
  using write_rows_cases [of "()" "d\<lparr>db_agents := map (mark_unreachable ids) (db_agents d)\<rparr>" d]
  by (auto simp: sweep_update_def)

lemma create_workflow_board:
  "board_step owner (board_of d) (board_of (snd (create_workflow env wid owner f d)))"
proof (rule ccontr)
  assume no: "\<not> ?thesis"
  have idle: "snd (create_workflow env wid owner f d) \<noteq> d"
    using no board_step.idle by metis
  define w where "w = \<lparr>w_id = wid, w_name = wf_name f, w_owner = owner,
                 w_description = wf_description f, w_input_schema = wf_input_schema f,
                 w_output_schema = wf_output_schema f, w_estimated_duration = None,
                 w_timeout_seconds = wf_timeout_seconds f,
                 w_result_retention_days = wf_result_retention_days f, w_status = WF_ACTIVE,
                 w_tags = wf_tags f, w_created_at = env_now env, w_updated_at = None\<rparr>"
  have new: "get_workflow d wid = None"
    and res: "create_workflow env wid owner f d = write_rows w (d\<lparr>db_workflows := db_workflows d @ [w]\<rparr>) d"
    using idle by (auto simp: create_workflow_def Let_def w_def split: option.splits if_splits)
  then have d': "snd (create_workflow env wid owner f d) = d\<lparr>db_workflows := db_workflows d @ [w]\<rparr>"
    using idle write_rows_cases [of w "d\<lparr>db_workflows := db_workflows d @ [w]\<rparr>" d] by auto
  have "board_of (d\<lparr>db_workflows := db_workflows d @ [w]\<rparr>) = (board_of d)\<lparr>bd_owner := (bd_owner (board_of d))(wid \<mapsto> owner)\<rparr>"
    using new by (intro board_eqI)
      (auto simp: get_workflow_def get_task_def row_get_append w_def split: option.splits)
  moreover have "board_step owner (board_of d) \<dots>"
    using new by (intro board_step.own) simp
  ultimately show False using no d' by simp
qed

lemma row_get_put:
  "key v = k \<Longrightarrow> row_get key (row_upd key k (\<lambda>_. v) rs) j
     = (if j = k then map_option (\<lambda>_. v) (row_get key rs k) else row_get key rs j)"
  by (induction rs) (auto simp: row_upd_def)

lemma update_workflow_board: "board_of (snd (update_workflow env wid caller ch d)) = board_of d"
proof (rule ccontr)
  assume no: "\<not> ?thesis"
  then have idle: "snd (update_workflow env wid caller ch d) \<noteq> d" by metis
  then obtain w w1 where w: "get_workflow d wid = Some w" "change_workflow ch w = Inr w1"
    and res: "update_workflow env wid caller ch d = write_rows (w1\<lparr>w_updated_at := Some (env_now env)\<rparr>)
        (d\<lparr>db_workflows := row_upd w_id wid (\<lambda>_. w1\<lparr>w_updated_at := Some (env_now env)\<rparr>) (db_workflows d)\<rparr>) d"
    by (auto simp: update_workflow_def Let_def split: option.splits sum.splits if_splits)
  define w' where "w' = w1\<lparr>w_updated_at := Some (env_now env)\<rparr>"
  have d': "snd (update_workflow env wid caller ch d) = d\<lparr>db_workflows := row_upd w_id wid (\<lambda>_. w') (db_workflows d)\<rparr>"
    using idle res write_rows_cases [of w' "d\<lparr>db_workflows := row_upd w_id wid (\<lambda>_. w') (db_workflows d)\<rparr>" d]
    by (auto simp: w'_def)
  have "workflow_identity w' = workflow_identity w"
    using change_workflow_identity [OF w(2)] by (simp add: w'_def)
  then have id: "w_id w' = wid" "w_owner w' = w_owner w"
    using w(1) by (auto simp: workflow_identity_def get_workflow_def dest: row_get_SomeD)
  have "board_of (snd (update_workflow env wid caller ch d)) = board_of d"
    using w(1) id unfolding d'
    by (intro board_eqI) (auto simp: get_workflow_def get_task_def row_get_put)
  then show False using no by simp
qed

text \<open>C1: The server refines the board. In every reachable database each call, whatever its arguments, the
  clock and the uuid, is one step of the board by its caller: it leaves the board as it is, adds a
  workflow owned by the caller, adds an ACCEPTED card of the caller under a workflow, moves one
  card along the transition table, or supersedes one card by one new card of the same workflow,
  principal and executor; and the last two only when the caller is the card's principal, its
  executor or the owner of its workflow.\<close>

theorem server_refines_board:
  assumes "reachable cfg d" and "env_settings env = cfg"
  shows "board_step (caller_of c) (board_of d) (board_of (handle validate env c d))"
proof -
  have inv: "db_inv (fleet_lineage_max_depth (env_settings env)) d"
    using reachable_inv [OF assms(1)] assms(2) by simp
  show ?thesis
  proof (cases c)
    case (RegisterAgent body)
    then show ?thesis
      using same_rows_board [OF register_op.tasks_kept register_workflows] by (simp add: board_step.idle)
  next
    case (Heartbeat auth agent)
    then show ?thesis
      using same_rows_board [OF heartbeat_op.tasks_kept heartbeat_workflows] by (simp add: board_step.idle)
  next
    case (Sweep ids)
    then show ?thesis
      using same_rows_board [OF sweep_op.tasks_kept sweep_workflows] by (simp add: board_step.idle)
  next
    case (CreateWorkflow wid owner f)
    then show ?thesis by (simp add: create_workflow_board)
  next
    case (UpdateWorkflow wid caller ch)
    then show ?thesis by (simp add: update_workflow_board board_step.idle)
  next
    case (CreateTask wid caller inp ex prio to key md cb)
    then show ?thesis by (simp add: create_op.refines_board [OF inv] create_work_by)
  next
    case (SidecarEvent tid ty data sq ex)
    then show ?thesis by (simp add: sidecar_op.refines_board [OF inv] sidecar_work_by)
  qed (simp_all add: cancel_op.principal_refines [OF inv lifecycle_updates(1)]
        pause_op.principal_refines [OF inv lifecycle_updates(2)]
        resume_op.principal_refines [OF inv lifecycle_updates(3)]
        retask_op.principal_refines [OF inv lifecycle_updates(4)]
        redirect_op.principal_refines [OF inv lifecycle_updates(5)]
        inject_op.principal_refines [OF inv lifecycle_updates(6)])
qed

lemma server_refines_board_witness:
  "board_step ''p'' (board_of sample_accepted)
     (board_of (handle any_input (env_at 4 []) (SidecarEvent ''task-1'' ''status'' [(''status'', JStr ''running'')] 2 ''p'') sample_accepted))"
proof -
  have "env_settings (env_at 4 []) = sample_settings" by (simp add: env_at_def)
  from server_refines_board [OF reachable_accepted this,
      of "SidecarEvent ''task-1'' ''status'' [(''status'', JStr ''running'')] 2 ''p''" any_input]
  show ?thesis by simp
qed

section \<open>Types\<close>

text \<open>C6: Every stored row is of its type. In a reachable database each agent has an id of the registered
  form and a public key that decodes to 32 bytes; each workflow has a well-formed id, schemas with a
  type, and a registered owner; each task refers to stored rows of the right tables (its workflow,
  its principal and executor, its parent and root), has a lineage depth from 0 up to the limit, and a
  completion time exactly when its status is terminal; ids, idempotency keys and event numbers are
  unique. So authentication never crashes on what is stored, whatever the request.\<close>

theorem stored_rows_typed:
  assumes "reachable cfg d"
  shows "(\<forall>a \<in> set (db_agents d). agent_typed a \<and> (\<exists>k. public_key_of (a_public_key a) = Inr k \<and> length k = 32))
         \<and> (\<forall>w \<in> set (db_workflows d). workflow_typed w \<and> (\<exists>a. get_agent d (w_owner w) = Some a))
         \<and> (\<forall>t \<in> set (db_tasks d). get_task d (t_id t) = Some t
              \<and> (\<exists>w. get_workflow d (t_workflow_id t) = Some w) \<and> (\<exists>a. get_agent d (t_principal t) = Some a)
              \<and> (\<forall>e. t_executor t = Some e \<longrightarrow> (\<exists>a. get_agent d e = Some a))
              \<and> (\<forall>p. t_parent t = Some p \<longrightarrow> (\<exists>u. get_task d p = Some u))
              \<and> (\<forall>r. t_root t = Some r \<longrightarrow> (\<exists>u. get_task d r = Some u))
              \<and> 0 \<le> t_lineage_depth t \<and> t_lineage_depth t \<le> max 0 (fleet_lineage_max_depth cfg)
              \<and> (t_completed_at t \<noteq> None \<longleftrightarrow> is_terminal (t_status t)))
         \<and> distinct (idem_keys (db_tasks d)) \<and> distinct (map event_key (db_events d))
         \<and> require_auth (get_agent_public_key d) (is_agent_suspended d) verify sha256 fromisoformat now request
             \<noteq> AuthCrash e"
proof -
  note inv = reachable_inv [OF assms] and typed = reachable_typed [OF assms]
  have ok: "constraints_ok d" using inv by (rule db_inv_constraints)
  have "agent_typed a \<and> (\<exists>k. public_key_of (a_public_key a) = Inr k \<and> length k = 32)" if "a \<in> set (db_agents d)" for a
    using typed typed_key that by (auto simp: rows_typed_def)
  moreover have "workflow_typed w \<and> (\<exists>a. get_agent d (w_owner w) = Some a)" if "w \<in> set (db_workflows d)" for w
    using typed that stored_owner [OF ok that] by (simp add: rows_typed_def)
  moreover have "get_task d (t_id t) = Some t
              \<and> (\<exists>w. get_workflow d (t_workflow_id t) = Some w) \<and> (\<exists>a. get_agent d (t_principal t) = Some a)
              \<and> (\<forall>e. t_executor t = Some e \<longrightarrow> (\<exists>a. get_agent d e = Some a))
              \<and> (\<forall>p. t_parent t = Some p \<longrightarrow> (\<exists>u. get_task d p = Some u))
              \<and> (\<forall>r. t_root t = Some r \<longrightarrow> (\<exists>u. get_task d r = Some u))
              \<and> 0 \<le> t_lineage_depth t \<and> t_lineage_depth t \<le> max 0 (fleet_lineage_max_depth cfg)
              \<and> (t_completed_at t \<noteq> None \<longleftrightarrow> is_terminal (t_status t))" if t: "t \<in> set (db_tasks d)" for t
  proof -
    have row: "task_row_ok d t" and stamp: "task_inv t"
      and depth: "0 \<le> t_lineage_depth t" "t_lineage_depth t \<le> max 0 (fleet_lineage_max_depth cfg)"
      using ok inv t by (auto simp: constraints_ok_def db_inv_def lineage_inv_def)
    then show ?thesis using stored_references [OF row] get_task_mem [OF ok t] by (auto simp: task_inv_def)
  qed
  moreover have "distinct (idem_keys (db_tasks d)) \<and> distinct (map event_key (db_events d))"
    using ok by (simp add: constraints_ok_def)
  moreover have "require_auth (get_agent_public_key d) (is_agent_suspended d) verify sha256 fromisoformat now request
             \<noteq> AuthCrash e"
    using typed_lookup [OF typed]
    by (auto simp: require_auth_def Let_def split: option.splits sum.splits lookup_error.splits bool.splits)
  ultimately show ?thesis by blast
qed

lemma stored_rows_typed_witness:
  "\<exists>a. get_agent sample_completed (t_principal sample_completed_task) = Some a"
proof -
  have "sample_completed_task \<in> set (db_tasks sample_completed)" by (simp add: sample_completed_def)
  then show ?thesis using stored_rows_typed [OF reachable_completed] by blast
qed

end
