(* ===== verification/Http_Client.thy ===== *)
theory Http_Client
  imports Auth Json
begin

text \<open>
  What the parts of the sidecar \<open>src/fleet_agent\<close> share: signed requests through \<open>httpx\<close>, the data of
  \<open>models.py\<close>, and the exponential backoff.

  The rest of the world is a state \<open>'s\<close>. Sending a request takes the world to its next state and
  gives a reply; nothing is assumed of it here. \<open>Sidecar_System\<close> puts the modelled server there.
\<close>

section \<open>Requests and replies\<close>

text \<open>A response with its status and JSON body (None when it is not JSON), \<open>httpx.ConnectError\<close>, or
  any other exception of the client (a read timeout, a protocol error).\<close>

datatype reply = Reply int "json option" | Connect_Error | Other_Error

text \<open>\<open>raise_for_status\<close> lets the 2xx statuses through.\<close>

fun raises_for_status :: "int \<Rightarrow> bool" where
  "raises_for_status status = (\<not> (200 \<le> status \<and> status < 300))"

text \<open>
  The constants of a sidecar process: \<open>cl_dump\<close> is \<open>model_dump_json().encode()\<close>, \<open>cl_clock\<close>
  the time at which a request is signed and \<open>cl_send\<close> the network with all that is behind it.
\<close>

record ('sk, 's) client =
  cl_agent_id :: string
  cl_private_key :: 'sk
  cl_public_bytes :: "'sk \<Rightarrow> bytes"
  cl_sign :: "'sk \<Rightarrow> bytes \<Rightarrow> bytes"
  cl_sha256 :: "bytes \<Rightarrow> string"
  cl_dump :: "json \<Rightarrow> bytes"
  cl_clock :: "'s \<Rightarrow> time"
  cl_send :: "request \<Rightarrow> 's \<Rightarrow> reply \<times> 's"

definition signed_request :: "('sk, 's) client \<Rightarrow> string \<Rightarrow> string \<Rightarrow> bytes \<Rightarrow> 's \<Rightarrow> request" where
  "signed_request cl method path body s =
     (let (authorization, timestamp) =
            sign_request (cl_sign cl) (cl_sha256 cl) (cl_clock cl s) method path body (cl_private_key cl)
              (cl_agent_id cl)
      in \<lparr>r_method = method, r_path = path, r_query = [], r_authorization = Some authorization,
          r_timestamp = Some timestamp, r_body = body\<rparr>)"

section \<open>Repeated attempts\<close>

text \<open>The first \<open>n\<close> replies of the world to repeated attempts, and the world after them.\<close>

fun replies :: "('s \<Rightarrow> reply \<times> 's) \<Rightarrow> nat \<Rightarrow> 's \<Rightarrow> reply list" where
  "replies attempt 0 s = []"
| "replies attempt (Suc n) s = fst (attempt s) # replies attempt n (snd (attempt s))"

fun world_after :: "('s \<Rightarrow> reply \<times> 's) \<Rightarrow> nat \<Rightarrow> 's \<Rightarrow> 's" where
  "world_after attempt 0 s = s"
| "world_after attempt (Suc n) s = world_after attempt n (snd (attempt s))"

lemma replies_length [simp]: "length (replies attempt n s) = n"
  by (induction n arbitrary: s) auto

section \<open>\<open>models.py\<close>\<close>

record pending_task =
  pt_task_id :: string
  pt_workflow_id :: string
  pt_input :: dict
  pt_priority :: string
  pt_timeout_seconds :: "int option"
  pt_created_at :: string

record sidecar_event =
  ev_type :: string
  ev_data :: "dict option"
  ev_sequence :: int

definition signal_types :: "string list" where
  "signal_types = [''pause_requested'', ''resume_requested'', ''cancel_requested'', ''redirect_requested'',
     ''context_injection'']"

record signal =
  sg_task_id :: string
  sg_signal_type :: string
  sg_timestamp :: string
  sg_payload :: "dict option"

text \<open>\<open>model_validate\<close> of one object; None is a ValidationError.\<close>

fun str_field :: "dict \<Rightarrow> string \<Rightarrow> string option" where
  "str_field d k = (case map_of d k of Some (JStr s) \<Rightarrow> Some s | _ \<Rightarrow> None)"

fun dict_or_null :: "dict \<Rightarrow> string \<Rightarrow> dict option option" where
  "dict_or_null d k =
     (case map_of d k of None \<Rightarrow> Some None | Some JNull \<Rightarrow> Some None | Some (JObj e) \<Rightarrow> Some (Some e) | _ \<Rightarrow> None)"

text \<open>
  An optional integer field. Pydantic's lax mode also reads an integer from a Boolean and from a
  decimal string; the server writes an integer or null.
\<close>

fun int_or_null :: "dict \<Rightarrow> string \<Rightarrow> int option option" where
  "int_or_null d k =
     (case map_of d k of None \<Rightarrow> Some None | Some JNull \<Rightarrow> Some None | Some (JInt n) \<Rightarrow> Some (Some n) | _ \<Rightarrow> None)"

definition pending_task_of :: "json \<Rightarrow> pending_task option" where
  "pending_task_of v =
     (case v of
        JObj d \<Rightarrow>
          (case (str_field d ''task_id'', str_field d ''workflow_id'', map_of d ''input'',
                 str_field d ''priority'', int_or_null d ''timeout_seconds'', str_field d ''created_at'') of
             (Some tid, Some wid, Some (JObj inp), Some prio, Some timeout, Some created) \<Rightarrow>
               Some \<lparr>pt_task_id = tid, pt_workflow_id = wid, pt_input = inp, pt_priority = prio,
                     pt_timeout_seconds = timeout, pt_created_at = created\<rparr>
           | _ \<Rightarrow> None)
      | _ \<Rightarrow> None)"

definition signal_of_json :: "json \<Rightarrow> signal option" where
  "signal_of_json v =
     (case v of
        JObj d \<Rightarrow>
          (case (str_field d ''task_id'', str_field d ''signal_type'', str_field d ''timestamp'',
                 dict_or_null d ''payload'') of
             (Some tid, Some ty, Some ts, Some payload) \<Rightarrow>
               if ty \<in> set signal_types
               then Some \<lparr>sg_task_id = tid, sg_signal_type = ty, sg_timestamp = ts, sg_payload = payload\<rparr>
               else None
           | _ \<Rightarrow> None)
      | _ \<Rightarrow> None)"

text \<open>\<open>[Model.model_validate(x) for x in xs]\<close>: one invalid element makes the whole list an exception.\<close>

fun validate_all :: "(json \<Rightarrow> 'a option) \<Rightarrow> json list \<Rightarrow> 'a list option" where
  "validate_all f [] = Some []"
| "validate_all f (v # vs) =
     (case f v of None \<Rightarrow> None | Some x \<Rightarrow> map_option ((#) x) (validate_all f vs))"

text \<open>What \<open>for x in v\<close> goes through when the elements are to be objects: an empty string or object is
  no element, another string or object gives strings, which are invalid (None), as is no iterable.\<close>

definition py_items :: "json \<Rightarrow> json list option" where
  "py_items v = (case v of JArr xs \<Rightarrow> Some xs | JStr [] \<Rightarrow> Some [] | JObj [] \<Rightarrow> Some [] | _ \<Rightarrow> None)"

lemma validate_all_None: "v \<in> set vs \<Longrightarrow> f v = None \<Longrightarrow> validate_all f vs = None"
  by (induction vs) (auto split: option.splits)

lemma validate_all_map: "(\<And>x. x \<in> set xs \<Longrightarrow> f (g x) = Some (h x)) \<Longrightarrow> validate_all f (map g xs) = Some (map h xs)"
  by (induction xs) auto

text \<open>\<open>TaskEvent.model_dump_json()\<close>, as the value it writes.\<close>

definition event_json :: "sidecar_event \<Rightarrow> json" where
  "event_json event =
     JObj [(''event_type'', JStr (ev_type event)),
           (''data'', (case ev_data event of None \<Rightarrow> JNull | Some d \<Rightarrow> JObj d)),
           (''sequence'', JInt (ev_sequence event))]"

section \<open>Backoff\<close>

definition next_backoff :: "int \<Rightarrow> int \<Rightarrow> int" where
  "next_backoff cap backoff = min (backoff * 2) cap"

text \<open>Every loop of the sidecar doubles its waiting time from a base up to a cap.\<close>

locale capped_backoff =
  fixes base cap :: int
  assumes base_pos: "0 < base" and base_cap: "base \<le> cap"
begin

lemma next_bounds: "base \<le> b \<Longrightarrow> base \<le> next_backoff cap b \<and> next_backoff cap b \<le> cap"
  using base_pos base_cap by (auto simp: next_backoff_def)

text \<open>It grows until it reaches the cap and stays there.\<close>

lemma next_mono: "base \<le> b \<Longrightarrow> b \<le> cap \<Longrightarrow> b \<le> next_backoff cap b"
  using base_pos by (auto simp: next_backoff_def)

lemma next_strict: "base \<le> b \<Longrightarrow> b < cap \<Longrightarrow> b < next_backoff cap b"
  using base_pos by (auto simp: next_backoff_def)

lemma iterated: "(next_backoff cap ^^ n) base = min (base * 2 ^ n) cap"
proof (induction n)
  case 0
  then show ?case using base_cap by simp
next
  case (Suc n)
  then show ?case using base_pos base_cap by (auto simp: next_backoff_def min_def)
qed

end

end
