(* ===== verification/Streamer.thy ===== *)
theory Streamer
  imports Http_Client
begin

text \<open>
  \<open>src/fleet_agent/streamer.py\<close>: the events of a task are numbered from 1, after an initial status event,
  and posted one by one; a post is retried on a connection error or a 5xx status, at most four
  times, and an event whose attempts are used up is dropped. Any other exception of the client
  ends the stream.
\<close>

section \<open>One event\<close>

definition MAX_RETRIES :: nat where
  "MAX_RETRIES = 4"

definition stream_base_backoff :: int where
  "stream_base_backoff = 1"

definition stream_max_backoff :: int where
  "stream_max_backoff = 16"

interpretation stream_backoff: capped_backoff stream_base_backoff stream_max_backoff
  by unfold_locales (simp_all add: stream_base_backoff_def stream_max_backoff_def)

text \<open>The status of a reply below 500, the exhaustion of the attempts, or an exception.\<close>

datatype posting = Answered int | Dropped | Raised

record 's post_result =
  po_posting :: posting
  po_attempts :: nat
  po_sleeps :: "int list"
  po_world :: 's

definition events_path :: "string \<Rightarrow> string" where
  "events_path task_id = ''/tasks/'' @ task_id @ ''/events''"

text \<open>The loop of \<open>_post_event\<close>, with the attempts that are left after this one.\<close>

fun post_attempts :: "('s \<Rightarrow> reply \<times> 's) \<Rightarrow> nat \<Rightarrow> int \<Rightarrow> 's \<Rightarrow> 's post_result" where
  "post_attempts attempt left backoff s =
     (let (reply, s') = attempt s;
          again = (case left of
             0 \<Rightarrow> \<lparr>po_posting = Dropped, po_attempts = 1, po_sleeps = [], po_world = s'\<rparr>
           | Suc left' \<Rightarrow>
               (let r = post_attempts attempt left' (next_backoff stream_max_backoff backoff) s'
                in r\<lparr>po_attempts := Suc (po_attempts r), po_sleeps := backoff # po_sleeps r\<rparr>))
      in case reply of
           Reply status _ \<Rightarrow>
             if status < 500
             then \<lparr>po_posting = Answered status, po_attempts = 1, po_sleeps = [], po_world = s'\<rparr> else again
         | Connect_Error \<Rightarrow> again
         | Other_Error \<Rightarrow> \<lparr>po_posting = Raised, po_attempts = 1, po_sleeps = [], po_world = s'\<rparr>)"

declare post_attempts.simps [simp del]

definition post_attempt :: "('sk, 's) client \<Rightarrow> string \<Rightarrow> sidecar_event \<Rightarrow> 's \<Rightarrow> reply \<times> 's" where
  "post_attempt cl task_id event s =
     cl_send cl (signed_request cl ''POST'' (events_path task_id) (cl_dump cl (event_json event)) s) s"

definition post_event :: "('sk, 's) client \<Rightarrow> string \<Rightarrow> sidecar_event \<Rightarrow> 's \<Rightarrow> 's post_result" where
  "post_event cl task_id event s = post_attempts (post_attempt cl task_id event) MAX_RETRIES stream_base_backoff s"

section \<open>The stream\<close>

definition running_event :: sidecar_event where
  "running_event = \<lparr>ev_type = ''status'', ev_data = Some [(''status'', JStr ''running'')], ev_sequence = 1\<rparr>"

text \<open>
  The loop over the executor's events. Whether an event comes does not depend on its post here: the
  events are those the generator yields until it ends or the stream raises. The result is the
  outcome of every post in order; True is the exception.
\<close>

fun stream_rest :: "('sk, 's) client \<Rightarrow> string \<Rightarrow> int \<Rightarrow> sidecar_event list \<Rightarrow> 's \<Rightarrow> posting list \<times> bool \<times> 's" where
  "stream_rest cl task_id sequence [] s = ([], False, s)"
| "stream_rest cl task_id sequence (event # events) s =
     (let sequence = sequence + 1;
          posted_event = event\<lparr>ev_sequence := sequence\<rparr>;
          r = post_event cl task_id posted_event s
      in if po_posting r = Raised then ([Raised], True, po_world r)
         else
           (let (ps, raised, s') = stream_rest cl task_id sequence events (po_world r)
            in (po_posting r # ps, raised, s')))"

definition stream :: "('sk, 's) client \<Rightarrow> string \<Rightarrow> sidecar_event list \<Rightarrow> 's \<Rightarrow> posting list \<times> bool \<times> 's" where
  "stream cl task_id events s =
     (let r = post_event cl task_id running_event s
      in if po_posting r = Raised then ([Raised], True, po_world r)
         else
           (let (ps, raised, s') = stream_rest cl task_id 1 events (po_world r)
            in (po_posting r # ps, raised, s')))"

text \<open>The initial event is treated like the others, with number 1.\<close>

lemma stream_as_rest: "stream cl task_id events s = stream_rest cl task_id 0 (running_event # events) s"
  by (simp add: stream_def running_event_def Let_def)

section \<open>Facts\<close>

text \<open>A reply that makes \<open>_post_event\<close> try again.\<close>

fun retried :: "reply \<Rightarrow> bool" where
  "retried (Reply status _) = (500 \<le> status)"
| "retried Connect_Error = True"
| "retried Other_Error = False"

definition settled :: "posting \<Rightarrow> reply \<Rightarrow> bool" where
  "settled p r = (case p of Answered status \<Rightarrow> status < 500 \<and> (\<exists>b. r = Reply status b)
                  | Raised \<Rightarrow> r = Other_Error | Dropped \<Rightarrow> retried r)"

lemma post_attempts_trace:
  assumes "post_attempts attempt left b s = r"
  shows "0 < po_attempts r \<and> po_attempts r \<le> Suc left
         \<and> (\<forall>x \<in> set (butlast (replies attempt (po_attempts r) s)). retried x)
         \<and> settled (po_posting r) (last (replies attempt (po_attempts r) s))
         \<and> (po_posting r = Dropped \<longrightarrow> po_attempts r = Suc left)
         \<and> po_world r = world_after attempt (po_attempts r) s
         \<and> po_sleeps r = map (\<lambda>i. (next_backoff stream_max_backoff ^^ i) b) [0..<po_attempts r - 1]"
  using assms
proof (induction attempt left b s arbitrary: r rule: post_attempts.induct)
  case (1 attempt left b s)
  obtain reply s' where a: "attempt s = (reply, s')" by force
  show ?case
  proof (cases "retried reply \<and> left \<noteq> 0")
    case False
    then show ?thesis
      using 1(2) a by (cases reply; cases left) (auto simp: post_attempts.simps settled_def split: if_splits)
  next
    case True
    then obtain left' where left: "left = Suc left'" by (cases left) auto
    define q where "q = post_attempts attempt left' (next_backoff stream_max_backoff b) s'"
    have r: "r = q\<lparr>po_attempts := Suc (po_attempts q), po_sleeps := b # po_sleeps q\<rparr>"
      using 1(2) a True left by (cases reply) (auto simp: post_attempts.simps q_def Let_def)
    have ih: "0 < po_attempts q \<and> po_attempts q \<le> Suc left'
         \<and> (\<forall>x \<in> set (butlast (replies attempt (po_attempts q) s')). retried x)
         \<and> settled (po_posting q) (last (replies attempt (po_attempts q) s'))
         \<and> (po_posting q = Dropped \<longrightarrow> po_attempts q = Suc left')
         \<and> po_world q = world_after attempt (po_attempts q) s'
         \<and> po_sleeps q = map (\<lambda>i. (next_backoff stream_max_backoff ^^ i) (next_backoff stream_max_backoff b))
                            [0..<po_attempts q - 1]"
      by (rule 1(1) [OF a [symmetric] refl left]) (simp add: q_def)
    obtain n where n: "po_attempts q = Suc n" using ih gr0_conv_Suc by blast
    have up: "[0..<Suc n] = 0 # map Suc [0..<n]"
      by (simp add: upt_conv_Cons map_Suc_upt del: upt_Suc)
    show ?thesis
      using ih a r left True
      by (auto simp: n up funpow_Suc_right simp del: upt_Suc funpow.simps(2))
  qed
qed

text \<open>The waiting times are 1, 2, 4, 8 seconds.\<close>

lemma post_event_sleeps: "po_sleeps (post_event cl task_id event s)
    = take (po_attempts (post_event cl task_id event s) - 1) [1, 2, 4, 8]"
proof -
  define r where "r = post_event cl task_id event s"
  have t: "po_attempts r \<le> 5"
    "po_sleeps r = map (\<lambda>i. (next_backoff stream_max_backoff ^^ i) stream_base_backoff) [0..<po_attempts r - 1]"
    using post_attempts_trace [OF post_event_def [symmetric], of cl task_id event s]
    by (simp_all add: r_def MAX_RETRIES_def)
  have "[1, 2, 4, 8] = map (\<lambda>i. (next_backoff stream_max_backoff ^^ i) stream_base_backoff) [0..<4]"
    unfolding stream_backoff.iterated
    by (simp add: upt_rec stream_base_backoff_def stream_max_backoff_def)
  then have "take (po_attempts r - 1) [1, 2, 4, 8]
      = map (\<lambda>i. (next_backoff stream_max_backoff ^^ i) stream_base_backoff) (take (po_attempts r - 1) [0..<4])"
    by (metis take_map)
  then show ?thesis using t by (simp add: r_def [symmetric] min_def)
qed

lemma stream_rest_raised: "stream_rest cl tid k events s = (ps, raised, s') \<Longrightarrow> raised \<longleftrightarrow> Raised \<in> set ps"
  by (induction cl tid k events s arbitrary: ps raised s' rule: stream_rest.induct)
     (auto simp: Let_def split: if_splits prod.splits)

end
