(* ===== verification/Signals.thy ===== *)
theory Signals
  imports Streamer
begin

text \<open>
  \<open>src/fleet_agent/signal_state.py\<close> and \<open>signals.py\<close>: the state the signal poller shares with the
  executor, the handlers of the five signals, and the poll loop that hands each signal of a
  response to its handler once.
\<close>

section \<open>The shared state\<close>

text \<open>An \<open>asyncio.Event\<close> is whether it is set; the keys of processed signals are a list without
  repetitions.\<close>

record signal_state =
  pause_events :: "string \<rightharpoonup> bool"
  cancel_flags :: "string \<rightharpoonup> bool"
  redirect_payloads :: "string \<rightharpoonup> dict"
  context_queue :: "string \<rightharpoonup> dict list"
  processed_signals :: "string list"

definition initial_signals :: signal_state where
  "initial_signals =
     \<lparr>pause_events = (\<lambda>_. None), cancel_flags = (\<lambda>_. None), redirect_payloads = (\<lambda>_. None),
      context_queue = (\<lambda>_. None), processed_signals = []\<rparr>"

definition register_task :: "string \<Rightarrow> signal_state \<Rightarrow> signal_state" where
  "register_task t st =
     st\<lparr>pause_events := (pause_events st)(t \<mapsto> True), cancel_flags := (cancel_flags st)(t \<mapsto> False),
        redirect_payloads := (redirect_payloads st)(t := None), context_queue := (context_queue st)(t \<mapsto> [])\<rparr>"

definition starts_with :: "string \<Rightarrow> string \<Rightarrow> bool" where
  "starts_with p s = (take (length p) s = p)"

definition unregister_task :: "string \<Rightarrow> signal_state \<Rightarrow> signal_state" where
  "unregister_task t st =
     st\<lparr>pause_events := (pause_events st)(t := None), cancel_flags := (cancel_flags st)(t := None),
        redirect_payloads := (redirect_payloads st)(t := None), context_queue := (context_queue st)(t := None),
        processed_signals := filter (\<lambda>key. \<not> starts_with (t @ '':'') key) (processed_signals st)\<rparr>"

definition is_paused :: "signal_state \<Rightarrow> string \<Rightarrow> bool" where
  "is_paused st t = (pause_events st t = Some False)"

definition is_cancelled :: "signal_state \<Rightarrow> string \<Rightarrow> bool" where
  "is_cancelled st t = (cancel_flags st t = Some True)"

definition get_redirect :: "signal_state \<Rightarrow> string \<Rightarrow> dict option" where
  "get_redirect st t = redirect_payloads st t"

definition pop_context :: "string \<Rightarrow> signal_state \<Rightarrow> dict list \<times> signal_state" where
  "pop_context t st =
     (case context_queue st t of
        None \<Rightarrow> ([], st)
      | Some contexts \<Rightarrow>
          (contexts, if contexts = [] then st else st\<lparr>context_queue := (context_queue st)(t \<mapsto> [])\<rparr>))"

definition has_task :: "signal_state \<Rightarrow> string \<Rightarrow> bool" where
  "has_task st t = (pause_events st t \<noteq> None)"

definition set_cancel :: "string \<Rightarrow> signal_state \<Rightarrow> signal_state" where
  "set_cancel t st = st\<lparr>cancel_flags := (cancel_flags st)(t \<mapsto> True)\<rparr>"

definition set_redirect :: "string \<Rightarrow> dict \<Rightarrow> signal_state \<Rightarrow> signal_state" where
  "set_redirect t payload st = st\<lparr>redirect_payloads := (redirect_payloads st)(t \<mapsto> payload)\<rparr>"

definition set_pause_event :: "string \<Rightarrow> bool \<Rightarrow> signal_state \<Rightarrow> signal_state" where
  "set_pause_event t b st = st\<lparr>pause_events := (pause_events st)(t \<mapsto> b)\<rparr>"

definition is_signal_processed :: "signal_state \<Rightarrow> string \<Rightarrow> bool" where
  "is_signal_processed st sig_key = (sig_key \<in> set (processed_signals st))"

definition mark_signal_processed :: "string \<Rightarrow> signal_state \<Rightarrow> signal_state" where
  "mark_signal_processed sig_key st = st\<lparr>processed_signals := List.insert sig_key (processed_signals st)\<rparr>"

section \<open>The handlers\<close>

text \<open>
  Each handler changes the state and then posts an acknowledgement as a stream of its own: the
  initial running event with number 1, and the status as number 2. \<open>_post_ack\<close> swallows what the
  stream raises. The handlers give the acknowledgement; \<open>handle_signal\<close> posts it.
\<close>

definition ack :: "string \<Rightarrow> dict \<Rightarrow> sidecar_event" where
  "ack status extra =
     \<lparr>ev_type = ''status'', ev_data = Some ((''status'', JStr status) # extra), ev_sequence = 0\<rparr>"

definition post_ack :: "('sk, 's) client \<Rightarrow> string \<Rightarrow> sidecar_event \<Rightarrow> 's \<Rightarrow> 's" where
  "post_ack cl t event s = snd (snd (stream cl t [event] s))"

definition handle_pause :: "string \<Rightarrow> signal_state \<Rightarrow> signal_state \<times> sidecar_event option" where
  "handle_pause t st =
     (case pause_events st t of
        Some True \<Rightarrow> (set_pause_event t False st, Some (ack ''paused'' []))
      | _ \<Rightarrow> (st, None))"

definition handle_resume :: "string \<Rightarrow> signal_state \<Rightarrow> signal_state \<times> sidecar_event option" where
  "handle_resume t st =
     (case pause_events st t of
        Some False \<Rightarrow> (set_pause_event t True st, Some (ack ''running'' []))
      | _ \<Rightarrow> (st, None))"

definition wake :: "string \<Rightarrow> signal_state \<Rightarrow> signal_state" where
  "wake t st = (if pause_events st t = Some False then set_pause_event t True st else st)"

definition handle_cancel :: "string \<Rightarrow> signal_state \<Rightarrow> signal_state \<times> sidecar_event option" where
  "handle_cancel t st = (wake t (set_cancel t st), Some (ack ''cancelled'' []))"

definition handle_redirect :: "string \<Rightarrow> dict \<Rightarrow> signal_state \<Rightarrow> signal_state \<times> sidecar_event option" where
  "handle_redirect t payload st =
     (wake t (set_cancel t (set_redirect t payload st)), Some (ack ''redirected'' [(''redirect'', JObj payload)]))"

definition handle_context_injection :: "string \<Rightarrow> dict \<Rightarrow> signal_state \<Rightarrow> signal_state" where
  "handle_context_injection t payload st =
     (case context_queue st t of
        None \<Rightarrow> st
      | Some queue \<Rightarrow> st\<lparr>context_queue := (context_queue st)(t \<mapsto> queue @ [payload])\<rparr>)"

definition dispatch_signal :: "signal \<Rightarrow> signal_state \<Rightarrow> signal_state \<times> sidecar_event option" where
  "dispatch_signal sig st =
     (let t = sg_task_id sig; payload = (case sg_payload sig of None \<Rightarrow> [] | Some p \<Rightarrow> p)
      in if \<not> has_task st t then (st, None)
         else if sg_signal_type sig = ''pause_requested'' then handle_pause t st
         else if sg_signal_type sig = ''resume_requested'' then handle_resume t st
         else if sg_signal_type sig = ''cancel_requested'' then handle_cancel t st
         else if sg_signal_type sig = ''redirect_requested'' then handle_redirect t payload st
         else if sg_signal_type sig = ''context_injection'' then (handle_context_injection t payload st, None)
         else (st, None))"

definition handle_signal :: "('sk, 's) client \<Rightarrow> signal \<Rightarrow> signal_state \<times> 's \<Rightarrow> signal_state \<times> 's" where
  "handle_signal cl sig st_s =
     (case st_s of (st, s) \<Rightarrow>
        (case dispatch_signal sig st of
           (st', None) \<Rightarrow> (st', s)
         | (st', Some event) \<Rightarrow> (st', post_ack cl (sg_task_id sig) event s)))"

section \<open>The poll loop\<close>

definition signal_base_backoff :: int where
  "signal_base_backoff = 2"

definition signal_max_backoff :: int where
  "signal_max_backoff = 30"

interpretation signal_backoff: capped_backoff signal_base_backoff signal_max_backoff
  by unfold_locales (simp_all add: signal_base_backoff_def signal_max_backoff_def)

definition pending_path :: "('sk, 's) client \<Rightarrow> string" where
  "pending_path cl = ''/agents/'' @ cl_agent_id cl @ ''/tasks/pending''"

text \<open>\<open>r.json().get("signals", [])\<close>, iterated and validated; None is an exception.\<close>

definition signals_of_body :: "json option \<Rightarrow> signal list option" where
  "signals_of_body body =
     (case body of
        Some (JObj d) \<Rightarrow>
          (case py_items (dict_get_or d ''signals'' (JArr [])) of
             Some xs \<Rightarrow> validate_all signal_of_json xs
           | None \<Rightarrow> None)
      | _ \<Rightarrow> None)"

text \<open>The signals (None: an exception, which \<open>run\<close> logs) and the backoff after a poll.\<close>

fun signals_of_reply :: "int \<Rightarrow> reply \<Rightarrow> signal list option \<times> int" where
  "signals_of_reply backoff (Reply status body) =
     (if raises_for_status status then (Some [], next_backoff signal_max_backoff backoff)
      else (signals_of_body body, signal_base_backoff))"
| "signals_of_reply backoff Connect_Error = (Some [], next_backoff signal_max_backoff backoff)"
| "signals_of_reply backoff Other_Error = (None, backoff)"

definition poll_signals :: "('sk, 's) client \<Rightarrow> int \<Rightarrow> 's \<Rightarrow> signal list option \<times> int \<times> 's" where
  "poll_signals cl backoff s =
     (let (reply, s') = cl_send cl (signed_request cl ''GET'' (pending_path cl) [] s) s;
          (sigs, backoff') = signals_of_reply backoff reply
      in (sigs, backoff', s'))"

definition signal_key :: "signal \<Rightarrow> string" where
  "signal_key sig = sg_task_id sig @ '':'' @ sg_signal_type sig @ '':'' @ sg_timestamp sig"

definition process_signal :: "('sk, 's) client \<Rightarrow> signal \<Rightarrow> signal_state \<times> 's \<Rightarrow> signal_state \<times> 's" where
  "process_signal cl sig st_s =
     (let key = signal_key sig
      in if is_signal_processed (fst st_s) key then st_s
         else (case handle_signal cl sig st_s of (st, s) \<Rightarrow> (mark_signal_processed key st, s)))"

text \<open>One round of \<open>run\<close>: the state, the backoff, the waiting time and the world.\<close>

definition signal_round ::
    "('sk, 's) client \<Rightarrow> int \<Rightarrow> int \<Rightarrow> signal_state \<Rightarrow> 's \<Rightarrow> signal_state \<times> int \<times> int \<times> 's" where
  "signal_round cl interval backoff st s =
     (let (sigs, backoff', s') = poll_signals cl backoff s;
          (st', s'') = fold (process_signal cl) (case sigs of None \<Rightarrow> [] | Some xs \<Rightarrow> xs) (st, s')
      in (st', backoff', if signal_base_backoff < backoff' then backoff' else interval, s''))"

section \<open>Facts\<close>

text \<open>Handlers neither register nor unregister a task.\<close>

definition registered :: "signal_state \<Rightarrow> string set" where
  "registered st = dom (pause_events st)"

lemma registered_simps [simp]:
  "registered initial_signals = {}"
  "registered (register_task t st) = insert t (registered st)"
  "registered (unregister_task t st) = registered st - {t}"
  "registered (mark_signal_processed k st) = registered st"
  "registered (snd (pop_context t st)) = registered st"
  by (auto simp: registered_def initial_signals_def register_task_def unregister_task_def
      mark_signal_processed_def pop_context_def split: option.splits)

lemma has_task_registered: "has_task st t \<longleftrightarrow> t \<in> registered st"
  by (auto simp: has_task_def registered_def)

lemma dispatch_registered [simp]: "registered (fst (dispatch_signal sig st)) = registered st"
  by (auto simp: dispatch_signal_def handle_pause_def handle_resume_def handle_cancel_def handle_redirect_def
      handle_context_injection_def wake_def set_pause_event_def set_cancel_def set_redirect_def registered_def
      Let_def split: option.splits bool.splits if_splits)

lemma dispatch_processed [simp]: "processed_signals (fst (dispatch_signal sig st)) = processed_signals st"
  by (auto simp: dispatch_signal_def handle_pause_def handle_resume_def handle_cancel_def handle_redirect_def
      handle_context_injection_def wake_def set_pause_event_def set_cancel_def set_redirect_def
      Let_def split: option.splits bool.splits if_splits)

lemma handle_signal_state: "fst (handle_signal cl sig (st, s)) = fst (dispatch_signal sig st)"
  by (auto simp: handle_signal_def split: prod.splits option.splits)

lemma process_signal_state:
  "fst (process_signal cl sig (st, s)) =
     (if signal_key sig \<in> set (processed_signals st) then st
      else mark_signal_processed (signal_key sig) (fst (dispatch_signal sig st)))"
  using handle_signal_state [of cl sig st s]
  by (auto simp: process_signal_def is_signal_processed_def Let_def split: prod.splits)

text \<open>The state after a list of signals does not depend on the world.\<close>

definition process_state :: "signal \<Rightarrow> signal_state \<Rightarrow> signal_state" where
  "process_state sig st =
     (if signal_key sig \<in> set (processed_signals st) then st
      else mark_signal_processed (signal_key sig) (fst (dispatch_signal sig st)))"

lemma fold_process_state: "fst (fold (process_signal cl) sigs (st, s)) = fold process_state sigs st"
proof (induction sigs arbitrary: st s)
  case (Cons sig sigs)
  obtain st' s' where p: "process_signal cl sig (st, s) = (st', s')" by force
  then have "st' = process_state sig st"
    using process_signal_state [of cl sig st s] by (simp add: process_state_def)
  then show ?case using Cons.IH p by simp
qed simp

lemma process_state_registered [simp]: "registered (process_state sig st) = registered st"
  by (simp add: process_state_def)

lemma fold_process_registered [simp]: "registered (fold process_state sigs st) = registered st"
  by (induction sigs arbitrary: st) simp_all

lemma process_state_processed: "set (processed_signals (process_state sig st)) = insert (signal_key sig) (set (processed_signals st))"
  by (auto simp: process_state_def mark_signal_processed_def)

lemma fold_process_processed:
  "set (processed_signals (fold process_state sigs st)) = signal_key ` set sigs \<union> set (processed_signals st)"
  by (induction sigs arbitrary: st) (auto simp: process_state_processed)

lemma signal_backoff_bounds:
  assumes "signals_of_reply b r = (sigs, b')" and "signal_base_backoff \<le> b" "b \<le> signal_max_backoff"
  shows "signal_base_backoff \<le> b' \<and> b' \<le> signal_max_backoff"
  using assms signal_backoff.next_bounds [of b] signal_backoff.base_cap
  by (cases r) (auto split: if_splits)

end
