(* ===== verification/Executor.thy ===== *)
theory Executor
  imports Signals Json_Reader
begin

text \<open>
  \<open>src/fleet_agent/executor.py\<close>: the events a task's execution yields. What happens outside of the
  executor while it runs is its input: one \<open>turn\<close> for each pass of the read loop, with what the
  signal state says at the two moments it is looked at, and what the subprocess's output gives.
  A run may be looked at before its end; then the turns are used up.

  The timeout interrupts the wait for a resume and the wait for a line. It may also expire while a
  yielded event is being posted; this is not an input of the model.
\<close>

section \<open>Inputs and endings\<close>

text \<open>\<open>readline\<close>: a line, the end of the output, a line over the buffer's limit (ValueError), or the
  timeout.\<close>

datatype reading = Line string | Eof | Overlong | Expired

record turn =
  tu_redirect :: "dict option"
  tu_cancelled :: bool
  tu_pause_expired :: bool
  tu_contexts :: "dict list"
  tu_reading :: reading

text \<open>How \<open>_read_events\<close> ends: the output is at its end, or an exception; \<open>Unfinished\<close>: it has not.\<close>

datatype read_end = Output_End | Timed_Out | Cancelled | Redirected dict | Line_Error | Unfinished

text \<open>How the generator ends: it returns, or raises an exception.\<close>

datatype execution_end = Finished | Failed_Execution | Running_Still

section \<open>Events of lines and contexts\<close>

definition context_event :: "int \<Rightarrow> dict \<Rightarrow> sidecar_event" where
  "context_event sequence ctx =
     \<lparr>ev_type = ''context_injected'',
      ev_data = Some [(''context_type'', dict_get ctx ''context_type''),
                      (''context_sequence'', dict_get ctx ''context_sequence''),
                      (''payload'', dict_get ctx ''payload''),
                      (''urgency'', dict_get_or ctx ''urgency'' (JStr ''normal''))],
      ev_sequence = sequence\<rparr>"

text \<open>
  A line: skipped when it is blank or not JSON; an object becomes an event. Another JSON value has no
  \<open>get\<close>, and an \<open>event_type\<close> that is not a string or \<open>data\<close> that is neither an object nor null fail
  the validation of \<open>TaskEvent\<close>; both are exceptions.
\<close>

datatype line_result = Skip | Event sidecar_event | Bad_Line

definition event_of_line :: "int \<Rightarrow> string \<Rightarrow> line_result" where
  "event_of_line sequence line =
     (let line_str = py_strip line
      in if line_str = [] then Skip
         else
           (case json_loads line_str of
              None \<Rightarrow> Skip
            | Some (JObj d) \<Rightarrow>
                (case (dict_get_or d ''event_type'' (JStr ''log''), dict_or_null d ''data'') of
                   (JStr ty, Some data) \<Rightarrow> Event \<lparr>ev_type = ty, ev_data = data, ev_sequence = sequence + 1\<rparr>
                 | _ \<Rightarrow> Bad_Line)
            | Some _ \<Rightarrow> Bad_Line))"

fun number_contexts :: "int \<Rightarrow> dict list \<Rightarrow> sidecar_event list" where
  "number_contexts sequence [] = []"
| "number_contexts sequence (ctx # ctxs) = context_event (sequence + 1) ctx # number_contexts (sequence + 1) ctxs"

section \<open>\<open>_read_events\<close>\<close>

text \<open>The checks before a line are made when a signal poller is there and the task id is not empty.\<close>

fun read_events :: "bool \<Rightarrow> int \<Rightarrow> turn list \<Rightarrow> sidecar_event list \<times> read_end" where
  "read_events signals sequence [] = ([], Unfinished)"
| "read_events signals sequence (tu # turns) =
     (if signals \<and> tu_redirect tu \<noteq> None then ([], Redirected (the (tu_redirect tu)))
      else if signals \<and> tu_cancelled tu then ([], Cancelled)
      else if signals \<and> tu_pause_expired tu then ([], Timed_Out)
      else
        (let contexts = (if signals then number_contexts sequence (tu_contexts tu) else []);
             sequence = sequence + int (length contexts)
         in case tu_reading tu of
              Eof \<Rightarrow> (contexts, Output_End)
            | Overlong \<Rightarrow> (contexts, Line_Error)
            | Expired \<Rightarrow> (contexts, Timed_Out)
            | Line line \<Rightarrow>
                (case event_of_line sequence line of
                   Bad_Line \<Rightarrow> (contexts, Line_Error)
                 | Skip \<Rightarrow> (let (events, e) = read_events signals sequence turns in (contexts @ events, e))
                 | Event event \<Rightarrow>
                     (let (events, e) = read_events signals (sequence + 1) turns
                      in (contexts @ event # events, e)))))"

section \<open>\<open>execute\<close>\<close>

text \<open>The handler command: not found (with the text of the error), another exception at its start or while
  its input is written, or a process with its exit code and its standard error.\<close>

datatype handler = Not_Found string | Start_Error | Process int string

definition DEFAULT_TIMEOUT_SECONDS :: int where
  "DEFAULT_TIMEOUT_SECONDS = 600"

definition task_timeout :: "pending_task \<Rightarrow> int" where
  "task_timeout task =
     (case pt_timeout_seconds task of None \<Rightarrow> DEFAULT_TIMEOUT_SECONDS
      | Some n \<Rightarrow> if n = 0 then DEFAULT_TIMEOUT_SECONDS else n)"

definition stdin_payload :: "pending_task \<Rightarrow> bytes" where
  "stdin_payload task =
     utf8 (json_dumps (JObj [(''task_id'', JStr (pt_task_id task)), (''workflow_id'', JStr (pt_workflow_id task)),
                             (''input'', JObj (pt_input task))]))"

definition failed_event :: "int \<Rightarrow> dict \<Rightarrow> sidecar_event" where
  "failed_event sequence data = \<lparr>ev_type = ''failed'', ev_data = Some data, ev_sequence = sequence\<rparr>"

text \<open>The number of the last event that was yielded.\<close>

definition last_number :: "sidecar_event list \<Rightarrow> int" where
  "last_number events = (if events = [] then 0 else ev_sequence (last events))"

definition execute :: "pending_task \<Rightarrow> bool \<Rightarrow> handler \<Rightarrow> turn list \<Rightarrow> sidecar_event list \<times> execution_end" where
  "execute task signal_poller handler turns =
     (case handler of
        Not_Found message \<Rightarrow> ([failed_event 1 [(''error'', JStr message)]], Failed_Execution)
      | Start_Error \<Rightarrow> ([], Failed_Execution)
      | Process returncode stderr \<Rightarrow>
          (let (events, e) = read_events (signal_poller \<and> pt_task_id task \<noteq> []) 0 turns;
               next = last_number events + 1
           in case e of
                Unfinished \<Rightarrow> (events, Running_Still)
              | Line_Error \<Rightarrow> (events, Failed_Execution)
              | Timed_Out \<Rightarrow>
                  (events @ [failed_event next
                     [(''error'', JStr ''EXECUTION_TIMEOUT''),
                      (''detail'', JStr (''Task exceeded '' @ int_str (task_timeout task) @ ''s timeout'')),
                      (''stderr'', JStr stderr)]], Finished)
              | Cancelled \<Rightarrow>
                  (events @ [\<lparr>ev_type = ''status'',
                              ev_data = Some [(''status'', JStr ''cancelled''), (''reason'', JStr ''Cancelled by signal'')],
                              ev_sequence = next\<rparr>], Finished)
              | Redirected payload \<Rightarrow> (events, Finished)
              | Output_End \<Rightarrow>
                  (if returncode = 0 then (events, Finished)
                   else (events @ [failed_event next
                           [(''error'', JStr ''SUBPROCESS_FAILED''), (''exit_code'', JInt returncode),
                            (''stderr'', JStr stderr)]], Finished))))"

section \<open>Facts\<close>

lemma number_contexts_sequences:
  "map ev_sequence (number_contexts k ctxs) = map (\<lambda>i. k + 1 + int i) [0..<length ctxs]"
proof (induction ctxs arbitrary: k)
  case (Cons c ctxs)
  have "[0..<length (c # ctxs)] = 0 # map Suc [0..<length ctxs]"
    by (simp add: upt_conv_Cons map_Suc_upt del: upt_Suc)
  then show ?case using Cons by (simp add: context_event_def del: upt_Suc)
qed simp

lemma number_contexts_length [simp]: "length (number_contexts k ctxs) = length ctxs"
  by (induction ctxs arbitrary: k) auto

text \<open>Numbered from \<open>k + 1\<close> without gaps.\<close>

fun numbered :: "int \<Rightarrow> sidecar_event list \<Rightarrow> bool" where
  "numbered k [] = True"
| "numbered k (e # es) = (ev_sequence e = k + 1 \<and> numbered (k + 1) es)"

lemma numbered_append: "numbered k (xs @ ys) \<longleftrightarrow> numbered k xs \<and> numbered (k + int (length xs)) ys"
  by (induction xs arbitrary: k) (auto simp: add.assoc add.commute)

lemma numbered_contexts: "numbered k (number_contexts k ctxs)"
  by (induction ctxs arbitrary: k) (auto simp: context_event_def)

lemma numbered_last: "numbered k es \<Longrightarrow> es \<noteq> [] \<Longrightarrow> ev_sequence (last es) = k + int (length es)"
  by (induction es arbitrary: k) auto

lemma event_of_line_sequence: "event_of_line k l = Event e \<Longrightarrow> ev_sequence e = k + 1"
  by (auto simp: event_of_line_def Let_def split: option.splits json.splits if_splits)

lemma read_events_numbered: "numbered k (fst (read_events signals k turns))"
proof (induction signals k turns rule: read_events.induct)
  case (2 signals k tu turns)
  then show ?case
    by (auto simp: numbered_append numbered_contexts Let_def dest: event_of_line_sequence
        split: reading.splits line_result.splits prod.splits)
qed simp

lemma last_number_read: "last_number (fst (read_events signals 0 turns)) = int (length (fst (read_events signals 0 turns)))"
  using numbered_last [OF read_events_numbered, of signals 0 turns] by (simp add: last_number_def)

lemma execute_numbered: "numbered 0 (fst (execute task sp handler turns))"
proof (cases handler)
  case (Not_Found m)
  then show ?thesis by (simp add: execute_def failed_event_def)
next
  case Start_Error
  then show ?thesis by (simp add: execute_def)
next
  case (Process code err)
  let ?r = "read_events (sp \<and> pt_task_id task \<noteq> []) 0 turns"
  obtain es e where r: "?r = (es, e)" by force
  then have "numbered 0 es" "last_number es = int (length es)"
    using read_events_numbered [of 0 "sp \<and> pt_task_id task \<noteq> []" turns]
      last_number_read [of "sp \<and> pt_task_id task \<noteq> []" turns] by simp_all
  then show ?thesis
    by (cases e) (simp_all add: Process execute_def r Let_def numbered_append failed_event_def)
qed

end
