(* ===== verification/Handler_Output.thy ===== *)
theory Handler_Output
  imports Executor
begin

text \<open>
  Facts on the lines a handler writes: what the reader of JSON gives is well-formed, a value that is
  written with \<open>json.dumps\<close> is one line, and such a line is read back as it was written.
\<close>

section \<open>What is read is well-formed\<close>

lemma update_values: "snd ` set (AList.update k v d) \<subseteq> insert v (snd ` set d)"
  by (induction d) auto

lemma dict_update_values: "snd ` set (dict_update d e) \<subseteq> snd ` set d \<union> snd ` set e"
proof (induction e arbitrary: d)
  case (Cons kv e)
  obtain k v where kv: "kv = (k, v)" by force
  show ?case
    using Cons.IH [of "dict_set k v d"] update_values [of k v d] by (auto simp: kv dict_set_def)
qed simp

lemma dict_of_pairs_wf:
  assumes "\<forall>kv \<in> set ps. wf_json (snd kv)"
  shows "wf_json (JObj (dict_of_pairs ps))"
proof -
  have "snd ` set (dict_of_pairs ps) \<subseteq> snd ` set ps"
    using dict_update_values [of "[]" ps] by (simp add: dict_of_pairs_def)
  moreover have "distinct (map fst (dict_of_pairs ps))"
    unfolding dict_of_pairs_def by (rule keys_dict_update) simp
  ultimately show ?thesis using assms by (auto simp: image_subset_iff) (metis image_iff snd_conv)
qed

lemma literal_wf: "literal_value s = Some (v, r) \<Longrightarrow> wf_json v"
  by (auto simp: literal_value_def split: if_splits)

lemma read_wf:
  "read_value s = Some (v, r) \<Longrightarrow> wf_json v"
  "read_items s = Some (vs, r) \<Longrightarrow> \<forall>x \<in> set vs. wf_json x"
  "read_pairs s = Some (ps, r) \<Longrightarrow> \<forall>kv \<in> set ps. wf_json (snd kv)"
proof (induction s and s and s arbitrary: v r and vs r and ps r rule: read_value_read_items_read_pairs.induct)
  case (2 c cs)
  consider (str) "c = CHR 0x22" | (arr) "c = CHR ''[''" | (obj) "c = CHR ''{''"
    | (lit) "c \<noteq> CHR 0x22" "c \<noteq> CHR ''[''" "c \<noteq> CHR ''{''" by blast
  then show ?case
  proof cases
    case str
    then show ?thesis using 2(3) by (auto simp: read_value.simps)
  next
    case arr
    then obtain d rest where d: "skip_space cs = d # rest"
      using 2(3) by (cases "skip_space cs") (simp_all add: read_value.simps)
    show ?thesis
    proof (cases "d = CHR '']''")
      case True
      then show ?thesis using 2(3) arr d by (auto simp: read_value.simps)
    next
      case False
      then obtain xs where "read_items (d # rest) = Some (xs, r)" "v = JArr xs" "length (d # rest) \<le> length cs"
        using 2(3) arr d by (auto simp: read_value.simps split: if_splits)
      then show ?thesis using 2(1) [OF _ arr d False] arr by simp
    qed
  next
    case obj
    then obtain d rest where d: "skip_space cs = d # rest"
      using 2(3) by (cases "skip_space cs") (simp_all add: read_value.simps)
    show ?thesis
    proof (cases "d = CHR ''}''")
      case True
      then show ?thesis using 2(3) obj d by (auto simp: read_value.simps)
    next
      case False
      then obtain ps where "read_pairs (d # rest) = Some (ps, r)" "v = JObj (dict_of_pairs ps)" "length (d # rest) \<le> length cs"
        using 2(3) obj d by (auto simp: read_value.simps split: if_splits)
      then show ?thesis using 2(2) [OF _ _ obj d False] obj dict_of_pairs_wf by simp
    qed
  next
    case lit
    then show ?thesis using 2(3) literal_wf by (simp add: read_value.simps)
  qed
next
  case (3 s)
  then show ?case
    by (subst (asm) read_items.simps)
       (auto simp: cons_result_def split: option.splits prod.splits list.splits if_splits)
next
  case (5 c cs)
  then show ?case
    by (auto simp: read_pairs.simps cons_result_def split: option.splits prod.splits list.splits if_splits)
       fastforce+
qed (simp_all add: read_value.simps read_pairs.simps)

lemma json_loads_wf: "json_loads s = Some v \<Longrightarrow> wf_json v"
  using read_wf(1) [of "skip_space s" v] by (auto simp: json_loads_def split: option.splits if_splits)

lemma wf_obj_value: "wf_json (JObj d) \<Longrightarrow> map_of d k = Some v \<Longrightarrow> wf_json v"
  using map_of_SomeD by fastforce

lemma event_of_line_data:
  assumes "event_of_line k line = Event ev" and "ev_data ev = Some data"
  shows "wf_json (JObj data)"
proof -
  obtain d where d: "json_loads (py_strip line) = Some (JObj d)" and "dict_or_null d ''data'' = Some (Some data)"
    using assms by (auto simp: event_of_line_def Let_def split: option.splits json.splits if_splits)
  then have "map_of d ''data'' = Some (JObj data)"
    by (auto split: option.splits json.splits)
  then show ?thesis using wf_obj_value [OF json_loads_wf [OF d]] by blast
qed

text \<open>Every event of an execution has well-formed data when the injected contexts are well-formed.\<close>

definition turns_wf :: "turn list \<Rightarrow> bool" where
  "turns_wf turns = (\<forall>tu \<in> set turns. \<forall>ctx \<in> set (tu_contexts tu). wf_json (JObj ctx))"

definition data_wf :: "sidecar_event \<Rightarrow> bool" where
  "data_wf ev = (case ev_data ev of None \<Rightarrow> True | Some data \<Rightarrow> wf_json (JObj data))"

lemma dict_get_wf: "wf_json (JObj d) \<Longrightarrow> wf_json (dict_get d k)"
  using wf_obj_value by (auto simp: dict_get_def split: option.splits)

lemma dict_get_or_wf: "wf_json (JObj d) \<Longrightarrow> wf_json v \<Longrightarrow> wf_json (dict_get_or d k v)"
  using wf_obj_value by (auto simp: dict_get_or_def split: option.splits)

lemma context_event_wf: "wf_json (JObj ctx) \<Longrightarrow> data_wf (context_event k ctx)"
  using dict_get_wf [of ctx] dict_get_or_wf [of ctx "JStr ''normal''"]
  by (simp add: data_wf_def context_event_def del: wf_json.simps(2)) simp

lemma number_contexts_wf:
  "\<forall>ctx \<in> set ctxs. wf_json (JObj ctx) \<Longrightarrow> \<forall>ev \<in> set (number_contexts k ctxs). data_wf ev"
  by (induction ctxs arbitrary: k) (simp_all add: context_event_wf del: wf_json.simps(2))

lemma event_of_line_wf: "event_of_line k line = Event ev \<Longrightarrow> data_wf ev"
  using event_of_line_data by (auto simp: data_wf_def split: option.splits)

lemma read_events_wf:
  "turns_wf turns \<Longrightarrow> \<forall>ev \<in> set (fst (read_events signals k turns)). data_wf ev"
proof (induction signals k turns rule: read_events.induct)
  case (2 signals k tu turns)
  have tu: "\<forall>ev \<in> set (number_contexts j (tu_contexts tu)). data_wf ev" for j
    using 2(3) by (intro number_contexts_wf) (simp add: turns_wf_def del: wf_json.simps(2))
  have rest: "turns_wf turns" using 2(3) by (simp add: turns_wf_def)
  show ?case
    using 2(1,2) tu rest
    by (auto simp: Let_def dest: event_of_line_wf split: reading.splits line_result.splits prod.splits)
qed simp

lemma execute_wf:
  assumes "turns_wf turns"
  shows "\<forall>ev \<in> set (fst (execute task sp handler turns)). data_wf ev"
proof (cases handler)
  case (Process code err)
  obtain es e where r: "read_events (sp \<and> pt_task_id task \<noteq> []) 0 turns = (es, e)" by force
  then show ?thesis
    using read_events_wf [OF assms, of "sp \<and> pt_task_id task \<noteq> []" 0]
    by (cases e) (auto simp: Process execute_def failed_event_def data_wf_def Let_def)
qed (simp_all add: execute_def failed_event_def data_wf_def)

section \<open>What is written is one line\<close>

lemma hex_digit_code: "n < 16 \<Longrightarrow> (of_char (hex_digit n) :: nat) = (if n < 10 then 48 + n else 87 + n)"
  by (simp add: hex_digit_def)

lemma escape_printable:
  assumes "x \<in> set (json_escape c)"
  shows "32 \<le> (of_char x :: nat) \<and> (of_char x :: nat) < 127"
proof -
  define n where "n = (of_char c :: nat)"
  have c: "c = char_of n" and n: "n < 256" by (simp_all add: n_def)
  have "n div 16 < 16" "n mod 16 < 16" using n by auto
  then have "32 \<le> (of_char (hex_digit (n div 16)) :: nat) \<and> (of_char (hex_digit (n div 16)) :: nat) < 127"
    "32 \<le> (of_char (hex_digit (n mod 16)) :: nat) \<and> (of_char (hex_digit (n mod 16)) :: nat) < 127"
    by (auto simp: hex_digit_code)
  then show ?thesis
    using assms by (auto simp: json_escape_def Let_def n_def [symmetric] split: if_splits)
qed

definition printable :: "string \<Rightarrow> bool" where
  "printable s = (\<forall>x \<in> set s. 32 \<le> (of_char x :: nat) \<and> (of_char x :: nat) < 127)"

lemma printable_simps [simp]:
  "printable []" "printable (c # s) \<longleftrightarrow> (32 \<le> (of_char c :: nat) \<and> (of_char c :: nat) < 127) \<and> printable s"
  "printable (s @ t) \<longleftrightarrow> printable s \<and> printable t"
  by (auto simp: printable_def)

lemma printable_string: "printable (json_string s)"
  using escape_printable by (auto simp: json_string_def printable_def)

lemma printable_joined: "printable sep \<Longrightarrow> \<forall>x \<in> set xs. printable x \<Longrightarrow> printable (joined sep xs)"
  by (induction sep xs rule: joined.induct) auto

lemma printable_nat: "printable (nat_str n)"
proof (induction n rule: nat_str.induct)
  case (1 n)
  have "n mod 10 < 10" by simp
  then have "n mod 10 < 79" by linarith
  then show ?case using 1 by (subst nat_str.simps) (simp add: digit_def)
qed

lemma printable_dumps: "printable (json_dumps v)"
proof (induction v)
  case (JInt i)
  then show ?case using printable_nat by (simp add: int_str_def)
next
  case (JArr xs)
  then show ?case by (auto intro!: printable_joined)
next
  case (JObj d)
  then have "\<forall>kv \<in> set d. printable (json_dumps (snd kv))" by (fastforce simp: snds.simps)
  then show ?case by (fastforce intro!: printable_joined printable_string)
qed (auto simp: printable_string)

lemma dumps_one_line: "newline \<notin> set (json_dumps v)"
  using printable_dumps [of v] by (auto simp: printable_def newline_def)

lemma strip_dumps_line: "py_strip (json_dumps (JObj d) @ [newline]) = json_dumps (JObj d)"
proof -
  have sp: "py_space newline" "\<not> py_space (CHR ''{'')" "\<not> py_space (CHR ''}'')" by code_simp+
  obtain body where "json_dumps (JObj d) = CHR ''{'' # body @ ''}''" by simp
  then show ?thesis using sp by (simp add: py_strip_def)
qed

text \<open>An event that a handler writes as an object, and the object it writes.\<close>

definition written :: "string \<times> dict \<Rightarrow> dict" where
  "written e = [(''event_type'', JStr (fst e)), (''data'', JObj (snd e))]"

definition line_of :: "string \<times> dict \<Rightarrow> string" where
  "line_of e = json_dumps (JObj (written e)) @ [newline]"

lemma event_of_written:
  assumes "wf_json (JObj (snd e))"
  shows "event_of_line k (line_of e) = Event \<lparr>ev_type = fst e, ev_data = Some (snd e), ev_sequence = k + 1\<rparr>"
proof -
  have "json_loads (json_dumps (JObj (written e))) = Some (JObj (written e))"
    using assms by (intro json_loads_dumps) (simp add: written_def)
  moreover have "json_dumps (JObj (written e)) \<noteq> []" by simp
  ultimately show ?thesis
    unfolding event_of_line_def line_of_def strip_dumps_line Let_def
    by (simp add: written_def dict_get_or_def)
qed

text \<open>A pass of the read loop without a signal.\<close>

definition quiet :: "reading \<Rightarrow> turn" where
  "quiet r = \<lparr>tu_redirect = None, tu_cancelled = False, tu_pause_expired = False, tu_contexts = [], tu_reading = r\<rparr>"

fun numbered_from :: "int \<Rightarrow> (string \<times> dict) list \<Rightarrow> sidecar_event list" where
  "numbered_from k [] = []"
| "numbered_from k (e # es) = \<lparr>ev_type = fst e, ev_data = Some (snd e), ev_sequence = k + 1\<rparr> # numbered_from (k + 1) es"

lemma read_written:
  assumes "\<forall>e \<in> set es. wf_json (JObj (snd e))"
  shows "read_events signals k (map (\<lambda>e. quiet (Line (line_of e))) es @ [quiet Eof]) = (numbered_from k es, Output_End)"
  using assms
proof (induction es arbitrary: k)
  case Nil
  show ?case by (simp add: quiet_def)
next
  case (Cons e es)
  then have "event_of_line k (line_of e) = Event \<lparr>ev_type = fst e, ev_data = Some (snd e), ev_sequence = k + 1\<rparr>"
    by (intro event_of_written) (simp del: wf_json.simps(2))
  moreover have "read_events signals (k + 1) (map (\<lambda>e. quiet (Line (line_of e))) es @ [quiet Eof]) = (numbered_from (k + 1) es, Output_End)"
    using Cons by simp
  ultimately show ?case by (cases signals) (simp_all add: quiet_def)
qed

lemma numbered_from: "numbered k (numbered_from k es)" "length (numbered_from k es) = length es"
  by (induction es arbitrary: k) auto

lemma numbered_from_last: "last_number (numbered_from 0 es) = int (length es)"
proof (cases "es = []")
  case False
  then have "numbered_from 0 es \<noteq> []" by (cases es) auto
  then show ?thesis
    using numbered_last [OF numbered_from(1)] numbered_from(2) [of 0 es] by (simp add: last_number_def)
qed (simp add: last_number_def)

end
