(* ===== verification/Registration.thy ===== *)
theory Registration
  imports Http_Client
begin

text \<open>
  \<open>src/fleet_agent/registration.py\<close> and \<open>heartbeat.py\<close>: the sidecar registers once at startup, with at
  most ten posts, and then sends heartbeats for ever.
\<close>

section \<open>Registration\<close>

definition REGISTER_RETRIES :: nat where
  "REGISTER_RETRIES = 10"

definition register_base_backoff :: int where
  "register_base_backoff = 5"

definition register_max_backoff :: int where
  "register_max_backoff = 60"

interpretation register_backoff: capped_backoff register_base_backoff register_max_backoff
  by unfold_locales (simp_all add: register_base_backoff_def register_max_backoff_def)

text \<open>Registered; RuntimeError with the status; SystemExit after the last attempt; another exception.\<close>

datatype registration = Registered | Rejected int | System_Exit | Crashed

record 's register_result =
  rr_outcome :: registration
  rr_posts :: nat
  rr_sleeps :: "int list"
  rr_world :: 's

text \<open>
  The loop, which the source writes as \<open>while True\<close> with a counter: the counter starts at 0 and is
  incremented and compared before each post.
\<close>

function register_loop :: "('s \<Rightarrow> reply \<times> 's) \<Rightarrow> nat \<Rightarrow> int \<Rightarrow> 's \<Rightarrow> 's register_result" where
  "register_loop post attempt backoff s =
     (let attempt = attempt + 1;
          stop = (\<lambda>outcome posts s. \<lparr>rr_outcome = outcome, rr_posts = posts, rr_sleeps = [], rr_world = s\<rparr>)
      in if REGISTER_RETRIES < attempt then stop System_Exit 0 s
         else
           (let (reply, s') = post s;
                again = (let r = register_loop post attempt (next_backoff register_max_backoff backoff) s'
                         in r\<lparr>rr_posts := Suc (rr_posts r), rr_sleeps := backoff # rr_sleeps r\<rparr>)
            in case reply of
                 Reply status _ \<Rightarrow>
                   if status = 200 \<or> status = 201 then stop Registered 1 s'
                   else if 400 \<le> status \<and> status < 500 then stop (Rejected status) 1 s'
                   else again
               | Connect_Error \<Rightarrow> again
               | Other_Error \<Rightarrow> stop Crashed 1 s'))"
  by pat_completeness auto

termination
  by (relation "measure (\<lambda>(post, attempt, backoff, s). Suc REGISTER_RETRIES - attempt)") auto

declare register_loop.simps [simp del]

definition register_body :: "('sk, 's) client \<Rightarrow> json" where
  "register_body cl =
     JObj [(''agent_id'', JStr (cl_agent_id cl)),
           (''public_key'', JStr (b64encode (cl_public_bytes cl (cl_private_key cl)))),
           (''capabilities'', JArr [])]"

text \<open>\<open>json.dumps(body).encode()\<close>: the standard library's serializer, not pydantic's.\<close>

definition register_attempt :: "('sk, 's) client \<Rightarrow> 's \<Rightarrow> reply \<times> 's" where
  "register_attempt cl s =
     cl_send cl (signed_request cl ''POST'' ''/agents/register'' (utf8 (json_dumps (register_body cl))) s) s"

definition self_register :: "('sk, 's) client \<Rightarrow> 's \<Rightarrow> 's register_result" where
  "self_register cl s = register_loop (register_attempt cl) 0 register_base_backoff s"

text \<open>A reply after which registration is tried again: neither success nor a client error.\<close>

fun transient :: "reply \<Rightarrow> bool" where
  "transient (Reply status _) = (status \<noteq> 200 \<and> status \<noteq> 201 \<and> \<not> (400 \<le> status \<and> status < 500))"
| "transient Connect_Error = True"
| "transient Other_Error = False"

fun outcome_of :: "reply \<Rightarrow> registration" where
  "outcome_of (Reply status _) =
     (if status = 200 \<or> status = 201 then Registered
      else if 400 \<le> status \<and> status < 500 then Rejected status else System_Exit)"
| "outcome_of Connect_Error = System_Exit"
| "outcome_of Other_Error = Crashed"

lemma register_loop_end: "register_loop post REGISTER_RETRIES b s
    = \<lparr>rr_outcome = System_Exit, rr_posts = 0, rr_sleeps = [], rr_world = s\<rparr>"
  by (simp add: register_loop.simps [of post REGISTER_RETRIES])

lemma register_loop_stop:
  "attempt < REGISTER_RETRIES \<Longrightarrow> post s = (reply, s') \<Longrightarrow> \<not> transient reply \<Longrightarrow>
    register_loop post attempt b s = \<lparr>rr_outcome = outcome_of reply, rr_posts = 1, rr_sleeps = [], rr_world = s'\<rparr>"
  by (cases reply) (auto simp: register_loop.simps [of post attempt] Let_def)

lemma register_loop_again:
  "attempt < REGISTER_RETRIES \<Longrightarrow> post s = (reply, s') \<Longrightarrow> transient reply \<Longrightarrow>
    register_loop post attempt b s
    = (let r = register_loop post (Suc attempt) (next_backoff register_max_backoff b) s'
       in r\<lparr>rr_posts := Suc (rr_posts r), rr_sleeps := b # rr_sleeps r\<rparr>)"
  by (cases reply) (auto simp: register_loop.simps [of post attempt] Let_def)

text \<open>With \<open>n\<close> attempts left.\<close>

lemma register_loop_trace:
  assumes "register_loop post attempt b s = r" and "attempt + n = REGISTER_RETRIES"
  shows "rr_posts r \<le> n \<and> (0 < n \<longrightarrow> 0 < rr_posts r)
         \<and> (\<forall>x \<in> set (butlast (replies post (rr_posts r) s)). transient x)
         \<and> (if n = 0 then rr_outcome r = System_Exit
            else rr_outcome r = outcome_of (last (replies post (rr_posts r) s)))
         \<and> (rr_outcome r = System_Exit \<longrightarrow> rr_posts r = n)
         \<and> rr_world r = world_after post (rr_posts r) s
         \<and> rr_sleeps r = map (\<lambda>i. (next_backoff register_max_backoff ^^ i) b)
                            [0..<(if rr_outcome r = System_Exit then rr_posts r else rr_posts r - 1)]"
  using assms
proof (induction n arbitrary: attempt b s r)
  case 0
  then show ?case using register_loop_end [of post b s] by auto
next
  case (Suc n)
  obtain reply s' where a: "post s = (reply, s')" by force
  have lt: "attempt < REGISTER_RETRIES" using Suc.prems(2) by simp
  show ?case
  proof (cases "transient reply")
    case False
    have "outcome_of reply \<noteq> System_Exit" using False by (cases reply) auto
    then show ?thesis using register_loop_stop [of attempt post s reply s' b, OF lt a False] Suc.prems(1) a by auto
  next
    case True
    define q where "q = register_loop post (Suc attempt) (next_backoff register_max_backoff b) s'"
    have r: "r = q\<lparr>rr_posts := Suc (rr_posts q), rr_sleeps := b # rr_sleeps q\<rparr>"
      using register_loop_again [of attempt post s reply s' b, OF lt a True] Suc.prems(1) by (simp add: q_def Let_def)
    note ih = Suc.IH [OF q_def [symmetric]]
    have out: "rr_posts q = 0 \<Longrightarrow> outcome_of reply = System_Exit" using True by (cases reply) auto
    have up: "[0..<Suc k] = 0 # map Suc [0..<k]" for k
      by (simp add: upt_conv_Cons map_Suc_upt del: upt_Suc)
    show ?thesis
    proof (cases "rr_posts q")
      case 0
      then show ?thesis using ih Suc.prems(2) a r True out up [of 0] by (auto simp del: upt_Suc)
    next
      case (Suc k)
      then show ?thesis
        using ih Suc.prems(2) a r True up
        by (auto simp: funpow_Suc_right simp del: upt_Suc funpow.simps(2))
    qed
  qed
qed

section \<open>Heartbeats\<close>

definition heartbeat_base_backoff :: int where
  "heartbeat_base_backoff = 30"

definition heartbeat_max_backoff :: int where
  "heartbeat_max_backoff = 60"

interpretation heartbeat_backoff: capped_backoff heartbeat_base_backoff heartbeat_max_backoff
  by unfold_locales (simp_all add: heartbeat_base_backoff_def heartbeat_max_backoff_def)

text \<open>The backoff after a reply; None is an exception that ends the loop.\<close>

fun backoff_after_beat :: "int \<Rightarrow> reply \<Rightarrow> int option" where
  "backoff_after_beat backoff (Reply status _) =
     (if raises_for_status status then Some (next_backoff heartbeat_max_backoff backoff)
      else Some heartbeat_base_backoff)"
| "backoff_after_beat backoff Connect_Error = Some (next_backoff heartbeat_max_backoff backoff)"
| "backoff_after_beat backoff Other_Error = None"

text \<open>The first \<open>n\<close> rounds of the loop: the waiting times, whether it still runs, and the world.\<close>

fun run_heartbeat :: "('sk, 's) client \<Rightarrow> int \<Rightarrow> int \<Rightarrow> nat \<Rightarrow> 's \<Rightarrow> int list \<times> bool \<times> 's" where
  "run_heartbeat cl interval backoff 0 s = ([], True, s)"
| "run_heartbeat cl interval backoff (Suc n) s =
     (let path = ''/agents/'' @ cl_agent_id cl @ ''/heartbeat'';
          (reply, s') = cl_send cl (signed_request cl ''POST'' path [] s) s
      in case backoff_after_beat backoff reply of
           None \<Rightarrow> ([], False, s')
         | Some backoff' \<Rightarrow>
             (let sleep = (if backoff' = heartbeat_base_backoff then interval else backoff');
                  (sleeps, running, s'') = run_heartbeat cl interval backoff' n s'
              in (sleep # sleeps, running, s'')))"

lemma backoff_after_beat_bounds:
  assumes "backoff_after_beat b r = Some b'" and "heartbeat_base_backoff \<le> b"
  shows "heartbeat_base_backoff \<le> b' \<and> b' \<le> heartbeat_max_backoff"
  using assms heartbeat_backoff.next_bounds [of b] heartbeat_backoff.base_cap
  by (cases r) (auto split: if_splits)

lemma run_heartbeat_sleeps:
  assumes "run_heartbeat cl interval b n s = (sleeps, running, s')" and "heartbeat_base_backoff \<le> b"
  shows "\<forall>x \<in> set sleeps. x = interval \<or> (30 < x \<and> x \<le> 60)"
  using assms
proof (induction n arbitrary: b s sleeps running s')
  case (Suc n)
  obtain reply s1 where send: "cl_send cl (signed_request cl ''POST'' (''/agents/'' @ cl_agent_id cl @ ''/heartbeat'') [] s) s
      = (reply, s1)" by force
  show ?case
  proof (cases "backoff_after_beat b reply")
    case None
    then show ?thesis using Suc.prems send by simp
  next
    case (Some b')
    obtain sl rn s2 where rest: "run_heartbeat cl interval b' n s1 = (sl, rn, s2)" by (cases "run_heartbeat cl interval b' n s1")
    note bounds = backoff_after_beat_bounds [OF Some Suc.prems(2)]
    have "\<forall>x \<in> set sl. x = interval \<or> (30 < x \<and> x \<le> 60)"
      using Suc.IH [OF rest] bounds by blast
    moreover have "sleeps = (if b' = heartbeat_base_backoff then interval else b') # sl"
      using Suc.prems(1) send Some rest by (simp add: Let_def)
    ultimately show ?thesis
      using bounds by (simp add: heartbeat_base_backoff_def heartbeat_max_backoff_def)
  qed
qed simp

end
