(* ===== verification/Request_Bodies.thy ===== *)
theory Request_Bodies
  imports Registry_Endpoints Http_Client
begin

text \<open>
  The request models of pydantic in \<open>agents/schemas.py\<close>, \<open>workflows/routes.py\<close> and
  \<open>tasks/routes.py\<close>, and the query and header parameters of the endpoints: from JSON to the records the
  endpoints take. None is a validation error, which is a 422. Fields the model does not name are
  ignored.

  In its lax mode pydantic also reads an integer or a Boolean from some other values; \<open>coercions\<close> says
  which. A string, an object or a list is only read from its own kind.
\<close>

section \<open>Fields\<close>

record coercions =
  co_int :: "json \<Rightarrow> int option"
  co_bool :: "json \<Rightarrow> bool option"
  co_int_text :: "string \<Rightarrow> int option" \<comment> \<open>of a query parameter or a header\<close>

text \<open>Documented: a JSON integer and a JSON Boolean are read as they are, and the decimal text of an
  integer is that integer.\<close>

definition coercions_ok :: "coercions \<Rightarrow> bool" where
  "coercions_ok co =
     ((\<forall>n. co_int co (JInt n) = Some n) \<and> (\<forall>b. co_bool co (JBool b) = Some b)
      \<and> (\<forall>n. co_int_text co (int_str n) = Some n))"

text \<open>A field with a default, \<open>T | None\<close> with the default None, and \<open>list[str]\<close>.\<close>

definition field_or :: "(json \<Rightarrow> 'a option) \<Rightarrow> 'a \<Rightarrow> dict \<Rightarrow> string \<Rightarrow> 'a option" where
  "field_or f x d k = (case map_of d k of None \<Rightarrow> Some x | Some v \<Rightarrow> f v)"

fun nullable :: "(json \<Rightarrow> 'a option) \<Rightarrow> json \<Rightarrow> 'a option option" where
  "nullable f JNull = Some None"
| "nullable f v = map_option Some (f v)"

definition opt_field :: "(json \<Rightarrow> 'a option) \<Rightarrow> dict \<Rightarrow> string \<Rightarrow> 'a option option" where
  "opt_field f d k = field_or (nullable f) None d k"

definition field :: "(json \<Rightarrow> 'a option) \<Rightarrow> dict \<Rightarrow> string \<Rightarrow> 'a option" where
  "field f d k = Option.bind (map_of d k) f"

text \<open>A field of an update: whether it was provided, and its value.\<close>

definition provided :: "(json \<Rightarrow> 'a option) \<Rightarrow> dict \<Rightarrow> string \<Rightarrow> 'a option option option" where
  "provided f d k = (case map_of d k of None \<Rightarrow> Some None | Some v \<Rightarrow> map_option Some (nullable f v))"

fun as_str :: "json \<Rightarrow> string option" where
  "as_str (JStr s) = Some s"
| "as_str _ = None"

fun as_dict :: "json \<Rightarrow> dict option" where
  "as_dict (JObj d) = Some d"
| "as_dict _ = None"

fun as_strs :: "json \<Rightarrow> string list option" where
  "as_strs (JArr xs) = validate_all as_str xs"
| "as_strs _ = None"

section \<open>Agents\<close>

definition register_request_of :: "dict \<Rightarrow> register_request option" where
  "register_request_of d =
     Option.bind (field as_str d ''agent_id'') (\<lambda>agent_id.
     Option.bind (opt_field as_str d ''display_name'') (\<lambda>display_name.
     Option.bind (field as_str d ''public_key'') (\<lambda>public_key.
     Option.bind (opt_field as_strs d ''capabilities'') (\<lambda>capabilities.
     Option.bind (opt_field as_str d ''endpoint'') (\<lambda>endpoint.
       Some \<lparr>rr_agent_id = agent_id, rr_display_name = display_name, rr_public_key = public_key,
             rr_capabilities = capabilities, rr_endpoint = endpoint\<rparr>)))))"

section \<open>Workflows\<close>

definition workflow_create_of :: "coercions \<Rightarrow> dict \<Rightarrow> (string \<times> workflow_fields) option" where
  "workflow_create_of co d =
     Option.bind (field as_str d ''id'') (\<lambda>wid.
     Option.bind (field as_str d ''name'') (\<lambda>name.
     Option.bind (opt_field as_str d ''description'') (\<lambda>description.
     Option.bind (opt_field as_strs d ''tags'') (\<lambda>tags.
     Option.bind (opt_field as_dict d ''input_schema'') (\<lambda>input_schema.
     Option.bind (opt_field as_dict d ''output_schema'') (\<lambda>output_schema.
     Option.bind (opt_field (co_int co) d ''timeout_seconds'') (\<lambda>timeout_seconds.
     Option.bind (field_or (co_int co) 30 d ''result_retention_days'') (\<lambda>days.
       Some (wid, \<lparr>wf_name = name, wf_description = description, wf_tags = tags,
                   wf_input_schema = input_schema, wf_output_schema = output_schema,
                   wf_timeout_seconds = timeout_seconds, wf_result_retention_days = days\<rparr>)))))))))"

definition workflow_update_of :: "coercions \<Rightarrow> dict \<Rightarrow> workflow_changes option" where
  "workflow_update_of co d =
     Option.bind (provided as_str d ''name'') (\<lambda>name.
     Option.bind (provided as_str d ''description'') (\<lambda>description.
     Option.bind (provided as_strs d ''tags'') (\<lambda>tags.
     Option.bind (provided as_dict d ''input_schema'') (\<lambda>input_schema.
     Option.bind (provided as_dict d ''output_schema'') (\<lambda>output_schema.
     Option.bind (provided (co_int co) d ''timeout_seconds'') (\<lambda>timeout_seconds.
     Option.bind (provided (co_int co) d ''result_retention_days'') (\<lambda>days.
     Option.bind (provided as_str d ''status'') (\<lambda>status.
       Some \<lparr>ch_name = name, ch_description = description, ch_tags = tags,
             ch_input_schema = input_schema, ch_output_schema = output_schema,
             ch_timeout_seconds = timeout_seconds, ch_result_retention_days = days, ch_status = status\<rparr>))))))))"

section \<open>Tasks\<close>

definition run_request_of :: "coercions \<Rightarrow> dict \<Rightarrow> run_request option" where
  "run_request_of co d =
     Option.bind (field as_dict d ''input'') (\<lambda>inp.
     Option.bind (opt_field as_str d ''executor'') (\<lambda>executor.
     Option.bind (field_or as_str ''normal'' d ''priority'') (\<lambda>priority.
     Option.bind (opt_field (co_int co) d ''timeout_seconds'') (\<lambda>timeout.
     Option.bind (opt_field as_str d ''idempotency_key'') (\<lambda>key.
     Option.bind (opt_field as_dict d ''metadata'') (\<lambda>metadata.
     Option.bind (opt_field as_str d ''callback_url'') (\<lambda>callback.
       Some \<lparr>run_input = inp, run_executor = executor, run_priority = priority, run_timeout = timeout,
             run_key = key, run_metadata = metadata, run_callback = callback\<rparr>)))))))"

text \<open>\<open>TaskCancelRequest\<close> and \<open>TaskPauseRequest\<close> have one optional reason, \<open>TaskResumeRequest\<close> one optional
  priority.\<close>

definition reason_of :: "dict \<Rightarrow> string option option" where
  "reason_of d = opt_field as_str d ''reason''"

definition resume_priority_of :: "dict \<Rightarrow> string option option" where
  "resume_priority_of d = opt_field as_str d ''priority''"

definition retask_request_of :: "dict \<Rightarrow> retask_request option" where
  "retask_request_of d =
     Option.bind (field as_dict d ''refinement'') (\<lambda>refinement.
     Option.bind (field as_str refinement ''message'') (\<lambda>message.
     Option.bind (opt_field as_dict refinement ''additional_input'') (\<lambda>additional_input.
     Option.bind (opt_field as_dict refinement ''constraints'') (\<lambda>constraints.
     Option.bind (opt_field as_str d ''priority'') (\<lambda>priority.
       Some \<lparr>rt_message = message, rt_additional_input = additional_input, rt_constraints = constraints,
             rt_priority = priority\<rparr>)))))"

definition redirect_request_of :: "coercions \<Rightarrow> dict \<Rightarrow> redirect_request option" where
  "redirect_request_of co d =
     Option.bind (field as_str d ''reason'') (\<lambda>reason.
     Option.bind (field as_dict d ''new_input'') (\<lambda>new_input.
     Option.bind (field_or (co_bool co) False d ''inherit_progress'') (\<lambda>inherit.
     Option.bind (opt_field as_str d ''priority'') (\<lambda>priority.
       Some \<lparr>rd_reason = reason, rd_new_input = new_input, rd_inherit_progress = inherit,
             rd_priority = priority\<rparr>))))"

text \<open>The literals and the bound of the sequence are checked by \<open>inject_context_endpoint\<close>.\<close>

definition context_request_of :: "coercions \<Rightarrow> dict \<Rightarrow> context_request option" where
  "context_request_of co d =
     Option.bind (field as_str d ''context_type'') (\<lambda>context_type.
     Option.bind (field as_dict d ''payload'') (\<lambda>payload.
     Option.bind (field as_str payload ''message'') (\<lambda>message.
     Option.bind (opt_field as_dict payload ''data'') (\<lambda>data.
     Option.bind (field (co_int co) d ''sequence'') (\<lambda>sequence.
     Option.bind (field_or as_str ''normal'' d ''urgency'') (\<lambda>urgency.
       Some \<lparr>cx_type = context_type, cx_message = message, cx_data = data, cx_sequence = sequence,
             cx_urgency = urgency\<rparr>))))))"

definition event_request_of :: "coercions \<Rightarrow> dict \<Rightarrow> event_request option" where
  "event_request_of co d =
     Option.bind (field as_str d ''event_type'') (\<lambda>event_type.
     Option.bind (field_or as_dict [] d ''data'') (\<lambda>data.
     Option.bind (field (co_int co) d ''sequence'') (\<lambda>sequence.
       Some \<lparr>er_type = event_type, er_data = data, er_sequence = sequence\<rparr>)))"

section \<open>Query parameters\<close>

text \<open>Of a repeated parameter the last one counts.\<close>

definition param :: "(string \<times> string) list \<Rightarrow> string \<Rightarrow> string option" where
  "param params k = map_of (rev params) k"

definition limit_param :: "coercions \<Rightarrow> (string \<times> string) list \<Rightarrow> int option" where
  "limit_param co params = (case param params ''limit'' of None \<Rightarrow> Some 20 | Some s \<Rightarrow> co_int_text co s)"

definition list_query_of :: "coercions \<Rightarrow> (string \<times> string) list \<Rightarrow> list_query option" where
  "list_query_of co params =
     map_option (\<lambda>limit.
         \<lparr>q_status = param params ''status'', q_priority = param params ''priority'',
          q_caller = param params ''caller'', q_since = param params ''since'',
          q_until = param params ''until'', q_limit = limit, q_cursor = param params ''cursor''\<rparr>)
       (limit_param co params)"

section \<open>Facts\<close>

lemmas field_defs = field_def field_or_def opt_field_def

lemma nullable_simps [simp]:
  "nullable as_str (jopt_str x) = Some x"
  "(\<And>n. f (JInt n) = Some n) \<Longrightarrow> nullable f (jopt_int y) = Some y"
  by (cases x; simp add: jopt_str_def) (cases y; simp add: jopt_int_def)

end
