(* ===== verification/Routes.thy ===== *)
theory Routes
  imports Registry_Endpoints Sse Auth
begin

text \<open>
  The routes the application registers (\<open>app.create_app\<close> with the routers of \<open>agents/routes.py\<close>,
  \<open>workflows/routes.py\<close>, \<open>tasks/routes.py\<close>, \<open>health.py\<close> and \<open>manifest.py\<close>), in the order in which they are
  included, the path matching over them, and the manifest. The framework takes the first route whose
  method and template match, a parameter being a non-empty text without a slash; its redirect of a
  path with a trailing slash is left out.
\<close>

section \<open>Routes\<close>

text \<open>The functions under the route decorators.\<close>

datatype endpoint =
    Health | Manifest | Root
  | Register_Agent | Agent_Heartbeat | Get_Agent | Pending_Tasks
  | Create_Workflow | List_Workflows | Get_Workflow | Update_Workflow
  | Run_Task | Get_Task | List_Tasks | Cancel_Task | Retask_Task | Redirect_Task | Pause_Task | Resume_Task
  | Inject_Context | Post_Task_Event | Stream_Task_Events

datatype segment = Lit string | Param

record route =
  ro_method :: string
  ro_template :: "segment list"
  ro_endpoint :: endpoint
  ro_protected :: bool \<comment> \<open>has \<open>Depends(require_auth)\<close>\<close>

definition open_route :: "string \<Rightarrow> segment list \<Rightarrow> endpoint \<Rightarrow> route" where
  "open_route m t e = \<lparr>ro_method = m, ro_template = t, ro_endpoint = e, ro_protected = False\<rparr>"

definition protected_route :: "string \<Rightarrow> segment list \<Rightarrow> endpoint \<Rightarrow> route" where
  "protected_route m t e = \<lparr>ro_method = m, ro_template = t, ro_endpoint = e, ro_protected = True\<rparr>"

definition agent_routes :: "route list" where
  "agent_routes =
     [open_route ''POST'' [Lit ''agents'', Lit ''register''] Register_Agent,
      protected_route ''POST'' [Lit ''agents'', Param, Lit ''heartbeat''] Agent_Heartbeat,
      protected_route ''GET'' [Lit ''agents'', Param] Get_Agent,
      protected_route ''GET'' [Lit ''agents'', Param, Lit ''tasks'', Lit ''pending''] Pending_Tasks]"

definition workflow_routes :: "route list" where
  "workflow_routes =
     [protected_route ''POST'' [Lit ''workflows''] Create_Workflow,
      protected_route ''GET'' [Lit ''workflows''] List_Workflows,
      protected_route ''GET'' [Lit ''workflows'', Param] Get_Workflow,
      protected_route ''PUT'' [Lit ''workflows'', Param] Update_Workflow]"

definition task_routes :: "route list" where
  "task_routes =
     [protected_route ''POST'' [Lit ''workflows'', Param, Lit ''run''] Run_Task,
      protected_route ''GET'' [Lit ''workflows'', Param, Lit ''tasks'', Param] Get_Task,
      protected_route ''GET'' [Lit ''workflows'', Param, Lit ''tasks''] List_Tasks,
      protected_route ''POST'' [Lit ''workflows'', Param, Lit ''tasks'', Param, Lit ''cancel''] Cancel_Task,
      protected_route ''POST'' [Lit ''workflows'', Param, Lit ''tasks'', Param, Lit ''retask''] Retask_Task,
      protected_route ''POST'' [Lit ''workflows'', Param, Lit ''tasks'', Param, Lit ''redirect''] Redirect_Task,
      protected_route ''POST'' [Lit ''workflows'', Param, Lit ''tasks'', Param, Lit ''pause''] Pause_Task,
      protected_route ''POST'' [Lit ''workflows'', Param, Lit ''tasks'', Param, Lit ''resume''] Resume_Task,
      protected_route ''POST'' [Lit ''workflows'', Param, Lit ''tasks'', Param, Lit ''context''] Inject_Context,
      protected_route ''POST'' [Lit ''tasks'', Param, Lit ''events''] Post_Task_Event,
      protected_route ''GET'' [Lit ''workflows'', Param, Lit ''tasks'', Param, Lit ''stream''] Stream_Task_Events]"

definition app_routes :: "route list" where
  "app_routes =
     [open_route ''GET'' [Lit ''health''] Health, open_route ''GET'' [Lit ''manifest''] Manifest]
     @ agent_routes @ workflow_routes @ task_routes @ [open_route ''GET'' [Lit []] Root]"

text \<open>The path of a template for given parameters, and how many it takes.\<close>

fun fill :: "segment list \<Rightarrow> string list \<Rightarrow> string" where
  "fill [] args = []"
| "fill (Lit s # t) args = ''/'' @ s @ fill t args"
| "fill (Param # t) (a # args) = ''/'' @ a @ fill t args"
| "fill (Param # t) [] = []"

fun parameters :: "segment list \<Rightarrow> nat" where
  "parameters [] = 0"
| "parameters (Lit s # t) = parameters t"
| "parameters (Param # t) = Suc (parameters t)"

section \<open>Matching\<close>

fun split_slash :: "string \<Rightarrow> string list" where
  "split_slash [] = [[]]"
| "split_slash (c # s) =
     (if c = CHR ''/'' then [] # split_slash s
      else (case split_slash s of [] \<Rightarrow> [[c]] | seg # segs \<Rightarrow> (c # seg) # segs))"

fun match_segments :: "segment list \<Rightarrow> string list \<Rightarrow> string list option" where
  "match_segments [] [] = Some []"
| "match_segments (Lit s # t) (x # xs) = (if s = x then match_segments t xs else None)"
| "match_segments (Param # t) (x # xs) = (if x \<noteq> [] then map_option ((#) x) (match_segments t xs) else None)"
| "match_segments t xs = None"

definition match_path :: "segment list \<Rightarrow> string \<Rightarrow> string list option" where
  "match_path t path =
     (case path of
        [] \<Rightarrow> None
      | c # rest \<Rightarrow> if c = CHR ''/'' then match_segments t (split_slash rest) else None)"

text \<open>A path that only routes of other methods have is a 405.\<close>

datatype routing = Found route "string list" | Wrong_Method | Unknown_Path

fun first_match :: "route list \<Rightarrow> string \<Rightarrow> string \<Rightarrow> routing" where
  "first_match [] m path = Unknown_Path"
| "first_match (r # rs) m path =
     (case match_path (ro_template r) path of
        None \<Rightarrow> first_match rs m path
      | Some args \<Rightarrow>
          if ro_method r = m then Found r args
          else (case first_match rs m path of Found r' args' \<Rightarrow> Found r' args' | _ \<Rightarrow> Wrong_Method))"

definition find_route :: "string \<Rightarrow> string \<Rightarrow> routing" where
  "find_route m path = first_match app_routes m path"

section \<open>Links\<close>

text \<open>A link names a method (GET when it names none) and a path. \<open>leads ids l\<close>: it is a route's path with
  parameters from \<open>ids\<close>.\<close>

definition link_target :: "json \<Rightarrow> (string \<times> string) option" where
  "link_target l =
     (case l of
        JObj d \<Rightarrow>
          (case (dict_get_or d ''method'' (JStr ''GET''), dict_get d ''href'') of
             (JStr m, JStr h) \<Rightarrow> Some (m, h)
           | _ \<Rightarrow> None)
      | _ \<Rightarrow> None)"

definition leads :: "string set \<Rightarrow> json \<Rightarrow> bool" where
  "leads ids l =
     (\<exists>r \<in> set app_routes. \<exists>args. set args \<subseteq> ids \<and> length args = parameters (ro_template r)
        \<and> link_target l = Some (ro_method r, fill (ro_template r) args))"

section \<open>The manifest\<close>

definition rstrip_slash :: "string \<Rightarrow> string" where
  "rstrip_slash s = rev (dropWhile (\<lambda>c. c = CHR ''/'') (rev s))"

definition parameter_convention :: "string \<Rightarrow> string \<Rightarrow> dict \<Rightarrow> string list \<Rightarrow> json" where
  "parameter_convention description ty bounds nots =
     JObj ([(''description'', JStr description), (''type'', JStr ty)] @ bounds
           @ [(''not'', JArr (map JStr nots))])"

definition changelog_entry :: "string \<Rightarrow> string \<Rightarrow> string list \<Rightarrow> json" where
  "changelog_entry version date changes =
     JObj [(''version'', JStr version), (''date'', JStr date), (''changes'', JArr (map JStr changes)),
           (''breaking'', JBool False)]"

definition manifest_links :: "string \<Rightarrow> dict" where
  "manifest_links base =
     [(''self'', href (base @ ''/manifest'')),
      (''agents'', href (base @ ''/agents'')),
      (''agents_register'', method_link (base @ ''/agents/register'') ''POST''),
      (''workflows'', href (base @ ''/workflows'')),
      (''tasks'', href (base @ ''/tasks'')),
      (''health'', href (base @ ''/health'')),
      (''openapi'', href (base @ ''/openapi.json''))]"

definition build_manifest :: "string \<Rightarrow> string \<Rightarrow> string \<Rightarrow> dict" where
  "build_manifest base_url api_version server_public_key_pem =
     (let base = rstrip_slash base_url
      in [(''name'', JStr ''Fleet API''),
          (''version'', JStr api_version),
          (''description'', JStr ''Distributed task dispatch for agentic workflows''),
          (''base_url'', JStr base),
          (''auth'',
           JObj [(''type'', JStr ''ed25519-signature''),
                 (''header'', JStr ''Authorization''),
                 (''format'', JStr ''Signature <agent_id>:<base64_signature>''),
                 (''key_registration'', JStr ''/agents/register''),
                 (''server_public_key'', JStr server_public_key_pem)]),
          (''capabilities'',
           JArr (map JStr
             [''workflow_registry'', ''task_dispatch'', ''sse_streaming'', ''pause_resume'',
              ''context_injection'', ''retask_with_lineage'', ''redirect'', ''callback_signing'',
              ''idempotent_writes'', ''pull_dispatch'', ''agent_heartbeat''])),
          (''rate_limits'',
           JObj [(''status'', JStr ''planned''),
                 (''description'', JStr ''Rate limiting is not yet enforced by middleware'')]),
          (''parameter_conventions'',
           JObj [(''limit'',
                  parameter_convention ''Maximum number of results to return'' ''integer''
                    [(''default'', JInt 20), (''max'', JInt 100)]
                    [''count'', ''max'', ''n'', ''page_size'', ''per_page'']),
                 (''cursor'',
                  parameter_convention ''Opaque pagination cursor from a previous response'' ''string'' []
                    [''page'', ''offset'', ''skip'', ''page_token'']),
                 (''status'',
                  parameter_convention ''Filter by lifecycle status'' ''string'' []
                    [''state'', ''phase'', ''stage''])]),
          (''schema_changelog'',
           JArr [changelog_entry ''1.0.0'' ''2026-03-07''
                   [''Initial release -- manifest, agents, workflows, tasks''],
                 changelog_entry ''1.1.0'' ''2026-03-17''
                   [''SSE streaming for task events'', ''Pause/resume task lifecycle'', ''Context injection'',
                    ''Retask with lineage tracking'', ''Redirect tasks between agents'',
                    ''Ed25519 callback signing'', ''Idempotent writes via Idempotency-Key'',
                    ''Pull dispatch for agents'', ''Agent heartbeat monitoring'',
                    ''Removed phantom _links (tools, errors)'',
                    ''Rate limits marked as planned (no enforcement middleware)'']]),
          (''_links'', JObj (manifest_links base))])"

definition get_manifest :: "string \<Rightarrow> string \<Rightarrow> string \<Rightarrow> dict \<times> (string \<times> string) list" where
  "get_manifest base_url api_version pem =
     (build_manifest base_url api_version pem,
      [(''X-Schema-Version'', api_version), (''Cache-Control'', ''public, max-age=60'')])"

section \<open>Facts\<close>

lemma rstrip_slash_last: "rstrip_slash s \<noteq> [] \<Longrightarrow> last (rstrip_slash s) \<noteq> CHR ''/''"
  using hd_dropWhile [of "\<lambda>c. c = CHR ''/''" "rev s"] by (auto simp: rstrip_slash_def last_rev)

lemmas app_routes_defs = app_routes_def agent_routes_def workflow_routes_def task_routes_def
  open_route_def protected_route_def

lemma link_target_simps [simp]:
  "link_target (href h) = Some (''GET'', h)"
  "link_target (method_link h m) = Some (m, h)"
  "link_target (post_link h) = Some (''POST'', h)"
  by (simp_all add: link_target_def href_def method_link_def post_link_def dict_get_def dict_get_or_def)

text \<open>The routes have at most two parameters.\<close>

lemma args_one: "set args \<subseteq> ids \<and> length args = Suc 0 \<longleftrightarrow> (\<exists>a \<in> ids. args = [a])"
  by (auto simp: length_Suc_conv)

lemma args_two: "set args \<subseteq> ids \<and> length args = Suc (Suc 0) \<longleftrightarrow> (\<exists>a \<in> ids. \<exists>b \<in> ids. args = [a, b])"
  by (auto simp: length_Suc_conv)

lemma some_args:
  "(\<exists>args. set args \<subseteq> ids \<and> length args = 0 \<and> P args) \<longleftrightarrow> P []"
  "(\<exists>args. set args \<subseteq> ids \<and> length args = Suc 0 \<and> P args) \<longleftrightarrow> (\<exists>a \<in> ids. P [a])"
  "(\<exists>args. set args \<subseteq> ids \<and> length args = Suc (Suc 0) \<and> P args) \<longleftrightarrow> (\<exists>a \<in> ids. \<exists>b \<in> ids. P [a, b])"
  unfolding conj_assoc [symmetric] args_one args_two by auto

lemmas some_args_any = some_args [where ids = UNIV, simplified]

lemmas leads_simps = leads_def app_routes_defs some_args some_args_any

text \<open>A path has as many slashes as its template has segments.\<close>

lemma count_fill:
  "length args = parameters t \<Longrightarrow> \<forall>a \<in> set args. CHR ''/'' \<notin> set a \<Longrightarrow> \<forall>s. Lit s \<in> set t \<longrightarrow> CHR ''/'' \<notin> set s \<Longrightarrow>
    count_list (fill t args) CHR ''/'' = length t"
  by (induction t args rule: fill.induct) (auto simp: count_notin)

lemma route_literals: "r \<in> set app_routes \<Longrightarrow> Lit s \<in> set (ro_template r) \<Longrightarrow> CHR ''/'' \<notin> set s"
  by (auto simp: app_routes_defs)

text \<open>Splitting is the inverse of joining with slashes.\<close>

lemma split_slash_nonempty [simp]: "split_slash s \<noteq> []"
  by (cases s) (auto split: list.splits)

lemma split_slash_join: "concat (map (\<lambda>x. CHR ''/'' # x) (split_slash s)) = CHR ''/'' # s"
  by (induction s) (auto split: list.splits)

lemma split_slash_free: "x \<in> set (split_slash s) \<Longrightarrow> CHR ''/'' \<notin> set x"
  by (induction s arbitrary: x) (auto split: list.splits if_splits)

lemma split_slash_last [simp]: "CHR ''/'' \<notin> set a \<Longrightarrow> split_slash a = [a]"
  by (induction a) auto

lemma split_slash_append [simp]: "CHR ''/'' \<notin> set a \<Longrightarrow> split_slash (a @ CHR ''/'' # s) = a # split_slash s"
  by (induction a) auto

definition args_ok :: "segment list \<Rightarrow> string list \<Rightarrow> bool" where
  "args_ok t args = (length args = parameters t \<and> (\<forall>a \<in> set args. a \<noteq> [] \<and> CHR ''/'' \<notin> set a))"

lemma match_segmentsD:
  "match_segments t xs = Some args \<Longrightarrow> \<forall>x \<in> set xs. CHR ''/'' \<notin> set x \<Longrightarrow>
    fill t args = concat (map (\<lambda>x. CHR ''/'' # x) xs) \<and> args_ok t args"
proof (induction t xs arbitrary: args rule: match_segments.induct)
  case (2 s t x xs)
  then show ?case by (simp add: args_ok_def split: if_splits)
next
  case (3 t x xs)
  then obtain args' where "match_segments t xs = Some args'" "args = x # args'" "x \<noteq> []"
    by (auto split: if_splits)
  then show ?case using 3 by (simp add: args_ok_def)
qed (simp_all add: args_ok_def)

lemma match_pathD: "match_path t path = Some args \<Longrightarrow> path = fill t args \<and> args_ok t args"
  using match_segmentsD [of t _ args] split_slash_join split_slash_free
  by (auto simp: match_path_def split: list.splits if_splits)

lemma first_matchD:
  "first_match rs m path = Found r args \<Longrightarrow>
    r \<in> set rs \<and> ro_method r = m \<and> match_path (ro_template r) path = Some args"
  by (induction rs) (auto split: option.splits if_splits routing.splits)

lemma find_routeD:
  "find_route m path = Found r args \<Longrightarrow>
    r \<in> set app_routes \<and> ro_method r = m \<and> path = fill (ro_template r) args \<and> args_ok (ro_template r) args"
  unfolding find_route_def using first_matchD match_pathD by blast

text \<open>Conversely every route is found under its own paths: none is shadowed by an earlier one.\<close>

lemma args_ok_cases:
  "args_ok t args \<Longrightarrow> parameters t \<le> 2 \<Longrightarrow>
    (parameters t = 0 \<and> args = [])
    \<or> (\<exists>a. parameters t = 1 \<and> args = [a] \<and> a \<noteq> [] \<and> CHR ''/'' \<notin> set a)
    \<or> (\<exists>a b. parameters t = 2 \<and> args = [a, b] \<and> a \<noteq> [] \<and> b \<noteq> [] \<and> CHR ''/'' \<notin> set a \<and> CHR ''/'' \<notin> set b)"
  unfolding args_ok_def by (cases args; cases "tl args"; cases "tl (tl args)"; force)

lemma found_alone: "list_all (\<lambda>r. parameters (ro_template r) = 0 \<longrightarrow>
    find_route (ro_method r) (fill (ro_template r) []) = Found r []) app_routes"
  by code_simp

lemma found_one:
  assumes "a \<noteq> []" and "CHR ''/'' \<notin> set a"
  shows "list_all (\<lambda>r. parameters (ro_template r) = 1 \<longrightarrow>
    find_route (ro_method r) (fill (ro_template r) [a]) = Found r [a]) app_routes"
  using assms by (simp add: app_routes_defs find_route_def match_path_def)

lemma found_two:
  assumes "a \<noteq> []" and "CHR ''/'' \<notin> set a" and "b \<noteq> []" and "CHR ''/'' \<notin> set b"
  shows "list_all (\<lambda>r. parameters (ro_template r) = 2 \<longrightarrow>
    find_route (ro_method r) (fill (ro_template r) [a, b]) = Found r [a, b]) app_routes"
  using assms by (simp add: app_routes_defs find_route_def match_path_def)

lemma find_route_fill:
  assumes "r \<in> set app_routes" and "args_ok (ro_template r) args"
  shows "find_route (ro_method r) (fill (ro_template r) args) = Found r args"
proof -
  have "parameters (ro_template r) \<le> 2" using assms(1) by (auto simp: app_routes_defs)
  then show ?thesis
    using args_ok_cases [OF assms(2)] assms(1) found_alone found_one found_two
    unfolding list_all_iff by blast
qed

text \<open>The one path that a protected route shares with the unprotected ones.\<close>

lemma protected_path_open:
  assumes r: "r \<in> set app_routes" "ro_protected r" and args: "length args = parameters (ro_template r)"
    "\<forall>a \<in> set args. CHR ''/'' \<notin> set a"
    and path: "fill (ro_template r) args \<in> set unprotected_paths"
  shows "ro_method r = ''GET'' \<and> ro_template r = [Lit ''agents'', Param] \<and> args = [''register'']"
proof -
  have "count_list (fill (ro_template r) args) CHR ''/'' \<in> {1, 2}"
    using path by (auto simp: unprotected_paths_def)
  then have len: "length (ro_template r) \<in> {1, 2}"
    using count_fill [OF args] route_literals [OF r(1)] by simp
  have "filter (\<lambda>r. ro_protected r \<and> length (ro_template r) \<le> 2) app_routes =
      [protected_route ''GET'' [Lit ''agents'', Param] Get_Agent, protected_route ''POST'' [Lit ''workflows''] Create_Workflow,
       protected_route ''GET'' [Lit ''workflows''] List_Workflows, protected_route ''GET'' [Lit ''workflows'', Param] Get_Workflow,
       protected_route ''PUT'' [Lit ''workflows'', Param] Update_Workflow]"
    by (simp add: app_routes_defs)
  moreover have "r \<in> set (filter (\<lambda>r. ro_protected r \<and> length (ro_template r) \<le> 2) app_routes)"
    using r len by auto
  ultimately consider "r = protected_route ''GET'' [Lit ''agents'', Param] Get_Agent"
    | "\<exists>m e. r = protected_route m [Lit ''workflows''] e" | "\<exists>m e. r = protected_route m [Lit ''workflows'', Param] e"
    by (simp only: list.set) blast
  then show ?thesis
  proof cases
    case 1
    then obtain a where "args = [a]" using args(1) by (auto simp: protected_route_def length_Suc_conv)
    then show ?thesis using 1 path by (auto simp: protected_route_def unprotected_paths_def)
  next
    case 2
    then show ?thesis using args(1) path by (auto simp: protected_route_def unprotected_paths_def)
  next
    case 3
    then obtain a where "args = [a]" using args(1) by (auto simp: protected_route_def length_Suc_conv)
    then show ?thesis using 3 path by (auto simp: protected_route_def unprotected_paths_def)
  qed
qed

end
