(* ===== verification/Poller.thy ===== *)
theory Poller
  imports Executor
begin

text \<open>
  \<open>src/fleet_agent/poller.py\<close>: the poll loop that dispatches pending tasks, each once at a time and at
  most \<open>max_concurrent\<close> of them, and \<open>_dispatch\<close>, which streams the events of an execution. The
  loop runs beside the signal poller (\<open>Signals\<close>) on one event loop; \<open>agent_step\<close> is one piece of it
  between two points where others may run. With \<open>health.py\<close>.
\<close>

section \<open>Polling\<close>

definition poll_base_backoff :: int where
  "poll_base_backoff = 5"

definition poll_max_backoff :: int where
  "poll_max_backoff = 60"

interpretation poll_backoff: capped_backoff poll_base_backoff poll_max_backoff
  by unfold_locales (simp_all add: poll_base_backoff_def poll_max_backoff_def)

text \<open>
  The tasks of a response: the body itself when it is a list, else its \<open>tasks\<close> or its \<open>data\<close>.
  None is an exception: no JSON, no \<open>get\<close>, nothing to validate.
\<close>

definition tasks_of_body :: "json option \<Rightarrow> pending_task list option" where
  "tasks_of_body body =
     (case body of
        Some (JArr xs) \<Rightarrow> validate_all pending_task_of xs
      | Some (JObj d) \<Rightarrow>
          (case py_items (dict_get_or d ''tasks'' (dict_get_or d ''data'' (JArr []))) of
             Some xs \<Rightarrow> validate_all pending_task_of xs
           | None \<Rightarrow> None)
      | _ \<Rightarrow> None)"

fun tasks_of_reply :: "int \<Rightarrow> reply \<Rightarrow> pending_task list option \<times> int" where
  "tasks_of_reply backoff (Reply status body) =
     (if raises_for_status status then (Some [], next_backoff poll_max_backoff backoff)
      else (tasks_of_body body, poll_base_backoff))"
| "tasks_of_reply backoff Connect_Error = (Some [], next_backoff poll_max_backoff backoff)"
| "tasks_of_reply backoff Other_Error = (None, backoff)"

definition poll :: "('sk, 's) client \<Rightarrow> int \<Rightarrow> 's \<Rightarrow> pending_task list option \<times> int \<times> 's" where
  "poll cl backoff s =
     (let (reply, s') = cl_send cl (signed_request cl ''GET'' (pending_path cl) [] s) s;
          (tasks, backoff') = tasks_of_reply backoff reply
      in (tasks, backoff', s'))"

section \<open>Dispatching\<close>

record poller =
  in_flight :: "string list"
  current_backoff :: int

definition initial_poller :: poller where
  "initial_poller = \<lparr>in_flight = [], current_backoff = poll_base_backoff\<rparr>"

definition active_task_count :: "poller \<Rightarrow> nat" where
  "active_task_count p = length (in_flight p)"

text \<open>
  The loop over the polled tasks: a task in flight is skipped, at the limit the rest is left. The
  result is the set in flight (a list without repetitions), the signal state and the tasks for which
  \<open>_dispatch\<close> is started.
\<close>

fun dispatch_tasks ::
    "int \<Rightarrow> pending_task list \<Rightarrow> string list \<Rightarrow> signal_state \<Rightarrow> string list \<times> signal_state \<times> pending_task list" where
  "dispatch_tasks max_concurrent [] flight st = (flight, st, [])"
| "dispatch_tasks max_concurrent (task # tasks) flight st =
     (if pt_task_id task \<in> set flight then dispatch_tasks max_concurrent tasks flight st
      else if max_concurrent \<le> int (length flight) then (flight, st, [])
      else
        (let (flight', st', started) =
               dispatch_tasks max_concurrent tasks (pt_task_id task # flight) (register_task (pt_task_id task) st)
         in (flight', st', task # started)))"

text \<open>One round of \<open>run\<close>: what is dispatched, the waiting time and the world.\<close>

definition poll_round ::
    "('sk, 's) client \<Rightarrow> int \<Rightarrow> int \<Rightarrow> poller \<Rightarrow> signal_state \<Rightarrow> 's
       \<Rightarrow> poller \<times> signal_state \<times> pending_task list \<times> int \<times> 's" where
  "poll_round cl interval max_concurrent p st s =
     (let (tasks, backoff, s') = poll cl (current_backoff p) s;
          (flight, st', started) =
            dispatch_tasks max_concurrent (case tasks of None \<Rightarrow> [] | Some xs \<Rightarrow> xs) (in_flight p) st
      in (\<lparr>in_flight = flight, current_backoff = backoff\<rparr>, st', started,
          if poll_base_backoff < backoff then backoff else interval, s'))"

text \<open>
  \<open>_dispatch\<close>: the events of the execution are streamed; whatever is raised is logged. \<open>finish\<close> is its
  \<open>finally\<close> block.
\<close>

definition dispatch ::
    "('sk, 's) client \<Rightarrow> pending_task \<Rightarrow> bool \<Rightarrow> handler \<Rightarrow> turn list \<Rightarrow> 's \<Rightarrow> posting list \<times> 's" where
  "dispatch cl task signal_poller handler turns s =
     (let (events, _) = execute task signal_poller handler turns;
          (postings, _, s') = stream cl (pt_task_id task) events s
      in (postings, s'))"

definition finish :: "string \<Rightarrow> poller \<Rightarrow> signal_state \<Rightarrow> poller \<times> signal_state" where
  "finish task_id p st = (p\<lparr>in_flight := removeAll task_id (in_flight p)\<rparr>, unregister_task task_id st)"

section \<open>The running agent\<close>

text \<open>
  The state the coroutines of \<open>__main__\<close> share, and their pieces: a round of the task poller, a
  response of the signal poller, an executor that takes its contexts, and the end of a dispatch.
  \<open>ag_started\<close> records the dispatches, the latest first.
\<close>

record agent_state =
  ag_poller :: poller
  ag_signal_state :: signal_state
  ag_signal_backoff :: int
  ag_started :: "string list"

definition initial_agent :: agent_state where
  "initial_agent =
     \<lparr>ag_poller = initial_poller, ag_signal_state = initial_signals, ag_signal_backoff = signal_base_backoff,
      ag_started = []\<rparr>"

inductive agent_step :: "int \<Rightarrow> agent_state \<Rightarrow> agent_state \<Rightarrow> bool" for max_concurrent where
  tasks: "tasks_of_reply (current_backoff (ag_poller a)) reply = (tasks, backoff) \<Longrightarrow>
     dispatch_tasks max_concurrent (case tasks of None \<Rightarrow> [] | Some xs \<Rightarrow> xs) (in_flight (ag_poller a)) (ag_signal_state a)
       = (flight, st, started) \<Longrightarrow>
     agent_step max_concurrent a
       (a\<lparr>ag_poller := \<lparr>in_flight = flight, current_backoff = backoff\<rparr>, ag_signal_state := st,
          ag_started := rev (map pt_task_id started) @ ag_started a\<rparr>)"
| signals: "signals_of_reply (ag_signal_backoff a) reply = (sigs, backoff) \<Longrightarrow>
     agent_step max_concurrent a (a\<lparr>ag_signal_backoff := backoff\<rparr>)"
| signal: "agent_step max_concurrent a (a\<lparr>ag_signal_state := process_state sig (ag_signal_state a)\<rparr>)"
| contexts: "agent_step max_concurrent a (a\<lparr>ag_signal_state := snd (pop_context t (ag_signal_state a))\<rparr>)"
| finished: "t \<in> set (in_flight (ag_poller a)) \<Longrightarrow> finish t (ag_poller a) (ag_signal_state a) = (p, st) \<Longrightarrow>
     agent_step max_concurrent a (a\<lparr>ag_poller := p, ag_signal_state := st\<rparr>)"

inductive_cases agent_stepE: "agent_step max_concurrent a a'"

definition agent_inv :: "int \<Rightarrow> agent_state \<Rightarrow> bool" where
  "agent_inv max_concurrent a =
     (distinct (in_flight (ag_poller a))
      \<and> int (length (in_flight (ag_poller a))) \<le> max 0 max_concurrent
      \<and> registered (ag_signal_state a) = set (in_flight (ag_poller a))
      \<and> poll_base_backoff \<le> current_backoff (ag_poller a) \<and> current_backoff (ag_poller a) \<le> poll_max_backoff
      \<and> signal_base_backoff \<le> ag_signal_backoff a \<and> ag_signal_backoff a \<le> signal_max_backoff)"

section \<open>Facts\<close>

lemma tasks_backoff_bounds:
  assumes "tasks_of_reply b r = (tasks, b')" and "poll_base_backoff \<le> b" "b \<le> poll_max_backoff"
  shows "poll_base_backoff \<le> b' \<and> b' \<le> poll_max_backoff"
  using assms poll_backoff.next_bounds [of b] poll_backoff.base_cap
  by (cases r) (auto split: if_splits)

lemma register_processed [simp]: "processed_signals (register_task t st) = processed_signals st"
  by (simp add: register_task_def)

text \<open>What is started was not in flight, is started once, and fits the limit.\<close>

lemma dispatch_tasks_correct:
  assumes "dispatch_tasks mx tasks flight st = (flight', st', started)" and "distinct flight"
    and "int (length flight) \<le> max 0 mx"
  shows "distinct flight' \<and> int (length flight') \<le> max 0 mx
         \<and> flight' = rev (map pt_task_id started) @ flight
         \<and> set started \<subseteq> set tasks
         \<and> registered st' = set (map pt_task_id started) \<union> registered st
         \<and> processed_signals st' = processed_signals st"
  using assms
proof (induction mx tasks flight st arbitrary: flight' st' started rule: dispatch_tasks.induct)
  case (2 mx task tasks flight st)
  show ?case
  proof (cases "pt_task_id task \<in> set flight \<or> mx \<le> int (length flight)")
    case True
    show ?thesis
    proof (cases "pt_task_id task \<in> set flight")
      case True
      then have rest: "dispatch_tasks mx tasks flight st = (flight', st', started)" using 2(3) by simp
      show ?thesis
        using 2(1) [OF True rest 2(4,5)] by (elim conjE, intro conjI) (assumption | (simp, blast))+
    next
      case False
      then show ?thesis using True 2(3-5) by simp
    qed
  next
    case False
    obtain f s r where rest: "dispatch_tasks mx tasks (pt_task_id task # flight) (register_task (pt_task_id task) st) = (f, s, r)"
      by (cases "dispatch_tasks mx tasks (pt_task_id task # flight) (register_task (pt_task_id task) st)")
    then have eqs: "flight' = f" "st' = s" "started = task # r"
      using 2(3) False by simp_all
    have new: "pt_task_id task \<notin> set flight" "\<not> mx \<le> int (length flight)" using False by auto
    have d: "distinct (pt_task_id task # flight)" "int (length (pt_task_id task # flight)) \<le> max 0 mx"
      using 2(4,5) False by auto
    have ih: "distinct f \<and> int (length f) \<le> max 0 mx \<and> f = rev (map pt_task_id r) @ pt_task_id task # flight
        \<and> set r \<subseteq> set tasks \<and> registered s = set (map pt_task_id r) \<union> insert (pt_task_id task) (registered st)
        \<and> processed_signals s = processed_signals st"
      using 2(2) [OF new(1) new(2) rest d] unfolding registered_simps register_processed .
    show ?thesis
      unfolding eqs using ih by (elim conjE, intro conjI) (assumption | (simp, blast) | simp)+
  qed
qed auto

lemma dispatch_tasks_grows:
  "dispatch_tasks mx tasks flight st = (flight', st', started) \<Longrightarrow> set flight \<subseteq> set flight'"
  by (induction mx tasks flight st arbitrary: flight' st' started rule: dispatch_tasks.induct)
     (auto split: if_splits prod.splits)

text \<open>A task that is not in flight is started when there is room, or the limit is reached before it.\<close>

lemma dispatch_tasks_complete:
  assumes "dispatch_tasks mx tasks flight st = (flight', st', started)"
  shows "(\<forall>task \<in> set tasks. pt_task_id task \<in> set flight') \<or> mx \<le> int (length flight')"
  using assms
proof (induction mx tasks flight st arbitrary: flight' st' started rule: dispatch_tasks.induct)
  case (2 mx task tasks flight st)
  show ?case
  proof (cases "pt_task_id task \<in> set flight")
    case True
    then have rest: "dispatch_tasks mx tasks flight st = (flight', st', started)" using 2(3) by simp
    show ?thesis using 2(1) [OF True rest] dispatch_tasks_grows [OF rest] True by auto
  next
    case False
    note new = this
    show ?thesis
    proof (cases "mx \<le> int (length flight)")
      case True
      then show ?thesis using 2(3) new by simp
    next
      case False
      obtain f s r where rest: "dispatch_tasks mx tasks (pt_task_id task # flight) (register_task (pt_task_id task) st) = (f, s, r)"
        by (cases "dispatch_tasks mx tasks (pt_task_id task # flight) (register_task (pt_task_id task) st)")
      have "flight' = f" using 2(3) False new rest by simp
      then show ?thesis using 2(2) [OF new False rest] dispatch_tasks_grows [OF rest] by auto
    qed
  qed
qed simp

end
