(* ===== verification/Service_Pages.thy ===== *)
theory Service_Pages
  imports Routes Callbacks Poller
begin

text \<open>
  What the application has around its endpoints: the exception handlers of \<open>middleware/errors.py\<close>,
  the health page of \<open>health.py\<close>, the server's key pair of \<open>crypto.py\<close>, and the health page of the
  sidecar \<open>fleet_agent/health.py\<close>.
\<close>

section \<open>Exception handlers\<close>

text \<open>
  An error of pydantic: its items but \<open>ctx\<close>, and the items of \<open>ctx\<close> when that is a dictionary. They
  may be any Python objects, which \<open>str\<close> turns into text.
\<close>

record 'o validation_error =
  ve_fields :: dict
  ve_ctx :: "(string \<times> 'o) list option"

datatype 'o raised =
    Raised_Fleet fleet_error
  | Raised_Http int json
  | Raised_Validation "'o validation_error list"
  | Raised_Other 'o

definition sanitized :: "('o \<Rightarrow> string) \<Rightarrow> 'o validation_error \<Rightarrow> json" where
  "sanitized str_of err =
     JObj (ve_fields err @
       (case ve_ctx err of
          None \<Rightarrow> []
        | Some ctx \<Rightarrow> [(''ctx'', JObj (map (\<lambda>(k, v). (k, JStr (str_of v))) ctx))]))"

definition validation_error_handler :: "('o \<Rightarrow> string) \<Rightarrow> 'o validation_error list \<Rightarrow> int \<times> dict" where
  "validation_error_handler str_of errors =
     (let error = fleet_api_error INVALID_INPUT ''Request validation failed.''
                    (Some ''Check the request body against the expected schema.'') None None
      in (422, dict_set ''validation_errors'' (JArr (map (sanitized str_of) errors)) (error_to_dict error)))"

text \<open>\<open>str_detail\<close> is \<open>str(exc.detail)\<close>.\<close>

definition http_exception_handler :: "(json \<Rightarrow> string) \<Rightarrow> string \<Rightarrow> string \<Rightarrow> int \<Rightarrow> json \<Rightarrow> int \<times> dict" where
  "http_exception_handler str_detail method path status detail =
     (if status = 404 then
        (404, error_to_dict (fleet_api_error ENDPOINT_NOT_FOUND
            (''No endpoint found at '' @ method @ '' '' @ path)
            (Some ''Check the URL and method. Use GET /manifest to discover endpoints.'')
            (Some [(''manifest'', href ''/manifest'')]) None))
      else
        (status,
         [(''error'', JBool True),
          (''code'', JStr (''HTTP_'' @ int_str status)),
          (''message'', JStr (if truthy detail then str_detail detail else ''HTTP '' @ int_str status))]))"

definition unhandled_exception_handler :: "'o \<Rightarrow> int \<times> dict" where
  "unhandled_exception_handler exc =
     (500, error_to_dict (fleet_api_error EXECUTION_FAILED ''An internal error occurred.''
        (Some ''This is a transient error. Retry after a short delay.'') None None))"

definition error_response ::
    "(json \<Rightarrow> string) \<Rightarrow> ('o \<Rightarrow> string) \<Rightarrow> string \<Rightarrow> string \<Rightarrow> 'o raised \<Rightarrow> int \<times> dict" where
  "error_response str_detail str_of method path exc =
     (case exc of
        Raised_Fleet e \<Rightarrow> (fe_http_status e, error_to_dict e)
      | Raised_Http status detail \<Rightarrow> http_exception_handler str_detail method path status detail
      | Raised_Validation errors \<Rightarrow> validation_error_handler str_of errors
      | Raised_Other e \<Rightarrow> unhandled_exception_handler e)"

section \<open>The health page\<close>

text \<open>What the query \<open>SELECT 1\<close> met, with its latency and the clock after it.\<close>

datatype probe = Probe_Ok int time | Probe_Timeout int | Probe_Error string

definition check_database :: "probe \<Rightarrow> dict" where
  "check_database p =
     (case p of
        Probe_Ok latency_ms now \<Rightarrow>
          [(''status'', JStr ''operational''), (''latency_ms'', JInt latency_ms),
           (''last_successful_query'', JStr (isoformat now))]
      | Probe_Timeout latency_ms \<Rightarrow>
          [(''status'', JStr ''degraded''), (''latency_ms'', JInt latency_ms), (''error'', JStr ''timeout'')]
      | Probe_Error exc \<Rightarrow> [(''status'', JStr ''unhealthy''), (''error'', JStr exc)])"

definition graduate :: "(string \<times> dict) list \<Rightarrow> string" where
  "graduate components =
     (let statuses = map (\<lambda>(_, c). dict_get c ''status'') components
      in if JStr ''unhealthy'' \<in> set statuses then ''unhealthy''
         else if JStr ''degraded'' \<in> set statuses then ''degraded''
         else ''operational'')"

definition health_page :: "time \<Rightarrow> int \<Rightarrow> string \<Rightarrow> probe \<Rightarrow> int \<times> dict" where
  "health_page now uptime_seconds version p =
     (let components = [(''database'', check_database p)];
          status = graduate components;
          body = [(''status'', JStr status),
                  (''checked_at'', JStr (isoformat now)),
                  (''uptime_seconds'', JInt uptime_seconds),
                  (''version'', JStr version),
                  (''components'', JObj (map (\<lambda>(k, c). (k, JObj c)) components)),
                  (''_links'', JObj [(''self'', JStr ''/health''), (''manifest'', JStr ''/manifest''),
                                     (''status_page'', JStr ''/status'')])]
      in (if status = ''operational'' then 200 else 503, body))"

section \<open>The server's key pair\<close>

text \<open>
  The module keeps the pair once it has one. \<open>load_pem\<close> reads the environment variable (None for a text
  that is no key); \<open>generated\<close> is the key that \<open>generate\<close> would give.
\<close>

datatype 'k loaded = Ed25519 'k | Other_Key

type_synonym ('k, 'p) keypair = "('k \<times> 'p) option"

definition load_or_generate_keypair ::
    "('k \<Rightarrow> 'p) \<Rightarrow> (string \<Rightarrow> 'k loaded option) \<Rightarrow> string option \<Rightarrow> 'k \<Rightarrow> exn + 'k \<times> 'p" where
  "load_or_generate_keypair public_of load_pem env_key generated =
     (case env_key of
        None \<Rightarrow> Inr (generated, public_of generated)
      | Some pem \<Rightarrow>
          (case load_pem pem of
             None \<Rightarrow> Inl PythonError
           | Some Other_Key \<Rightarrow> Inl PythonError
           | Some (Ed25519 k) \<Rightarrow> Inr (k, public_of k)))"

definition ensure_keypair ::
    "('k \<Rightarrow> 'p) \<Rightarrow> (string \<Rightarrow> 'k loaded option) \<Rightarrow> string option \<Rightarrow> 'k \<Rightarrow> ('k, 'p) keypair
       \<Rightarrow> (exn + 'k \<times> 'p) \<times> ('k, 'p) keypair" where
  "ensure_keypair public_of load_pem env_key generated st =
     (case st of
        Some kp \<Rightarrow> (Inr kp, st)
      | None \<Rightarrow>
          (case load_or_generate_keypair public_of load_pem env_key generated of
             Inl e \<Rightarrow> (Inl e, None)
           | Inr kp \<Rightarrow> (Inr kp, Some kp)))"

definition reset_keypair :: "('k, 'p) keypair" where
  "reset_keypair = None"

text \<open>The getters of the pair, which make it when it is not there yet; \<open>pem\<close> writes a key as text.\<close>

definition get_server_private_key ::
    "('k \<Rightarrow> 'p) \<Rightarrow> (string \<Rightarrow> 'k loaded option) \<Rightarrow> string option \<Rightarrow> 'k \<Rightarrow> ('k, 'p) keypair
       \<Rightarrow> (exn + 'k) \<times> ('k, 'p) keypair" where
  "get_server_private_key public_of load_pem env_key generated st =
     (case ensure_keypair public_of load_pem env_key generated st of
        (Inl e, st') \<Rightarrow> (Inl e, st')
      | (Inr (priv, _), st') \<Rightarrow> (Inr priv, st'))"

definition get_server_public_key ::
    "('k \<Rightarrow> 'p) \<Rightarrow> (string \<Rightarrow> 'k loaded option) \<Rightarrow> string option \<Rightarrow> 'k \<Rightarrow> ('k, 'p) keypair
       \<Rightarrow> (exn + 'p) \<times> ('k, 'p) keypair" where
  "get_server_public_key public_of load_pem env_key generated st =
     (case ensure_keypair public_of load_pem env_key generated st of
        (Inl e, st') \<Rightarrow> (Inl e, st')
      | (Inr (_, pub), st') \<Rightarrow> (Inr pub, st'))"

definition get_server_public_key_pem ::
    "('p \<Rightarrow> string) \<Rightarrow> ('k \<Rightarrow> 'p) \<Rightarrow> (string \<Rightarrow> 'k loaded option) \<Rightarrow> string option \<Rightarrow> 'k \<Rightarrow> ('k, 'p) keypair
       \<Rightarrow> (exn + string) \<times> ('k, 'p) keypair" where
  "get_server_public_key_pem pem public_of load_pem env_key generated st =
     (case get_server_public_key public_of load_pem env_key generated st of
        (Inl e, st') \<Rightarrow> (Inl e, st')
      | (Inr pub, st') \<Rightarrow> (Inr (pem pub), st'))"

definition get_server_private_key_pem ::
    "('k \<Rightarrow> string) \<Rightarrow> ('k \<Rightarrow> 'p) \<Rightarrow> (string \<Rightarrow> 'k loaded option) \<Rightarrow> string option \<Rightarrow> 'k \<Rightarrow> ('k, 'p) keypair
       \<Rightarrow> (exn + string) \<times> ('k, 'p) keypair" where
  "get_server_private_key_pem pem public_of load_pem env_key generated st =
     (case get_server_private_key public_of load_pem env_key generated st of
        (Inl e, st') \<Rightarrow> (Inl e, st')
      | (Inr priv, st') \<Rightarrow> (Inr (pem priv), st'))"

text \<open>The invariant of the module: the kept public key is that of the kept private key.\<close>

definition keypair_ok :: "('k \<Rightarrow> 'p) \<Rightarrow> ('k, 'p) keypair \<Rightarrow> bool" where
  "keypair_ok public_of st = (case st of None \<Rightarrow> True | Some (k, p) \<Rightarrow> p = public_of k)"

lemma ensure_keypair_ok:
  "keypair_ok public_of st \<Longrightarrow> keypair_ok public_of (snd (ensure_keypair public_of load_pem env_key generated st))"
  by (auto simp: keypair_ok_def ensure_keypair_def load_or_generate_keypair_def
      split: option.splits sum.splits loaded.splits)

lemma ensure_keypair_kept:
  "fst (ensure_keypair public_of load_pem env_key generated st) = Inr kp \<Longrightarrow>
    snd (ensure_keypair public_of load_pem env_key generated st) = Some kp"
  by (auto simp: ensure_keypair_def split: option.splits sum.splits)

lemma private_key_kept:
  assumes "get_server_private_key public_of load_pem env_key generated st = (Inr k, st')"
  shows "\<exists>p. st' = Some (k, p)" and "st' = snd (ensure_keypair public_of load_pem env_key generated st)"
  using assms ensure_keypair_kept [of public_of load_pem env_key generated st]
  by (cases "ensure_keypair public_of load_pem env_key generated st"; auto simp: get_server_private_key_def split: sum.splits)+

lemma public_key_kept:
  assumes "get_server_public_key public_of load_pem env_key generated st = (Inr p, st')"
  shows "\<exists>k. st' = Some (k, p)" and "st' = snd (ensure_keypair public_of load_pem env_key generated st)"
  using assms ensure_keypair_kept [of public_of load_pem env_key generated st]
  by (cases "ensure_keypair public_of load_pem env_key generated st"; auto simp: get_server_public_key_def split: sum.splits)+

lemma ensure_keypair_again [simp]: "ensure_keypair public_of load_pem env_key generated (Some kp) = (Inr kp, Some kp)"
  by (simp add: ensure_keypair_def)

text \<open>An exported private key, given to another process in its environment, gives it the same pair.\<close>

lemma exported_key_loaded:
  assumes "\<And>k. load_pem (pem k) = Some (Ed25519 k)" and "keypair_ok public_of st"
    and "get_server_private_key_pem pem public_of load_pem env_key generated st = (Inr key_text, st')"
  shows "ensure_keypair public_of load_pem (Some key_text) generated' None = (Inr (the st'), st')"
proof -
  obtain k where k: "get_server_private_key public_of load_pem env_key generated st = (Inr k, st')" "key_text = pem k"
    using assms(3) by (auto simp: get_server_private_key_pem_def split: prod.splits sum.splits)
  obtain p where p: "st' = Some (k, p)" using private_key_kept(1) [OF k(1)] by blast
  have "keypair_ok public_of st'" unfolding private_key_kept(2) [OF k(1)] by (rule ensure_keypair_ok [OF assms(2)])
  then show ?thesis
    by (simp add: p k(2) ensure_keypair_def load_or_generate_keypair_def assms(1) keypair_ok_def)
qed

section \<open>The sidecar's health page\<close>

text \<open>What the probe of the service met: a status with the elapsed microseconds, a connection error or
  timeout, another exception.\<close>

datatype api_probe = Api_Reply int int | Api_Unreachable | Api_Error

definition check_fleet_api :: "string \<Rightarrow> api_probe \<Rightarrow> exn + bool \<times> int option" where
  "check_fleet_api fleet_api_url p =
     (if fleet_api_url = [] then Inr (False, None)
      else
        (case p of
           Api_Reply status elapsed \<Rightarrow> Inr (status = 200, Some elapsed)
         | Api_Unreachable \<Rightarrow> Inr (False, None)
         | Api_Error \<Rightarrow> Inl PythonError))"

text \<open>5 seconds, in microseconds.\<close>

definition DEGRADED_LATENCY_THRESHOLD :: int where
  "DEGRADED_LATENCY_THRESHOLD = seconds 5"

record sidecar_health =
  sh_url :: string
  sh_agent_id :: string
  sh_poller :: "(bool \<times> nat) option" \<comment> \<open>running, active tasks\<close>
  sh_uptime_seconds :: int

definition sidecar_status :: "bool \<Rightarrow> bool \<Rightarrow> int option \<Rightarrow> string" where
  "sidecar_status poller_running fleet_reachable latency =
     (if \<not> poller_running \<or> \<not> fleet_reachable then ''unhealthy''
      else if (case latency of None \<Rightarrow> False | Some n \<Rightarrow> DEGRADED_LATENCY_THRESHOLD < n) then ''degraded''
      else ''healthy'')"

definition sidecar_health_page :: "sidecar_health \<Rightarrow> api_probe \<Rightarrow> exn + dict" where
  "sidecar_health_page h p =
     (case check_fleet_api (sh_url h) p of
        Inl e \<Rightarrow> Inl e
      | Inr (fleet_reachable, latency) \<Rightarrow>
          (let poller_running = (case sh_poller h of None \<Rightarrow> False | Some (r, _) \<Rightarrow> r);
               active_tasks = (case sh_poller h of None \<Rightarrow> 0 | Some (_, n) \<Rightarrow> n)
           in Inr [(''status'', JStr (sidecar_status poller_running fleet_reachable latency)),
                   (''agent_id'', JStr (sh_agent_id h)),
                   (''fleet_api_url'', JStr (sh_url h)),
                   (''fleet_api_reachable'', JBool fleet_reachable),
                   (''poller_running'', JBool poller_running),
                   (''active_tasks'', JInt (int active_tasks)),
                   (''uptime_seconds'', JInt (sh_uptime_seconds h)),
                   (''fleet_api_latency_ms'', jopt_int (map_option (\<lambda>n. n div 1000) latency))]))"

end
