(* ===== verification/Api_Server.thy ===== *)
theory Api_Server
  imports Request_Bodies Service_Pages Board
begin

text \<open>
  The whole HTTP server of \<open>app.py\<close>: a request is routed, its body is read, it is authenticated when the
  route wants that, its parameters and body are validated, and the endpoint runs on the database.
  The refinement to the calls of \<open>System\<close> shows that nothing but these calls is behind the routes.
\<close>

section \<open>The server\<close>

text \<open>
  What the server uses of other code: the signature check, the digest and the timestamps; the JSON reader;
  jsonschema, Python's \<open>repr\<close> and pydantic's datetimes; the query string reader; pydantic's coercions;
  and what the pages without a signature show of the process.
\<close>

record externals =
  sv_verify :: "bytes \<Rightarrow> bytes \<Rightarrow> bytes \<Rightarrow> bool"
  sv_sha256 :: "bytes \<Rightarrow> string"
  sv_fromisoformat :: "string \<Rightarrow> time option"
  sv_parse :: "bytes \<Rightarrow> json option"
  sv_validate :: "dict \<Rightarrow> dict \<Rightarrow> schema_outcome"
  sv_repr :: "json \<Rightarrow> string"
  sv_dump_time :: "time \<Rightarrow> string"
  sv_query :: "string \<Rightarrow> (string \<times> string) list"
  sv_coercions :: coercions
  sv_uptime :: "env \<Rightarrow> int"
  sv_probe :: "env \<Rightarrow> probe"
  sv_public_pem :: string

text \<open>The headers beyond those of the authentication, by name.\<close>

type_synonym headers = "string \<Rightarrow> string option"

section \<open>Endpoints\<close>

definition unprocessable :: "db \<Rightarrow> answer \<times> db" where
  "unprocessable d = (Inl (Fleet INVALID_INPUT), d)"

text \<open>A required body, and one that may be left out or null.\<close>

definition with_body :: "(dict \<Rightarrow> 'a option) \<Rightarrow> json option \<Rightarrow> ('a \<Rightarrow> answer \<times> db) \<Rightarrow> db \<Rightarrow> answer \<times> db" where
  "with_body model body run d =
     (case body of
        Some (JObj items) \<Rightarrow> (case model items of None \<Rightarrow> unprocessable d | Some x \<Rightarrow> run x)
      | _ \<Rightarrow> unprocessable d)"

definition with_optional_body ::
    "(dict \<Rightarrow> 'a option) \<Rightarrow> json option \<Rightarrow> ('a option \<Rightarrow> answer \<times> db) \<Rightarrow> db \<Rightarrow> answer \<times> db" where
  "with_optional_body model body run d =
     (case body of
        None \<Rightarrow> run None
      | Some JNull \<Rightarrow> run None
      | Some (JObj items) \<Rightarrow> (case model items of None \<Rightarrow> unprocessable d | Some x \<Rightarrow> run (Some x))
      | _ \<Rightarrow> unprocessable d)"

definition reading :: "(db \<Rightarrow> answer) \<Rightarrow> db \<Rightarrow> answer \<times> db" where
  "reading f d = (f d, d)"

text \<open>
  The endpoints that know their caller. The stream's answer is its status: what it sends is
  \<open>event_stream\<close>, over the databases of its polls.
\<close>

definition last_event_id :: "coercions \<Rightarrow> headers \<Rightarrow> int option option" where
  "last_event_id co headers =
     (case headers ''Last-Event-Id'' of None \<Rightarrow> Some None | Some s \<Rightarrow> map_option Some (co_int_text co s))"

definition stream_endpoint :: "coercions \<Rightarrow> settings \<Rightarrow> string \<Rightarrow> string \<Rightarrow> headers \<Rightarrow> db \<Rightarrow> answer" where
  "stream_endpoint co cfg workflow_id task_id headers d =
     (case last_event_id co headers of
        None \<Rightarrow> Inl (Fleet INVALID_INPUT)
      | Some seen \<Rightarrow>
          (case stream_task_events cfg workflow_id task_id seen d (d, d) [] of
             Inl e \<Rightarrow> Inl e
           | Inr _ \<Rightarrow> Inr (200, [])))"

definition call_endpoint ::
    "externals \<Rightarrow> env \<Rightarrow> headers \<Rightarrow> (string \<times> string) list \<Rightarrow> json option \<Rightarrow> string \<Rightarrow> endpoint \<Rightarrow> string
       \<Rightarrow> string \<Rightarrow> db \<Rightarrow> answer \<times> db" where
  "call_endpoint sv env headers params body agent e arg1 arg2 d =
     (let co = sv_coercions sv; key = headers ''Idempotency-Key''
      in case e of
        Agent_Heartbeat \<Rightarrow> heartbeat_endpoint (sv_dump_time sv) env agent arg1 d
      | Pending_Tasks \<Rightarrow> reading (get_pending_endpoint env agent arg1) d
      | Create_Workflow \<Rightarrow>
          with_body (workflow_create_of co) body (\<lambda>(wid, f). create_workflow_endpoint env agent wid f d) d
      | List_Workflows \<Rightarrow>
          (case limit_param co params of
             None \<Rightarrow> unprocessable d
           | Some limit \<Rightarrow>
               reading (\<lambda>d. list_workflows_endpoint (sv_repr sv) d (param params ''status'') (param params ''owner'')
                              (param params ''tag'') limit (param params ''cursor'')) d)
      | Get_Workflow \<Rightarrow> reading (\<lambda>d. get_workflow_endpoint d arg1) d
      | Update_Workflow \<Rightarrow>
          with_body (workflow_update_of co) body (\<lambda>ch. update_workflow_endpoint env agent arg1 ch d) d
      | Run_Task \<Rightarrow>
          with_body (run_request_of co) body
            (\<lambda>r. run_task_endpoint (sv_validate sv) env agent arg1 r key d) d
      | Get_Task \<Rightarrow> reading (\<lambda>d. get_task_endpoint d arg1 arg2) d
      | List_Tasks \<Rightarrow>
          (case list_query_of co params of
             None \<Rightarrow> unprocessable d
           | Some q \<Rightarrow> reading (\<lambda>d. list_tasks_endpoint (sv_repr sv) (sv_fromisoformat sv) d arg1 q) d)
      | Cancel_Task \<Rightarrow>
          with_optional_body reason_of body (\<lambda>b. cancel_task_endpoint env agent arg1 arg2 b d) d
      | Retask_Task \<Rightarrow>
          with_body retask_request_of body (\<lambda>r. retask_task_endpoint env agent arg1 arg2 r key d) d
      | Redirect_Task \<Rightarrow>
          with_body (redirect_request_of co) body (\<lambda>r. redirect_task_endpoint env agent arg1 arg2 r key d) d
      | Pause_Task \<Rightarrow>
          with_optional_body reason_of body (\<lambda>b. pause_task_endpoint env agent arg1 arg2 b d) d
      | Resume_Task \<Rightarrow>
          with_optional_body resume_priority_of body (\<lambda>b. resume_task_endpoint env agent arg1 arg2 b d) d
      | Inject_Context \<Rightarrow>
          with_body (context_request_of co) body (\<lambda>r. inject_context_endpoint env agent arg1 arg2 r d) d
      | Post_Task_Event \<Rightarrow>
          with_body (event_request_of co) body (\<lambda>r. post_task_event env agent arg1 r d) d
      | Stream_Task_Events \<Rightarrow> reading (stream_endpoint co (env_settings env) arg1 arg2 headers) d
      | _ \<Rightarrow> (Inl PythonError, d))"

text \<open>
  The endpoints that do not use their caller. Every other one reads \<open>agent.agent_id\<close> or refuses a missing
  agent: without one it ends in an exception.
\<close>

definition endpoint_answer ::
    "externals \<Rightarrow> env \<Rightarrow> headers \<Rightarrow> (string \<times> string) list \<Rightarrow> json option \<Rightarrow> string option \<Rightarrow> endpoint \<Rightarrow> string list
       \<Rightarrow> db \<Rightarrow> answer \<times> db" where
  "endpoint_answer sv env headers params body agent e args d =
     (let arg1 = (case args of [] \<Rightarrow> [] | a # _ \<Rightarrow> a); arg2 = (case args of _ # b # _ \<Rightarrow> b | _ \<Rightarrow> [])
      in if e = Health then
           (Inr (health_page (env_now_utc env) (sv_uptime sv env) (cfg_api_version (env_settings env)) (sv_probe sv env)), d)
         else if e = Manifest then
           (Inr (200, build_manifest (cfg_base_url (env_settings env)) (cfg_api_version (env_settings env)) (sv_public_pem sv)), d)
         else if e = Root then (Inr (200, [(''status'', JStr ''ok'')]), d)
         else if e = Register_Agent then
           with_body register_request_of body (\<lambda>r. register_endpoint (sv_dump_time sv) env r d) d
         else if e = Get_Agent then reading (\<lambda>d. get_agent_endpoint (sv_dump_time sv) d arg1) d
         else
           (case agent of
              None \<Rightarrow> (Inl PythonError, d)
            | Some a \<Rightarrow> call_endpoint sv env headers params body a e arg1 arg2 d))"

section \<open>Requests\<close>

text \<open>The endpoints with a body; only there the framework reads it. It is read before anything else.\<close>

definition has_body :: "endpoint \<Rightarrow> bool" where
  "has_body e = (e \<in> {Register_Agent, Create_Workflow, Update_Workflow, Run_Task, Cancel_Task, Retask_Task,
                       Redirect_Task, Pause_Task, Resume_Task, Inject_Context, Post_Task_Event})"

definition read_body :: "externals \<Rightarrow> endpoint \<Rightarrow> bytes \<Rightarrow> json option option" where
  "read_body sv e raw =
     (if \<not> has_body e \<or> raw = [] then Some None else map_option Some (sv_parse sv raw))"

text \<open>A status, and the body of an answer; the bodies of errors are those of \<open>error_response\<close>.\<close>

type_synonym response = "int \<times> dict option"

definition response_of :: "answer \<times> db \<Rightarrow> response \<times> db" where
  "response_of r =
     (case r of
        (Inl e, d) \<Rightarrow> ((exn_status e, None), d)
      | (Inr (status, body), d) \<Rightarrow> ((status, Some body), d))"

definition authenticate :: "externals \<Rightarrow> env \<Rightarrow> request \<Rightarrow> db \<Rightarrow> auth_outcome" where
  "authenticate sv env request d =
     require_auth (get_agent_public_key d) (is_agent_suspended d) (sv_verify sv) (sv_sha256 sv)
       (sv_fromisoformat sv) (env_now_utc env) request"

definition serve :: "externals \<Rightarrow> env \<Rightarrow> request \<Rightarrow> headers \<Rightarrow> db \<Rightarrow> response \<times> db" where
  "serve sv env request headers d =
     (case find_route (r_method request) (r_path request) of
        Unknown_Path \<Rightarrow> ((404, None), d)
      | Wrong_Method \<Rightarrow> ((405, None), d)
      | Found r args \<Rightarrow>
          (case read_body sv (ro_endpoint r) (r_body request) of
             None \<Rightarrow> ((422, None), d)
           | Some body \<Rightarrow>
               (let run = (\<lambda>agent. response_of
                             (endpoint_answer sv env headers (sv_query sv (r_query request)) body agent
                                (ro_endpoint r) args d))
                in if ro_protected r then
                     (case authenticate sv env request d of
                        Anonymous \<Rightarrow> run None
                      | Denied code status \<Rightarrow> ((status, None), d)
                      | AuthCrash e \<Rightarrow> ((exn_status e, None), d)
                      | Authenticated agent key \<Rightarrow> run (Some agent))
                   else run None)))"

section \<open>The calls behind the endpoints\<close>

text \<open>What an endpoint does to the database: nothing, or one call by its caller. Registration and the
  monitor's sweep have no caller.\<close>

fun signed_call :: "call \<Rightarrow> bool" where
  "signed_call (RegisterAgent body) = False"
| "signed_call (Sweep ids) = False"
| "signed_call c = True"

definition called :: "(dict \<Rightarrow> dict \<Rightarrow> schema_outcome) \<Rightarrow> env \<Rightarrow> string \<Rightarrow> db \<Rightarrow> db \<Rightarrow> bool" where
  "called validate env agent d d' =
     (d' = d \<or> (\<exists>c. signed_call c \<and> caller_of c = agent \<and> d' = handle validate env c d))"

lemma called_refl [simp]: "called validate env agent d d"
  by (simp add: called_def)

lemma calledI: "signed_call c \<Longrightarrow> caller_of c = agent \<Longrightarrow> handle validate env c d = d' \<Longrightarrow> called validate env agent d d'"
  by (auto simp: called_def)

lemma reading_db [simp]: "snd (reading f d) = d"
  by (simp add: reading_def)

lemma with_body_called:
  "(\<And>x. called validate env agent d (snd (run x))) \<Longrightarrow> called validate env agent d (snd (with_body model body run d))"
  by (auto simp: with_body_def unprocessable_def split: option.splits json.splits)

lemma with_optional_body_called:
  "(\<And>x. called validate env agent d (snd (run x))) \<Longrightarrow>
    called validate env agent d (snd (with_optional_body model body run d))"
  by (auto simp: with_optional_body_def unprocessable_def split: option.splits json.splits)

lemma heartbeat_called: "called validate env agent d (snd (heartbeat_endpoint dump env agent aid d))"
  by (rule calledI [where c = "Heartbeat agent aid"])
     (auto simp: heartbeat_endpoint_def split: prod.splits sum.splits)

lemma workflows_called:
  "called validate env agent d (snd (create_workflow_endpoint env agent wid f d))"
  "called validate env agent d (snd (update_workflow_endpoint env agent wid ch d))"
  by (auto simp: create_workflow_endpoint_def update_workflow_endpoint_def
      intro: calledI [where c = "CreateWorkflow wid agent f"] calledI [where c = "UpdateWorkflow wid agent ch"])

lemma run_task_called: "called validate env agent d (snd (run_task_endpoint validate env agent wid r key d))"
  by (auto simp: run_task_endpoint_def Let_def intro!: calledI [where c = "CreateTask wid agent (run_input r)
      (run_executor r) (run_priority r) (run_timeout r) (opt_str_or key (run_key r)) (run_metadata r) (run_callback r)"])

lemma lifecycle_called:
  "called validate env agent d (snd (cancel_task_endpoint env agent wid tid b d))"
  "called validate env agent d (snd (pause_task_endpoint env agent wid tid b d))"
  "called validate env agent d (snd (resume_task_endpoint env agent wid tid b d))"
  by (simp_all add: cancel_task_endpoint_def pause_task_endpoint_def resume_task_endpoint_def Let_def)
     (rule calledI [where c = "CancelTask wid tid agent _"] calledI [where c = "PauseTask wid tid agent _"]
        calledI [where c = "ResumeTask wid tid agent _"], simp_all)+

lemma successors_called:
  "called validate env agent d (snd (retask_task_endpoint env agent wid tid r key d))"
  "called validate env agent d (snd (redirect_task_endpoint env agent wid tid r' key d))"
  by (simp_all add: retask_task_endpoint_def redirect_task_endpoint_def)
     (rule calledI [where c = "RetaskTask wid tid agent _ _ _"] calledI [where c = "RedirectTask wid tid agent _ _ _ _ _"],
        simp_all)+

lemma inject_called: "called validate env agent d (snd (inject_context_endpoint env agent wid tid r d))"
  by (auto simp: inject_context_endpoint_def Let_def intro!: calledI [where c = "InjectContext wid tid agent _ _ _ _"])

lemma event_called: "called validate env agent d (snd (post_task_event env agent tid r d))"
  by (auto simp: post_task_event_def intro!: calledI [where c = "SidecarEvent tid _ _ _ agent"])

lemmas endpoints_called = heartbeat_called workflows_called run_task_called lifecycle_called successors_called
  inject_called event_called

lemma call_endpoint_called:
  "called (sv_validate sv) env agent d (snd (call_endpoint sv env headers params body agent e arg1 arg2 d))"
  by (cases e)
     (auto simp: call_endpoint_def Let_def unprocessable_def split: option.splits
       intro!: with_body_called with_optional_body_called endpoints_called)

text \<open>Only a registration runs without a caller.\<close>

lemma endpoint_answer_called:
  "snd (endpoint_answer sv env headers params body agent e args d) = d
   \<or> e = Register_Agent
      \<and> (\<exists>r. snd (endpoint_answer sv env headers params body agent e args d) = handle (sv_validate sv) env (RegisterAgent r) d)
   \<or> (\<exists>x. agent = Some x
        \<and> called (sv_validate sv) env x d (snd (endpoint_answer sv env headers params body agent e args d)))"
  using call_endpoint_called [of sv env _ d headers params body e]
  by (auto simp: endpoint_answer_def Let_def with_body_def unprocessable_def register_endpoint_def
      split: option.splits json.splits)

lemma response_of_db [simp]: "snd (response_of r) = snd r"
  by (cases r; cases "fst r") (auto simp: response_of_def)

text \<open>A request is one call of the authenticated agent, a registration, or nothing.\<close>

lemma register_route_open:
  "r \<in> set app_routes \<Longrightarrow> ro_endpoint r = Register_Agent \<longleftrightarrow> r = open_route ''POST'' [Lit ''agents'', Lit ''register''] Register_Agent"
  by (auto simp: app_routes_defs)

end
