(* ===== verification/Sidecar_System.thy ===== *)
theory Sidecar_System
  imports Handler_Output Registration Registry_Correct Outcomes Api_Server
begin

text \<open>
  The sidecar and the server together: the HTTP server of \<open>Api_Server\<close> as the network behind the
  sidecar's client, and the coroutines of the sidecar as a transition system.
\<close>

section \<open>The network\<close>

text \<open>
  The \<open>n\<close>th request meets the server in the environment \<open>envs n\<close>, and nothing else changes the database
  between the requests of the sidecar. The client reads the body of a success as the server wrote it.
\<close>

definition network :: "externals \<Rightarrow> (nat \<Rightarrow> env) \<Rightarrow> request \<Rightarrow> nat \<times> db \<Rightarrow> reply \<times> nat \<times> db" where
  "network sv envs request s =
     (case s of (n, d) \<Rightarrow>
        (let ((status, body), d') = serve sv (envs n) request (\<lambda>_. None) d
         in (Reply status (map_option JObj body), Suc n, d')))"

text \<open>
  What has to hold for the two to work together: the client talks to the server, the signature
  scheme verifies what it signed, the server reads the JSON the client wrote (pydantic's and the
  standard library's), its models read integers as they are, and the clocks agree within the replay
  window.
\<close>

definition linked :: "('sk, nat \<times> db) client \<Rightarrow> externals \<Rightarrow> (nat \<Rightarrow> env) \<Rightarrow> bool" where
  "linked cl sv envs =
     (cl_send cl = network sv envs \<and> cl_sha256 cl = sv_sha256 sv
      \<and> (let pk = cl_public_bytes cl (cl_private_key cl); sign = cl_sign cl (cl_private_key cl)
         in length pk = 32 \<and> (\<forall>m. sv_verify sv pk (sign m) m \<and> sign m \<noteq> []))
      \<and> (\<forall>v. wf_json v \<longrightarrow> cl_dump cl v \<noteq> [] \<and> sv_parse sv (cl_dump cl v) = Some v)
      \<and> (\<forall>v. wf_json v \<longrightarrow> sv_parse sv (utf8 (json_dumps v)) = Some v)
      \<and> coercions_ok (sv_coercions sv)
      \<and> (\<forall>s. sv_fromisoformat sv (isoformat (cl_clock cl s)) = Some (cl_clock cl s))
      \<and> (\<forall>n d. \<bar>env_now_utc (envs n) - cl_clock cl (n, d)\<bar> \<le> REPLAY_WINDOW)
      \<and> cl_agent_id cl \<noteq> [] \<and> CHR '':'' \<notin> set (cl_agent_id cl) \<and> CHR ''/'' \<notin> set (cl_agent_id cl))"

text \<open>The sidecar's agent is registered with its key and not suspended.\<close>

definition enrolled :: "('sk, 's) client \<Rightarrow> db \<Rightarrow> bool" where
  "enrolled cl d =
     (case get_agent d (cl_agent_id cl) of
        None \<Rightarrow> False
      | Some agent \<Rightarrow> a_public_key agent = b64encode (cl_public_bytes cl (cl_private_key cl))
                      \<and> a_status agent \<noteq> SUSPENDED)"

text \<open>What an event does, without the network.\<close>

definition deliver :: "env \<Rightarrow> string \<Rightarrow> string \<Rightarrow> int \<Rightarrow> sidecar_event \<Rightarrow> db \<Rightarrow> db" where
  "deliver env agent task_id sequence event d =
     (case ev_data event of
        None \<Rightarrow> d
      | Some data \<Rightarrow> snd (run_tx (process_sidecar_event env task_id (ev_type event) data sequence agent d) d))"

fun deliver_all :: "(nat \<Rightarrow> env) \<Rightarrow> nat \<Rightarrow> string \<Rightarrow> string \<Rightarrow> int \<Rightarrow> sidecar_event list \<Rightarrow> db \<Rightarrow> db" where
  "deliver_all envs n agent task_id sequence [] d = d"
| "deliver_all envs n agent task_id sequence (event # events) d =
     deliver_all envs (Suc n) agent task_id (sequence + 1) events
       (deliver (envs n) agent task_id (sequence + 1) event d)"

section \<open>Signed requests\<close>

lemma signed_path_granted:
  assumes "linked cl sv envs" and "enrolled cl d" and "path \<notin> set unprotected_paths"
  shows "authenticate sv (envs n) (signed_request cl method path body (n, d)) d
         = Authenticated (cl_agent_id cl) (cl_public_bytes cl (cl_private_key cl))"
proof -
  obtain agent where agent: "get_agent d (cl_agent_id cl) = Some agent"
      "a_public_key agent = b64encode (cl_public_bytes cl (cl_private_key cl))" "a_status agent \<noteq> SUSPENDED"
    using assms(2) by (auto simp: enrolled_def split: option.splits)
  obtain auth ts where s: "sign_request (cl_sign cl) (cl_sha256 cl) (cl_clock cl (n, d)) method path body
      (cl_private_key cl) (cl_agent_id cl) = (auth, ts)" by force
  have link: "length (cl_public_bytes cl (cl_private_key cl)) = 32" "cl_sha256 cl = sv_sha256 sv"
    "\<And>m. sv_verify sv (cl_public_bytes cl (cl_private_key cl)) (cl_sign cl (cl_private_key cl) m) m"
    "\<And>m. cl_sign cl (cl_private_key cl) m \<noteq> []"
    "sv_fromisoformat sv (isoformat (cl_clock cl (n, d))) = Some (cl_clock cl (n, d))"
    "\<bar>env_now_utc (envs n) - cl_clock cl (n, d)\<bar> \<le> REPLAY_WINDOW" "cl_agent_id cl \<noteq> []" "CHR '':'' \<notin> set (cl_agent_id cl)"
    using assms(1) by (auto simp: linked_def Let_def)
  show ?thesis
    unfolding authenticate_def signed_request_def s Let_def prod.case link(2) [symmetric]
    by (rule signed_granted [where pk = "cl_public_bytes cl" and sk = "cl_private_key cl", OF s])
       (use link agent assms(3) in simp_all)
qed

lemma signed_request_fields [simp]:
  "r_method (signed_request cl m path body s) = m" "r_path (signed_request cl m path body s) = path"
  "r_query (signed_request cl m path body s) = []" "r_body (signed_request cl m path body s) = body"
  by (simp_all add: signed_request_def split: prod.splits)

text \<open>A signed request of an enrolled sidecar to a protected route runs the endpoint as its agent.\<close>

lemma serve_signed:
  assumes link: "linked cl sv envs" and enrolled: "enrolled cl d"
    and r: "r \<in> set app_routes" "ro_protected r" "args_ok (ro_template r) args"
    and path: "fill (ro_template r) args \<notin> set unprotected_paths" and body: "read_body sv (ro_endpoint r) raw = Some body"
  shows "serve sv (envs n) (signed_request cl (ro_method r) (fill (ro_template r) args) raw (n, d)) headers d
         = response_of (endpoint_answer sv (envs n) headers (sv_query sv []) body (Some (cl_agent_id cl))
                          (ro_endpoint r) args d)"
  by (simp add: serve_def find_route_fill [OF r(1,3)] body r(2) Let_def
      signed_path_granted [OF link enrolled path])

definition task_path_ok :: "string \<Rightarrow> bool" where
  "task_path_ok tid = (tid \<noteq> [] \<and> CHR ''/'' \<notin> set tid)"

lemma linked_agent_path: "linked cl sv envs \<Longrightarrow> task_path_ok (cl_agent_id cl)"
  by (simp add: linked_def task_path_ok_def)

lemmas serve_signed_route = serve_signed [where r = "protected_route _ _ _", simplified protected_route_def route.simps]

section \<open>One event through the network\<close>

text \<open>What the endpoint makes of an event of the assigned executor: a status below 500, and the event's
  own effect.\<close>

lemma post_stale_event:
  assumes "get_task d tid = Some t" and "t_executor t = Some agent" and "0 < k" and "k \<le> max_sequence d tid"
  shows "post_task_event env agent tid \<lparr>er_type = ty, er_data = data, er_sequence = k\<rparr> d = (Inl (Fleet INVALID_INPUT), d)"
  using assms by (simp add: post_task_event_def respond_def process_sidecar_event_def)

lemma post_task_event_cases:
  assumes "db_inv mx d" and "get_task d tid = Some t" and "t_executor t = Some agent" and "int4 k" and "0 < k"
  shows "answer_status (fst (post_task_event env agent tid \<lparr>er_type = ty, er_data = data, er_sequence = k\<rparr> d)) < 500
         \<and> snd (post_task_event env agent tid \<lparr>er_type = ty, er_data = data, er_sequence = k\<rparr> d)
             = snd (run_tx (process_sidecar_event env tid ty data k agent d) d)"
proof -
  have "fst (run_tx (process_sidecar_event env tid ty data k agent d) d) \<in> {Inl (Fleet INVALID_INPUT), Inl (Fleet INVALID_STATE_TRANSITION)} \<union> range Inr"
  proof (cases "ty \<in> set valid_event_types \<and> max_sequence d tid < k \<and> (\<exists>t'. apply_event env ty data t = Inr t')")
    case True
    then obtain t' where "apply_event env ty data t = Inr t'" by blast
    then show ?thesis using sidecar_accepted [OF assms(1-3) _ _ assms(4)] True by force
  next
    case False
    have "apply_event env ty data t = Inl e \<Longrightarrow> e = Fleet INVALID_INPUT \<or> e = Fleet INVALID_STATE_TRANSITION" for e
      by (auto simp: apply_event_def Let_def split: if_splits option.splits sum.splits)
    then show ?thesis
      using False assms(2,3) by (auto simp: process_sidecar_event_def split: sum.splits)
  qed
  then show ?thesis
    using assms(5)
    by (cases "run_tx (process_sidecar_event env tid ty data k agent d) d")
       (auto simp: post_task_event_def respond_def answer_status_def split: prod.splits sum.splits)
qed

definition serving :: "('sk, 's) client \<Rightarrow> int \<Rightarrow> string \<Rightarrow> db \<Rightarrow> bool" where
  "serving cl mx tid d =
     (db_inv mx d \<and> enrolled cl d \<and> (\<exists>t. get_task d tid = Some t \<and> t_executor t = Some (cl_agent_id cl)))"

text \<open>The server's reading of an event: one without data is no valid body.\<close>

lemma request_of_event_json:
  assumes "coercions_ok co"
  shows "with_body (event_request_of co) (Some (event_json ev)) run d =
     (case ev_data ev of
        None \<Rightarrow> unprocessable d
      | Some data \<Rightarrow> run \<lparr>er_type = ev_type ev, er_data = data, er_sequence = ev_sequence ev\<rparr>)"
  using assms
  by (cases "ev_data ev") (simp_all add: with_body_def event_request_of_def event_json_def field_defs coercions_ok_def)

lemma serve_event:
  assumes link: "linked cl sv envs" and "enrolled cl d" and tid: "task_path_ok tid" and ev: "data_wf ev"
  shows "post_attempt cl tid ev (n, d) =
     (let answer = (case ev_data ev of
                      None \<Rightarrow> unprocessable d
                    | Some data \<Rightarrow> post_task_event (envs n) (cl_agent_id cl) tid
                        \<lparr>er_type = ev_type ev, er_data = data, er_sequence = ev_sequence ev\<rparr> d);
          ((status, body), d') = response_of answer
      in (Reply status (map_option JObj body), Suc n, d'))"
proof -
  let ?r = "protected_route ''POST'' [Lit ''tasks'', Param, Lit ''events''] Post_Task_Event"
  have wf: "wf_json (event_json ev)"
    using ev by (auto simp: event_json_def data_wf_def split: option.splits)
  have body: "read_body sv Post_Task_Event (cl_dump cl (event_json ev)) = Some (Some (event_json ev))"
    using link wf by (simp add: linked_def read_body_def has_body_def)
  have path: "fill (ro_template ?r) [tid] = events_path tid"
    by (simp add: protected_route_def events_path_def)
  have route: "?r \<in> set app_routes" "ro_protected ?r" "args_ok (ro_template ?r) [tid]"
    "fill (ro_template ?r) [tid] \<notin> set unprotected_paths"
    using tid by (simp_all add: app_routes_def task_routes_def)
       (simp_all add: protected_route_def args_ok_def task_path_ok_def unprotected_paths_def)
  have send: "cl_send cl = network sv envs" "coercions_ok (sv_coercions sv)"
    using link by (simp_all add: linked_def)
  have served: "serve sv (envs n) (signed_request cl ''POST'' (events_path tid) (cl_dump cl (event_json ev)) (n, d)) (\<lambda>_. None) d
      = response_of (endpoint_answer sv (envs n) (\<lambda>_. None) (sv_query sv []) (Some (event_json ev))
          (Some (cl_agent_id cl)) Post_Task_Event [tid] d)"
    using serve_signed [OF link assms(2) route, where raw = "cl_dump cl (event_json ev)" and body = "Some (event_json ev)"] body
    unfolding path by (simp add: protected_route_def)
  show ?thesis
    unfolding post_attempt_def send network_def prod.case served
    by (simp add: endpoint_answer_def call_endpoint_def request_of_event_json [OF send(2)] Let_def)
qed

lemma serve_event_of:
  assumes link: "linked cl sv envs" and serving: "serving cl mx tid d"
    and tid: "task_path_ok tid" and ev: "data_wf ev" and k: "ev_sequence ev = k" "int4 k" "0 < k"
  shows "\<exists>st body. st < 500 \<and> (k \<le> max_sequence d tid \<longrightarrow> st = 422)
           \<and> post_attempt cl tid ev (n, d)
           = (Reply st body, Suc n, deliver (envs n) (cl_agent_id cl) tid k ev d)"
proof -
  obtain t where d: "db_inv mx d" "enrolled cl d" "get_task d tid = Some t" "t_executor t = Some (cl_agent_id cl)"
    using serving by (auto simp: serving_def)
  note served = serve_event [OF link d(2) tid ev, of n]
  show ?thesis
  proof (cases "ev_data ev")
    case None
    then show ?thesis by (simp add: served unprocessable_def response_of_def deliver_def)
  next
    case (Some data)
    let ?a = "post_task_event (envs n) (cl_agent_id cl) tid \<lparr>er_type = ev_type ev, er_data = data, er_sequence = k\<rparr> d"
    have "\<exists>body. response_of ?a = ((answer_status (fst ?a), body), snd ?a)"
      by (cases ?a; cases "fst ?a") (auto simp: response_of_def answer_status_def)
    then show ?thesis
      using post_task_event_cases [OF d(1,3,4) k(2,3), of "envs n" "ev_type ev" data] Some k(1)
        post_stale_event [OF d(3,4) k(3), of "envs n" "ev_type ev" data]
      by (auto simp: served deliver_def answer_status_def)
  qed
qed

lemma post_event_answered:
  assumes "post_attempt cl tid ev s = (Reply st b, s')" and "st < 500"
  shows "post_event cl tid ev s = \<lparr>po_posting = Answered st, po_attempts = 1, po_sleeps = [], po_world = s'\<rparr>"
  using assms by (simp add: post_event_def post_attempts.simps [of _ MAX_RETRIES])

section \<open>A stream through the network\<close>

lemma deliver_serving:
  assumes "serving cl mx tid d"
  shows "serving cl mx tid (deliver env (cl_agent_id cl) tid k ev d)"
proof (cases "ev_data ev")
  case None
  then show ?thesis using assms by (simp add: deliver_def)
next
  case (Some data)
  let ?d = "snd (run_tx (process_sidecar_event env tid (ev_type ev) data k (cl_agent_id cl) d) d)"
  obtain t where d: "db_inv mx d" "enrolled cl d" "get_task d tid = Some t" "t_executor t = Some (cl_agent_id cl)"
    using assms by (auto simp: serving_def)
  obtain t' where "get_task ?d tid = Some t'" "evolves t t'"
    using sidecar_op.run_evolves [OF d(1,3)] by blast
  moreover have "enrolled cl ?d"
    using d(2) sidecar_op.run_frame [of env tid "ev_type ev" data k "cl_agent_id cl" d]
    by (simp add: enrolled_def get_agent_def)
  moreover have "db_inv mx ?d" by (rule sidecar_op.run_inv [OF d(1)])
  ultimately show ?thesis
    using Some d(4) evolves_identity by (fastforce simp: serving_def deliver_def same_identity_def)
qed

lemma stream_rest_delivers:
  assumes "linked cl sv envs" and "task_path_ok tid"
    and "serving cl mx tid d" and "\<forall>ev \<in> set events. data_wf ev"
    and "0 \<le> k" and "k + int (length events) \<le> 2147483647"
  shows "\<exists>sts. length sts = length events \<and> (\<forall>st \<in> set sts. st < 500)
           \<and> stream_rest cl tid k events (n, d)
             = (map Answered sts, False, n + length events,
                deliver_all envs n (cl_agent_id cl) tid k events d)"
  using assms(3-6)
proof (induction events arbitrary: k n d)
  case (Cons ev events)
  let ?ev = "ev\<lparr>ev_sequence := k + 1\<rparr>"
  have wf: "data_wf ?ev" using Cons.prems(2) by (simp add: data_wf_def)
  have k: "int4 (k + 1)" "0 < k + 1" using Cons.prems(3,4) by (auto simp: int4_def)
  obtain st body where st: "st < 500" "post_attempt cl tid ?ev (n, d)
      = (Reply st body, Suc n, deliver (envs n) (cl_agent_id cl) tid (k + 1) ?ev d)"
    using serve_event_of [OF assms(1) Cons.prems(1) assms(2) wf _ k, of n] by auto
  have same: "deliver (envs n) (cl_agent_id cl) tid (k + 1) ?ev d = deliver (envs n) (cl_agent_id cl) tid (k + 1) ev d"
    by (simp add: deliver_def split: option.split)
  note post = post_event_answered [OF st(2,1)]
  obtain sts where sts: "length sts = length events" "\<forall>st \<in> set sts. st < 500"
     "stream_rest cl tid (k + 1) events (Suc n, deliver (envs n) (cl_agent_id cl) tid (k + 1) ev d)
        = (map Answered sts, False, Suc n + length events,
           deliver_all envs (Suc n) (cl_agent_id cl) tid (k + 1) events
             (deliver (envs n) (cl_agent_id cl) tid (k + 1) ev d))"
    using Cons.IH [OF deliver_serving [OF Cons.prems(1), of "envs n" "k + 1" ev], where k = "k + 1" and n = "Suc n"] Cons.prems(2-4) by auto
  show ?case
    by (rule exI [of _ "st # sts"]) (use st(1) sts post same in \<open>simp add: Let_def\<close>)
qed simp

section \<open>What the server refuses\<close>

lemma stale_event_refused:
  assumes "sequence \<le> max_sequence d tid"
  shows "deliver env agent tid sequence ev d = d"
  using assms
  by (cases "ev_data ev") (auto simp: deliver_def process_sidecar_event_def split: option.splits)

lemma stale_events_refused:
  assumes "linked cl sv envs" and "task_path_ok tid"
    and "serving cl mx tid d" and "\<forall>ev \<in> set events. data_wf ev"
    and "0 \<le> k" and "k + int (length events) \<le> max_sequence d tid" and "max_sequence d tid \<le> 2147483647"
  shows "stream_rest cl tid k events (n, d) = (replicate (length events) (Answered 422), False, n + length events, d)"
  using assms(4-6)
proof (induction events arbitrary: k n)
  case (Cons ev events)
  let ?ev = "ev\<lparr>ev_sequence := k + 1\<rparr>"
  have wf: "data_wf ?ev" using Cons.prems(1) by (simp add: data_wf_def)
  have k: "int4 (k + 1)" "0 < k + 1" "k + 1 \<le> max_sequence d tid" using Cons.prems(2,3) assms(7) by (auto simp: int4_def)
  obtain body where "post_attempt cl tid ?ev (n, d) = (Reply 422 body, Suc n, d)"
    using serve_event_of [OF assms(1,3,2) wf _ k(1,2), of n] k(3) stale_event_refused [OF k(3)] by auto
  then have post: "post_event cl tid ?ev (n, d) = \<lparr>po_posting = Answered 422, po_attempts = 1, po_sleeps = [], po_world = (Suc n, d)\<rparr>"
    by (rule post_event_answered) simp
  have "stream_rest cl tid (k + 1) events (Suc n, d) = (replicate (length events) (Answered 422), False, Suc n + length events, d)"
    using Cons.IH [of "k + 1" "Suc n"] Cons.prems by simp
  then show ?case using post by (simp add: Let_def)
qed simp

section \<open>A task that nobody started\<close>

text \<open>On an ACCEPTED task, only a status and a failed event can change the status.\<close>

lemma accepted_event:
  assumes "t_status t = ACCEPTED" and "ty \<noteq> ''status''" and "ty \<noteq> ''failed''" and "apply_event env ty data t = Inr t'"
  shows "t_status t' = ACCEPTED"
  using assms
  by (auto simp: apply_event_def transition_to_def validate_transition_def record_progress_def Let_def
      split: if_splits)

lemma accepted_deliver:
  assumes "db_inv mx d" and "get_task d tid = Some t" and "t_status t = ACCEPTED"
    and "ev_type ev \<noteq> ''status''" and "ev_type ev \<noteq> ''failed''"
  shows "\<exists>t'. get_task (deliver env agent tid k ev d) tid = Some t' \<and> t_status t' = ACCEPTED
           \<and> same_identity t t'"
proof (cases "ev_data ev")
  case None
  then show ?thesis using assms by (simp add: deliver_def same_identity_def)
next
  case (Some data)
  show ?thesis
  proof (rule sidecar_op.run_cases [of env tid "ev_type ev" data k agent d])
    assume "snd (run_tx (process_sidecar_event env tid (ev_type ev) data k agent d) d) = d"
    then show ?thesis using assms Some by (simp add: deliver_def same_identity_def)
  next
    fix uw assume uw: "tx_work (process_sidecar_event env tid (ev_type ev) data k agent d) = Some uw"
      and c: "commit uw d = Some (snd (run_tx (process_sidecar_event env tid (ev_type ev) data k agent d) d))"
    obtain t' where t': "apply_event env (ev_type ev) data t = Inr t'" "uw_update uw = Some (t, t')"
      using sidecar_work [OF uw] assms(2) by auto
    have id: "same_identity t t'" using apply_event_evolves [OF t'(1)] evolves_identity by blast
    have "get_task (snd (run_tx (process_sidecar_event env tid (ev_type ev) data k agent d) d)) tid = Some t'"
      using commit_get_task [OF c assms(2)] t'(2) id get_taskD [OF assms(2)] by (simp add: same_identity_def)
    then show ?thesis
      using accepted_event [OF assms(3-5) t'(1)] id Some by (simp add: deliver_def)
  qed
qed

lemma accepted_deliver_all:
  assumes "db_inv mx d" and "get_task d tid = Some t" and "t_status t = ACCEPTED"
    and "\<forall>ev \<in> set events. ev_type ev \<noteq> ''status'' \<and> ev_type ev \<noteq> ''failed''"
  shows "\<exists>t'. get_task (deliver_all envs n agent tid k events d) tid = Some t' \<and> t_status t' = ACCEPTED
           \<and> same_identity t t'"
  using assms
proof (induction events arbitrary: n k d t)
  case (Cons ev events)
  obtain t1 where t1: "get_task (deliver (envs n) agent tid (k + 1) ev d) tid = Some t1" "t_status t1 = ACCEPTED"
      "same_identity t t1"
    using accepted_deliver [OF Cons.prems(1-3), where ev = ev and env = "envs n" and agent = agent and k = "k + 1"]
      Cons.prems(4) by auto
  have "db_inv mx (deliver (envs n) agent tid (k + 1) ev d)"
    using Cons.prems(1) by (auto simp: deliver_def intro: sidecar_op.run_inv split: option.split)
  from Cons.IH [OF this t1(1,2)] Cons.prems(4) same_identity_trans [OF t1(3)] show ?case
    by (metis deliver_all.simps(2) list.set_intros(2))
qed (simp add: same_identity_def)

lemma pending_mem:
  "get_task d tid = Some t \<Longrightarrow> t_executor t = Some agent \<Longrightarrow> t_status t = ACCEPTED \<Longrightarrow> t \<in> set (get_pending_tasks d agent)"
  using get_taskD [of d tid t] by (simp add: get_pending_tasks_def)

section \<open>The sidecar's invariant\<close>

text \<open>What each piece of the sidecar keeps; the dispatches are recorded in order.\<close>

definition continued :: "agent_state \<Rightarrow> agent_state \<Rightarrow> bool" where
  "continued a a' = suffix (ag_started a) (ag_started a')"

lemma agent_step_inv: "agent_inv mx a \<Longrightarrow> agent_step mx a a' \<Longrightarrow> agent_inv mx a'"
proof (erule agent_stepE; hypsubst)
  fix reply tasks backoff flight st started
  assume inv: "agent_inv mx a" and reply: "tasks_of_reply (current_backoff (ag_poller a)) reply = (tasks, backoff)"
    and disp: "dispatch_tasks mx (case tasks of None \<Rightarrow> [] | Some xs \<Rightarrow> xs) (in_flight (ag_poller a)) (ag_signal_state a)
       = (flight, st, started)"
  have "distinct (in_flight (ag_poller a))" "int (length (in_flight (ag_poller a))) \<le> max 0 mx"
    using inv by (simp_all add: agent_inv_def)
  note c = dispatch_tasks_correct [OF disp this]
  have flight: "distinct flight" "int (length flight) \<le> max 0 mx"
    using c by blast+
  have reg: "registered st = set flight"
    using c inv by (simp add: agent_inv_def)
  show "agent_inv mx (a\<lparr>ag_poller := \<lparr>in_flight = flight, current_backoff = backoff\<rparr>, ag_signal_state := st,
          ag_started := rev (map pt_task_id started) @ ag_started a\<rparr>)"
    using inv flight reg tasks_backoff_bounds [OF reply] by (simp add: agent_inv_def)
next
  fix reply sigs backoff
  assume "agent_inv mx a" "signals_of_reply (ag_signal_backoff a) reply = (sigs, backoff)"
  then show "agent_inv mx (a\<lparr>ag_signal_backoff := backoff\<rparr>)"
    using signal_backoff_bounds by (auto simp: agent_inv_def)
next
  fix t p st
  assume "agent_inv mx a" "t \<in> set (in_flight (ag_poller a))" "finish t (ag_poller a) (ag_signal_state a) = (p, st)"
  then show "agent_inv mx (a\<lparr>ag_poller := p, ag_signal_state := st\<rparr>)"
    by (auto simp: agent_inv_def finish_def distinct_removeAll
        intro: order_trans [OF of_nat_mono [OF length_removeAll_less_eq]])
qed (simp_all add: agent_inv_def)

lemma agent_step_continued: "agent_step mx a a' \<Longrightarrow> continued a a'"
  by (auto elim!: agent_stepE simp: continued_def suffix_def)

interpretation agent: invariant_system initial_agent "agent_step mx" "agent_inv mx" continued
  for mx
proof
  show "agent_inv mx initial_agent"
    using poll_backoff.base_cap signal_backoff.base_cap
    by (simp add: agent_inv_def initial_agent_def initial_poller_def)
  show "continued a a'" if "agent_step mx a a'" for a a'
    by (rule agent_step_continued [OF that])
  show "continued a a''" if "continued a a'" "continued a' a''" for a a' a''
    using that by (auto simp: continued_def suffix_order.trans)
qed (auto intro: agent_step_inv simp: continued_def)

section \<open>The signals of the server\<close>

text \<open>One context injection that the server reports makes the whole response invalid.\<close>

lemma context_signal_invalid: "e_type e = ''context_injected'' \<Longrightarrow> signal_of_json (JObj (signal_of_event e)) = None"
  by (auto simp: signal_of_json_def signal_of_event_def signal_types_def Let_def split: option.splits)

lemma context_signal_listed:
  assumes t: "get_task d tid = Some t" "t_executor t = Some agent" "t_status t \<in> {RUNNING, PAUSED}"
    and e: "e \<in> set (task_events d tid)" "e_type e = ''context_injected''"
  shows "signal_of_event e \<in> set (get_pending_signals env d agent)"
proof -
  let ?ids = "map t_id (filter (\<lambda>t. t_executor t = Some agent \<and> t_status t \<in> {RUNNING, PAUSED}) (db_tasks d))"
  have "tid \<in> set ?ids" using get_taskD [OF t(1)] t(2,3) by force
  moreover have "e \<in> set (db_events d)" "e_task_id e = tid" using e(1) by (auto simp: task_events_def)
  moreover have "e_type e \<in> set signal_event_types" using e(2) by (simp add: signal_event_types_def)
  ultimately have "e \<in> set (sort_key e_created_at
      (filter (\<lambda>e. e_task_id e \<in> set ?ids \<and> e_type e \<in> set signal_event_types) (db_events d)))" and "?ids \<noteq> []"
    using \<open>tid \<in> set ?ids\<close> by (simp, metis (no_types, lifting) empty_iff list.set(1))
  then show ?thesis unfolding get_pending_signals_def Let_def by (simp only: if_False set_append set_map) blast
qed

lemma context_response_invalid:
  assumes "signal_of_event e \<in> set (get_pending_signals env d agent)" and "e_type e = ''context_injected''"
    and "get_pending_endpoint env agent agent d = Inr (200, body)"
  shows "signals_of_reply backoff (Reply 200 (Some (JObj body))) = (None, signal_base_backoff)"
proof -
  have "dict_get_or body ''signals'' (JArr []) = JArr (map JObj (get_pending_signals env d agent))"
    using assms(3) by (auto simp: get_pending_endpoint_def dict_get_or_def Let_def)
  moreover have "validate_all signal_of_json (map JObj (get_pending_signals env d agent)) = None"
    using assms(1) context_signal_invalid [OF assms(2)] by (intro validate_all_None) auto
  ultimately show ?thesis by (simp add: signals_of_body_def py_items_def)
qed

end
