(* ===== verification/Sidecar_Session.thy ===== *)
theory Sidecar_Session
  imports Sidecar_System
begin

text \<open>
  The session of a sidecar with the server: what its registration, its heartbeats and its polls become
  on the server, and the rounds of polling and dispatching one task.
\<close>

section \<open>Registering\<close>

definition own_registration :: "('sk, 's) client \<Rightarrow> register_request" where
  "own_registration cl =
     \<lparr>rr_agent_id = cl_agent_id cl, rr_display_name = None,
      rr_public_key = b64encode (cl_public_bytes cl (cl_private_key cl)), rr_capabilities = Some [], rr_endpoint = None\<rparr>"

lemma register_request_of_body:
  "with_body register_request_of (Some (register_body cl)) run d = run (own_registration cl)"
  by (simp add: with_body_def register_request_of_def register_body_def field_defs own_registration_def)

lemma register_served:
  assumes link: "linked cl sv envs"
  shows "register_attempt cl (n, d) =
     (let ((status, body), d') = response_of (register_endpoint (sv_dump_time sv) (envs n) (own_registration cl) d)
      in (Reply status (map_option JObj body), Suc n, d'))"
proof -
  let ?r = "open_route ''POST'' [Lit ''agents'', Lit ''register''] Register_Agent"
  let ?raw = "utf8 (json_dumps (register_body cl))"
  have "wf_json (register_body cl)" by (simp add: register_body_def)
  moreover have "?raw \<noteq> []" by (simp add: register_body_def utf8_simps)
  ultimately have body: "read_body sv Register_Agent ?raw = Some (Some (register_body cl))"
    using link by (simp add: linked_def read_body_def has_body_def)
  have "find_route (ro_method ?r) (fill (ro_template ?r) []) = Found ?r []"
    by (rule find_route_fill) (simp_all add: app_routes_def agent_routes_def, simp add: open_route_def args_ok_def)
  then have route: "find_route ''POST'' ''/agents/register'' = Found ?r []"
    by (simp add: open_route_def)
  have send: "cl_send cl = network sv envs" using link by (simp add: linked_def)
  show ?thesis
    unfolding register_attempt_def send network_def prod.case
    by (simp add: serve_def route open_route_def body Let_def endpoint_answer_def register_request_of_body)
qed

section \<open>Heartbeats and polls\<close>

lemma agent_route:
  assumes "linked cl sv envs" and "enrolled cl d" and "r \<in> set app_routes" and "ro_protected r"
    and "ro_template r = Lit ''agents'' # Param # Lit s # t" and "parameters t = 0" and "\<not> has_body (ro_endpoint r)"
    and "path = ''/agents/'' @ cl_agent_id cl @ ''/'' @ s @ fill t []"
  shows "serve sv (envs n) (signed_request cl (ro_method r) path [] (n, d)) headers d
         = response_of (endpoint_answer sv (envs n) headers (sv_query sv []) None (Some (cl_agent_id cl))
                          (ro_endpoint r) [cl_agent_id cl] d)"
proof -
  have path: "fill (ro_template r) [cl_agent_id cl] = path"
    using assms(5,8) by simp
  have args: "args_ok (ro_template r) [cl_agent_id cl]"
    using assms(5,6) linked_agent_path [OF assms(1)] by (simp add: args_ok_def task_path_ok_def)
  have "fill (ro_template r) [cl_agent_id cl] \<notin> set unprotected_paths"
    using protected_path_open [OF assms(3,4), of "[cl_agent_id cl]"] args assms(5) by (auto simp: args_ok_def)
  then show ?thesis
    using serve_signed [OF assms(1-4) args, where raw = "[]" and body = None] assms(7)
    by (simp add: path read_body_def)
qed

lemma heartbeat_served:
  assumes link: "linked cl sv envs" and "enrolled cl d"
  shows "cl_send cl (signed_request cl ''POST'' (''/agents/'' @ cl_agent_id cl @ ''/heartbeat'') [] (n, d)) (n, d) =
     (let ((status, body), d') = response_of
            (heartbeat_endpoint (sv_dump_time sv) (envs n) (cl_agent_id cl) (cl_agent_id cl) d)
      in (Reply status (map_option JObj body), Suc n, d'))"
proof -
  let ?r = "protected_route ''POST'' [Lit ''agents'', Param, Lit ''heartbeat''] Agent_Heartbeat"
  have "?r \<in> set app_routes" by (simp add: app_routes_def agent_routes_def)
  then have "serve sv (envs n) (signed_request cl ''POST'' (''/agents/'' @ cl_agent_id cl @ ''/heartbeat'') [] (n, d)) (\<lambda>_. None) d
      = response_of (endpoint_answer sv (envs n) (\<lambda>_. None) (sv_query sv []) None (Some (cl_agent_id cl))
          Agent_Heartbeat [cl_agent_id cl] d)"
    using agent_route [OF assms, where r = ?r and s = "''heartbeat''" and t = "[]"]
    by (simp add: protected_route_def has_body_def)
  moreover have "cl_send cl = network sv envs" using link by (simp add: linked_def)
  ultimately show ?thesis
    by (simp add: network_def endpoint_answer_def call_endpoint_def Let_def)
qed

lemma pending_served:
  assumes link: "linked cl sv envs" and "enrolled cl d"
  shows "cl_send cl (signed_request cl ''GET'' (pending_path cl) [] (n, d)) (n, d) =
     (let ((status, body), d') = response_of (get_pending_endpoint (envs n) (cl_agent_id cl) (cl_agent_id cl) d, d)
      in (Reply status (map_option JObj body), Suc n, d'))"
proof -
  let ?r = "protected_route ''GET'' [Lit ''agents'', Param, Lit ''tasks'', Lit ''pending''] Pending_Tasks"
  have "?r \<in> set app_routes" by (simp add: app_routes_def agent_routes_def)
  then have "serve sv (envs n) (signed_request cl ''GET'' (pending_path cl) [] (n, d)) (\<lambda>_. None) d
      = response_of (endpoint_answer sv (envs n) (\<lambda>_. None) (sv_query sv []) None (Some (cl_agent_id cl))
          Pending_Tasks [cl_agent_id cl] d)"
    using agent_route [OF assms, where r = ?r and s = "''tasks''" and t = "[Lit ''pending'']"]
    by (simp add: protected_route_def has_body_def pending_path_def)
  moreover have "cl_send cl = network sv envs" using link by (simp add: linked_def)
  ultimately show ?thesis
    by (simp add: network_def endpoint_answer_def call_endpoint_def reading_def Let_def)
qed

text \<open>What the sidecar makes of the server's list of pending tasks.\<close>

definition pending_of_task :: "task \<Rightarrow> pending_task" where
  "pending_of_task t =
     \<lparr>pt_task_id = t_id t, pt_workflow_id = t_workflow_id t, pt_input = t_input t,
      pt_priority = priority_value (t_priority t), pt_timeout_seconds = t_timeout_seconds t,
      pt_created_at = isoformat (t_created_at t)\<rparr>"

lemma pending_task_of_item: "pending_task_of (JObj (pending_task_item t)) = Some (pending_of_task t)"
  by (cases "t_timeout_seconds t") (simp_all add: pending_task_of_def pending_task_item_def pending_of_task_def jopt_int_def)

lemma tasks_of_pending:
  assumes "get_pending_endpoint env agent agent d = Inr (status, body)"
  shows "status = 200 \<and> tasks_of_reply backoff (Reply status (Some (JObj body)))
           = (Some (map pending_of_task (get_pending_tasks d agent)), poll_base_backoff)"
proof -
  have status: "status = 200" using assms by (auto simp: get_pending_endpoint_def Let_def)
  have "map_of body ''tasks'' = None"
    "dict_get_or body ''data'' (JArr []) = JArr (map (\<lambda>t. JObj (pending_task_item t)) (get_pending_tasks d agent))"
    using assms by (auto simp: get_pending_endpoint_def dict_get_or_def Let_def)
  then have "tasks_of_body (Some (JObj body)) = Some (map pending_of_task (get_pending_tasks d agent))"
    using validate_all_map [of "get_pending_tasks d agent" pending_task_of "\<lambda>t. JObj (pending_task_item t)" pending_of_task]
      pending_task_of_item
    by (simp add: tasks_of_body_def dict_get_or_def py_items_def)
  then show ?thesis using status by simp
qed

lemma poll_served:
  assumes "linked cl sv envs" and "enrolled cl d"
  shows "poll cl backoff (n, d)
         = (Some (map pending_of_task (get_pending_tasks d (cl_agent_id cl))), poll_base_backoff, Suc n, d)"
proof -
  obtain status body where body: "get_pending_endpoint (envs n) (cl_agent_id cl) (cl_agent_id cl) d = Inr (status, body)"
    by (simp add: get_pending_endpoint_def Let_def)
  show ?thesis
    using tasks_of_pending [OF body, of backoff] pending_served [OF assms, of n]
    by (auto simp: poll_def body response_of_def Let_def simp del: tasks_of_reply.simps)
qed

section \<open>Serving a task\<close>

lemma reachable_serving:
  "reachable cfg d \<Longrightarrow> enrolled cl d \<Longrightarrow> get_task d tid = Some t \<Longrightarrow> t_executor t = Some (cl_agent_id cl) \<Longrightarrow>
    serving cl (fleet_lineage_max_depth cfg) tid d"
  using reachable_inv by (auto simp: serving_def)

text \<open>The key a sidecar registers is a valid one.\<close>

lemma b64_char_visible: "n < 64 \<Longrightarrow> \<not> py_space (b64_char n)"
  by (auto simp: py_space_def b64_char_def Let_def)

lemma b64encode_visible: "bs \<noteq> [] \<Longrightarrow> py_strip (b64encode bs) \<noteq> []"
  using b64_char_visible
  by (cases bs rule: b64encode.cases) (auto simp: py_strip_def Let_def sextet_bounds)

lemma own_key_valid:
  assumes "linked cl sv envs"
  shows "validate_public_key (b64encode (cl_public_bytes cl (cl_private_key cl)))"
proof -
  have "length (cl_public_bytes cl (cl_private_key cl)) = 32" using assms by (simp add: linked_def Let_def)
  then have "cl_public_bytes cl (cl_private_key cl) \<noteq> []" by auto
  then show ?thesis
    using b64encode_visible \<open>length _ = 32\<close> by (simp add: validate_public_key_def)
qed

section \<open>Rounds of a task\<close>

text \<open>
  For one task, a poll and, when the task is among those polled, its dispatch to the end: whether it was
  started in each round. The execution of round \<open>i\<close> has the turns of \<open>runs ! i\<close>.
\<close>

fun work_rounds ::
    "('sk, 's) client \<Rightarrow> string \<Rightarrow> bool \<Rightarrow> handler \<Rightarrow> turn list list \<Rightarrow> int \<Rightarrow> 's \<Rightarrow> bool list \<times> 's" where
  "work_rounds cl tid signal_poller handler [] backoff s = ([], s)"
| "work_rounds cl tid signal_poller handler (turns # runs) backoff s =
     (let (tasks, backoff', s') = poll cl backoff s
      in case find (\<lambda>p. pt_task_id p = tid) (case tasks of None \<Rightarrow> [] | Some xs \<Rightarrow> xs) of
           None \<Rightarrow> (let (started, s'') = work_rounds cl tid signal_poller handler runs backoff' s'
                   in (False # started, s''))
         | Some p \<Rightarrow> (let (_, s1) = dispatch cl p signal_poller handler turns s';
                          (started, s'') = work_rounds cl tid signal_poller handler runs backoff' s1
                      in (True # started, s'')))"

text \<open>An execution that reports progress and success, but neither a status nor a failure.\<close>

definition reports_success :: "bool \<Rightarrow> handler \<Rightarrow> string \<Rightarrow> turn list \<Rightarrow> bool" where
  "reports_success signal_poller handler tid turns =
     (turns_wf turns
      \<and> (\<forall>p. pt_task_id p = tid \<longrightarrow>
            int (length (fst (execute p signal_poller handler turns))) < 2147483647
            \<and> (\<forall>ev \<in> set (fst (execute p signal_poller handler turns)). ev_type ev \<noteq> ''status'' \<and> ev_type ev \<noteq> ''failed'')))"

lemma created_sequence:
  assumes "db_inv mx d" and "get_task d tid = Some t"
  shows "1 \<le> max_sequence d tid"
proof -
  have "log_inv d" using assms(1) by (simp add: db_inv_def)
  then obtain e where "e \<in> set (db_events d)" "created_event tid e"
    using get_taskD [OF assms(2)] by (auto simp: log_inv_def)
  then show ?thesis using max_sequence_ge [of e d tid] by (auto simp: created_event_def)
qed

lemma max_sequence_le:
  assumes "db_inv mx d"
  shows "max_sequence d k \<le> 2147483647"
proof (cases "task_events d k = []")
  case True
  then show ?thesis by (simp add: max_sequence_def)
next
  case False
  then obtain e where "e \<in> set (db_events d)" "e_sequence e = max_sequence d k"
    using max_sequence_attained by blast
  then have "int4 (max_sequence d k)"
    using assms by (auto simp: db_inv_def constraints_ok_def event_row_ok_def)
  then show ?thesis by (simp add: int4_def)
qed

text \<open>The initial running event has number 1, which is taken; nothing else makes the task RUNNING.\<close>

lemma serving_deliver_all:
  "serving cl mx tid d \<Longrightarrow> serving cl mx tid (deliver_all envs n (cl_agent_id cl) tid k events d)"
  by (induction events arbitrary: n k d) (auto intro: deliver_serving)

lemma dispatch_delivers:
  assumes link: "linked cl sv envs" and path: "task_path_ok tid" and serving: "serving cl mx tid d"
    and p: "pt_task_id p = tid" and turns: "turns_wf turns"
    and len: "1 + int (length (fst (execute p sp handler turns))) \<le> 2147483647"
  shows "\<exists>sts. dispatch cl p sp handler turns (n, d)
      = (Answered 422 # map Answered sts, Suc n + length (fst (execute p sp handler turns)),
         deliver_all envs (Suc n) (cl_agent_id cl) tid 1 (fst (execute p sp handler turns)) d)"
proof -
  let ?events = "fst (execute p sp handler turns)"
  obtain t where inv: "db_inv mx d" and t: "get_task d tid = Some t" using serving by (auto simp: serving_def)
  have "stream_rest cl tid 0 [running_event] (n, d) = ([Answered 422], False, Suc n, d)"
    using stale_events_refused [OF link path serving, of "[running_event]" 0 n]
      created_sequence [OF inv t] max_sequence_le [OF inv]
    by (simp add: data_wf_def running_event_def)
  then have first: "po_posting (post_event cl tid running_event (n, d)) = Answered 422"
      "po_world (post_event cl tid running_event (n, d)) = (Suc n, d)"
    by (auto simp: running_event_def Let_def split: if_splits)
  obtain sts where rest: "stream_rest cl tid 1 ?events (Suc n, d)
      = (map Answered sts, False, Suc n + length ?events, deliver_all envs (Suc n) (cl_agent_id cl) tid 1 ?events d)"
    using stream_rest_delivers [OF link path serving execute_wf [OF turns] _ len, where n = "Suc n"] by auto
  have "dispatch cl p sp handler turns (n, d)
      = (Answered 422 # map Answered sts, Suc n + length ?events, deliver_all envs (Suc n) (cl_agent_id cl) tid 1 ?events d)"
    using rest p by (cases "execute p sp handler turns") (simp add: dispatch_def stream_def Let_def first)
  then show ?thesis by blast
qed

lemma accepted_dispatch:
  assumes link: "linked cl sv envs" and path: "task_path_ok tid" and serving: "serving cl mx tid d"
    and t: "get_task d tid = Some t" "t_status t = ACCEPTED"
    and p: "pt_task_id p = tid" and run: "reports_success sp handler tid turns"
  shows "\<exists>postings n' d' t'. dispatch cl p sp handler turns (n, d) = (Answered 422 # postings, n', d')
           \<and> serving cl mx tid d' \<and> get_task d' tid = Some t' \<and> t_status t' = ACCEPTED"
proof -
  let ?events = "fst (execute p sp handler turns)"
  have inv: "db_inv mx d" using serving by (simp add: serving_def)
  have turns: "turns_wf turns" "1 + int (length ?events) \<le> 2147483647"
    "\<forall>ev \<in> set ?events. ev_type ev \<noteq> ''status'' \<and> ev_type ev \<noteq> ''failed''"
    using run p by (force simp: reports_success_def)+
  obtain t' where "get_task (deliver_all envs (Suc n) (cl_agent_id cl) tid 1 ?events d) tid = Some t'"
      "t_status t' = ACCEPTED"
    using accepted_deliver_all [OF inv t turns(3)] by blast
  then show ?thesis
    using dispatch_delivers [OF link path serving p turns(1,2), of n] serving_deliver_all [OF serving] by fastforce
qed

text \<open>A pending task is found by its id in what is polled.\<close>

lemma polled_task:
  assumes "get_task d tid = Some t" and "t_executor t = Some agent" and "t_status t = ACCEPTED"
  shows "\<exists>p. find (\<lambda>p. pt_task_id p = tid) (map pending_of_task (get_pending_tasks d agent)) = Some p \<and> pt_task_id p = tid"
proof -
  have "pending_of_task t \<in> set (map pending_of_task (get_pending_tasks d agent))"
    using pending_mem [OF assms] by simp
  moreover have "pt_task_id (pending_of_task t) = tid"
    using get_taskD [OF assms(1)] by (simp add: pending_of_task_def)
  ultimately have "find (\<lambda>p. pt_task_id p = tid) (map pending_of_task (get_pending_tasks d agent)) \<noteq> None"
    unfolding find_None_iff by blast
  then show ?thesis by (auto simp: find_Some_iff)
qed

end
