(* ===== verification/Sample_Sidecar.thy ===== *)
theory Sample_Sidecar
  imports Sidecar_Session Samples
begin

text \<open>
  A sidecar and a server for the concrete instances: agent \<open>p\<close> of the sample run, a signature that
  contains the message, Python's own JSON.
\<close>

section \<open>The externals\<close>

definition sample_verify :: "bytes \<Rightarrow> bytes \<Rightarrow> bytes \<Rightarrow> bool" where
  "sample_verify k sig m = (sig = 1 # m)"

definition sample_clock :: "string \<Rightarrow> time option" where
  "sample_clock s = (if s = isoformat 7 then Some 7 else None)"

definition sample_parse :: "bytes \<Rightarrow> json option" where
  "sample_parse b = Option.bind (bytes_text b) json_loads"

definition sample_coercions :: coercions where
  "sample_coercions =
     \<lparr>co_int = (\<lambda>v. case v of JInt n \<Rightarrow> Some n | _ \<Rightarrow> None), co_bool = (\<lambda>v. case v of JBool b \<Rightarrow> Some b | _ \<Rightarrow> None),
      co_int_text = (\<lambda>s. case json_loads s of Some (JInt n) \<Rightarrow> Some n | _ \<Rightarrow> None)\<rparr>"

definition sample_externals :: externals where
  "sample_externals =
     \<lparr>sv_verify = sample_verify, sv_sha256 = (\<lambda>_. ''00''), sv_fromisoformat = sample_clock, sv_parse = sample_parse,
      sv_validate = any_input, sv_repr = json_dumps, sv_dump_time = isoformat, sv_query = (\<lambda>_. []),
      sv_coercions = sample_coercions, sv_uptime = (\<lambda>_. 1), sv_probe = (\<lambda>env. Probe_Ok 1 (env_now env)), sv_public_pem = []\<rparr>"

definition sample_client :: "(unit, nat \<times> db) client" where
  "sample_client =
     \<lparr>cl_agent_id = ''p'', cl_private_key = (), cl_public_bytes = (\<lambda>_. replicate 32 0),
      cl_sign = (\<lambda>_ m. 1 # m), cl_sha256 = (\<lambda>_. ''00''), cl_dump = (\<lambda>v. utf8 (json_dumps v)),
      cl_clock = (\<lambda>_. 7), cl_send = network sample_externals (\<lambda>_. env_at 7 [])\<rparr>"

section \<open>Facts\<close>

lemma dumps_utf8_nonempty: "wf_json v \<Longrightarrow> utf8 (json_dumps v) \<noteq> []"
  using dumps_starts [of v] by (cases "json_dumps v") (auto simp: utf8_simps starts_def)

lemma sample_coercions_ok: "coercions_ok sample_coercions"
  using json_loads_dumps [of "JInt _"] by (simp add: coercions_ok_def sample_coercions_def)

lemma sample_linked: "linked sample_client sample_externals (\<lambda>_. env_at 7 [])"
  using sample_coercions_ok dumps_utf8_nonempty
  by (simp add: linked_def sample_client_def sample_externals_def sample_verify_def sample_clock_def sample_parse_def
      env_at_def REPLAY_WINDOW_def seconds_def json_loads_dumps Let_def)

lemma sample_agent_of [simp]: "cl_agent_id sample_client = ''p''"
  by (simp add: sample_client_def)

lemma sample_key_enrolled:
  "sample_key = b64encode (cl_public_bytes sample_client (cl_private_key sample_client))"
  by (simp add: sample_client_def) code_simp

lemma sample_agents: "get_agent sample_accepted ''p'' = Some sample_agent" "get_agent sample_running ''p'' = Some sample_agent"
  by code_simp+

lemma sample_enrolled: "enrolled sample_client sample_accepted" "enrolled sample_client sample_running"
  using sample_key_enrolled by (simp_all add: enrolled_def sample_agents, simp_all add: sample_agent_def)

lemma sample_path: "task_path_ok ''task-1''"
  by code_simp

section \<open>A handler that reports its completion\<close>

definition sample_turns :: "turn list" where
  "sample_turns = map (\<lambda>e. quiet (Line (line_of e))) [(''completed'', [(''result'', JInt 7)])] @ [quiet Eof]"

lemma sample_execution:
  "fst (execute p False (Process 0 []) sample_turns) = numbered_from 0 [(''completed'', [(''result'', JInt 7)])]"
  using read_written [of "[(''completed'', [(''result'', JInt 7)])]" False 0]
  by (simp add: execute_def sample_turns_def Let_def)

lemma sample_reports: "reports_success False (Process 0 []) tid sample_turns"
  by (simp add: reports_success_def sample_execution) (simp add: turns_wf_def sample_turns_def quiet_def)

end
