(* ===== verification/Sidecar_Process.thy ===== *)
theory Sidecar_Process
  imports Sidecar_System
begin

text \<open>
  The process of the sidecar: its configuration (\<open>config.py\<close>) and \<open>__main__.py\<close>, which registers the
  agent and then gathers the poller, the signal poller, the heartbeats and the health server until one
  of them raises or the process is told to stop.
\<close>

section \<open>Configuration\<close>

record sidecar_config =
  fleet_api_url :: string
  fleet_agent_id :: string
  fleet_agent_private_key_path :: string
  fleet_poll_interval :: int
  fleet_sidecar_port :: int
  fleet_max_concurrent_tasks :: int
  fleet_executor_command :: string
  fleet_heartbeat_interval :: int
  fleet_signal_poll_interval :: int

definition sidecar_defaults :: "string \<Rightarrow> string \<Rightarrow> string \<Rightarrow> string \<Rightarrow> sidecar_config" where
  "sidecar_defaults api_url agent_id key_path command =
     \<lparr>fleet_api_url = api_url, fleet_agent_id = agent_id, fleet_agent_private_key_path = key_path,
      fleet_poll_interval = 5, fleet_sidecar_port = 8001, fleet_max_concurrent_tasks = 1,
      fleet_executor_command = command, fleet_heartbeat_interval = 30, fleet_signal_poll_interval = 2\<rparr>"

text \<open>Reading the file and its PEM text: a missing file, a text that is no key and a key of another kind
  are exceptions.\<close>

definition load_private_key :: "(string \<Rightarrow> bytes option) \<Rightarrow> (bytes \<Rightarrow> 'k loaded option) \<Rightarrow> string \<Rightarrow> exn + 'k" where
  "load_private_key read_file load_pem path =
     (case read_file path of
        None \<Rightarrow> Inl PythonError
      | Some text \<Rightarrow>
          (case load_pem text of
             Some (Ed25519 key) \<Rightarrow> Inr key
           | _ \<Rightarrow> Inl PythonError))"

section \<open>Starting\<close>

text \<open>The client of a configuration: \<open>libs\<close> has the libraries and the network.\<close>

definition configured :: "sidecar_config \<Rightarrow> 'sk \<Rightarrow> ('sk, 's) client \<Rightarrow> ('sk, 's) client" where
  "configured cfg key libs = libs\<lparr>cl_agent_id := fleet_agent_id cfg, cl_private_key := key\<rparr>"

datatype startup = No_Key | Not_Registered registration | Started

definition start_sidecar ::
    "(string \<Rightarrow> bytes option) \<Rightarrow> (bytes \<Rightarrow> 'sk loaded option) \<Rightarrow> sidecar_config \<Rightarrow> ('sk, 's) client \<Rightarrow> 's \<Rightarrow> startup \<times> 's" where
  "start_sidecar read_file load_pem cfg libs s =
     (case load_private_key read_file load_pem (fleet_agent_private_key_path cfg) of
        Inl e \<Rightarrow> (No_Key, s)
      | Inr key \<Rightarrow>
          (let r = self_register (configured cfg key libs) s
           in (if rr_outcome r = Registered then Started else Not_Registered (rr_outcome r), rr_world r)))"

section \<open>Running\<close>

text \<open>
  What happens to the gathered coroutines: the reply to a poll of the task poller or the signal poller,
  a signal that is handled, an executor that takes a context, a dispatch that ends, the reply to a
  heartbeat, and the termination signal. The first exception out of a coroutine ends \<open>gather\<close> and with
  it the process, as the cancellation by a signal does.
\<close>

datatype happening =
    Poll_Reply reply
  | Signal_Reply reply
  | Signal_Handled signal
  | Context_Taken string
  | Dispatch_Ended string
  | Beat_Reply reply
  | Termination

datatype stopped = Shut_Down | Brought_Down

record sidecar =
  sc_agent :: agent_state
  sc_beat_backoff :: int
  sc_stopped :: "stopped option"

definition started_sidecar :: sidecar where
  "started_sidecar = \<lparr>sc_agent = initial_agent, sc_beat_backoff = heartbeat_base_backoff, sc_stopped = None\<rparr>"

fun agent_happens :: "int \<Rightarrow> happening \<Rightarrow> agent_state \<Rightarrow> agent_state" where
  "agent_happens max_concurrent (Poll_Reply reply) a =
     (let (tasks, backoff) = tasks_of_reply (current_backoff (ag_poller a)) reply;
          (flight, st, started) = dispatch_tasks max_concurrent (case tasks of None \<Rightarrow> [] | Some xs \<Rightarrow> xs)
                                    (in_flight (ag_poller a)) (ag_signal_state a)
      in a\<lparr>ag_poller := \<lparr>in_flight = flight, current_backoff = backoff\<rparr>, ag_signal_state := st,
           ag_started := rev (map pt_task_id started) @ ag_started a\<rparr>)"
| "agent_happens max_concurrent (Signal_Reply reply) a =
     a\<lparr>ag_signal_backoff := snd (signals_of_reply (ag_signal_backoff a) reply)\<rparr>"
| "agent_happens max_concurrent (Signal_Handled sig) a =
     a\<lparr>ag_signal_state := process_state sig (ag_signal_state a)\<rparr>"
| "agent_happens max_concurrent (Context_Taken t) a =
     a\<lparr>ag_signal_state := snd (pop_context t (ag_signal_state a))\<rparr>"
| "agent_happens max_concurrent (Dispatch_Ended t) a =
     (if t \<in> set (in_flight (ag_poller a)) then
        (let (p, st) = finish t (ag_poller a) (ag_signal_state a) in a\<lparr>ag_poller := p, ag_signal_state := st\<rparr>)
      else a)"
| "agent_happens max_concurrent _ a = a"

definition happen :: "sidecar_config \<Rightarrow> happening \<Rightarrow> sidecar \<Rightarrow> sidecar" where
  "happen cfg h sc =
     (if sc_stopped sc \<noteq> None then sc
      else
        (case h of
           Termination \<Rightarrow> sc\<lparr>sc_stopped := Some Shut_Down\<rparr>
         | Beat_Reply reply \<Rightarrow>
             (case backoff_after_beat (sc_beat_backoff sc) reply of
                None \<Rightarrow> sc\<lparr>sc_stopped := Some Brought_Down\<rparr>
              | Some backoff \<Rightarrow> sc\<lparr>sc_beat_backoff := backoff\<rparr>)
         | _ \<Rightarrow> sc\<lparr>sc_agent := agent_happens (fleet_max_concurrent_tasks cfg) h (sc_agent sc)\<rparr>))"

definition run_sidecar :: "sidecar_config \<Rightarrow> happening list \<Rightarrow> sidecar" where
  "run_sidecar cfg hs = fold (happen cfg) hs started_sidecar"

section \<open>Facts\<close>

text \<open>Each happening is a step of the agent, or leaves it.\<close>

lemma agent_happens_step: "agent_step mx a (agent_happens mx h a) \<or> agent_happens mx h a = a"
proof (cases h)
  case (Poll_Reply reply)
  obtain tasks backoff flight st started where r: "tasks_of_reply (current_backoff (ag_poller a)) reply = (tasks, backoff)"
      "dispatch_tasks mx (case tasks of None \<Rightarrow> [] | Some xs \<Rightarrow> xs) (in_flight (ag_poller a)) (ag_signal_state a) = (flight, st, started)"
    by (meson prod_cases3 surj_pair)
  show ?thesis using agent_step.tasks [OF r] r Poll_Reply by (simp del: tasks_of_reply.simps)
next
  case (Signal_Reply reply)
  then show ?thesis
    using agent_step.signals [of a reply "fst (signals_of_reply (ag_signal_backoff a) reply)"] by (simp del: signals_of_reply.simps)
next
  case (Dispatch_Ended t)
  then show ?thesis using agent_step.finished [of t a _ _ mx] by (auto split: prod.splits)
qed (auto intro: agent_step.signal agent_step.contexts)

lemma happen_inv:
  "agent_inv (fleet_max_concurrent_tasks cfg) (sc_agent sc) \<Longrightarrow>
    agent_inv (fleet_max_concurrent_tasks cfg) (sc_agent (happen cfg h sc))"
  using agent_happens_step [of "fleet_max_concurrent_tasks cfg" "sc_agent sc" h] agent_step_inv
  by (auto simp: happen_def split: happening.splits option.splits)

definition ends_process :: "happening \<Rightarrow> stopped option" where
  "ends_process h =
     (case h of Termination \<Rightarrow> Some Shut_Down | Beat_Reply Other_Error \<Rightarrow> Some Brought_Down | _ \<Rightarrow> None)"

lemma happen_stopped: "sc_stopped (happen cfg h sc) = (case sc_stopped sc of None \<Rightarrow> ends_process h | Some x \<Rightarrow> Some x)"
  by (auto simp: happen_def ends_process_def split: happening.splits option.splits reply.splits)

text \<open>A whole run: the first happening that ends the process decides, nothing happens after it.\<close>

definition survived :: "happening \<Rightarrow> bool" where
  "survived h = (h \<noteq> Termination \<and> h \<noteq> Beat_Reply Other_Error)"

lemma ends_process_None [simp]: "ends_process h = None \<longleftrightarrow> survived h"
  by (auto simp: survived_def ends_process_def split: happening.splits reply.splits)

lemma happen_after_end: "sc_stopped sc \<noteq> None \<Longrightarrow> fold (happen cfg) hs sc = sc"
  by (induction hs) (simp_all add: happen_def)

lemma happen_agent:
  "sc_stopped sc = None \<Longrightarrow>
    sc_agent (happen cfg h sc)
      = (if survived h then agent_happens (fleet_max_concurrent_tasks cfg) h (sc_agent sc) else sc_agent sc)"
  by (auto simp: survived_def happen_def split: happening.splits option.splits reply.splits)

lemma run_from:
  assumes "sc_stopped sc = None"
  shows "sc_stopped (fold (happen cfg) hs sc) = (case dropWhile survived hs of [] \<Rightarrow> None | h # _ \<Rightarrow> ends_process h)"
    and "sc_agent (fold (happen cfg) hs sc)
           = fold (agent_happens (fleet_max_concurrent_tasks cfg)) (takeWhile survived hs) (sc_agent sc)"
proof -
  have "sc_stopped (fold (happen cfg) hs sc) = (case dropWhile survived hs of [] \<Rightarrow> None | h # _ \<Rightarrow> ends_process h)
      \<and> sc_agent (fold (happen cfg) hs sc)
           = fold (agent_happens (fleet_max_concurrent_tasks cfg)) (takeWhile survived hs) (sc_agent sc)"
    using assms
  proof (induction hs arbitrary: sc)
    case (Cons h hs)
    show ?case
    proof (cases "survived h")
      case True
      then have "sc_stopped (happen cfg h sc) = None"
        using Cons.prems by (simp add: happen_stopped)
      then show ?thesis using Cons.IH True Cons.prems by (simp add: happen_agent)
    next
      case False
      then obtain x where "ends_process h = Some x" using ends_process_None [of h] by blast
      then show ?thesis
        using False Cons.prems happen_after_end [of "happen cfg h sc" cfg hs] by (simp add: happen_stopped happen_agent del: ends_process_None)
    qed
  qed simp
  then show "sc_stopped (fold (happen cfg) hs sc) = (case dropWhile survived hs of [] \<Rightarrow> None | h # _ \<Rightarrow> ends_process h)"
    "sc_agent (fold (happen cfg) hs sc)
           = fold (agent_happens (fleet_max_concurrent_tasks cfg)) (takeWhile survived hs) (sc_agent sc)"
    by blast+
qed

lemma sidecar_run_inv: "agent_inv (fleet_max_concurrent_tasks cfg) (sc_agent (run_sidecar cfg hs))"
proof -
  have "agent_inv (fleet_max_concurrent_tasks cfg) (sc_agent sc) \<Longrightarrow>
      agent_inv (fleet_max_concurrent_tasks cfg) (sc_agent (fold (happen cfg) hs sc))" for sc
    by (induction hs arbitrary: sc) (simp_all add: happen_inv)
  then show ?thesis
    using agent.run_keeps_inv [OF rtranclp.rtrancl_refl] by (simp add: run_sidecar_def started_sidecar_def)
qed

end
