(* ===== verification/Props_Sidecar.thy ===== *)
theory Props_Sidecar
  imports Sample_Sidecar Sidecar_Process
begin

text \<open>
  The properties of the sidecar: alone (retries, registration, the limits of the poller, signals,
  the handler's output) and together with the server it talks to.
\<close>

section \<open>The stream of a task\<close>

text \<open>C8: Streaming through the network is delivering: when the sidecar's agent is enrolled and the
  executor of the task, a stream of well-formed events posts each event once, the initial running
  event first, every post is answered with a status below 500, and the server's database becomes
  what the events, numbered from 1, do to it when they are processed one after the other. Nothing
  is lost between signing, HTTP, authentication, JSON and the endpoint.\<close>

theorem stream_delivers:
  assumes "linked cl sv envs" and "task_path_ok tid"
    and "reachable cfg d" and "enrolled cl d" and "get_task d tid = Some t" and "t_executor t = Some (cl_agent_id cl)"
    and "\<forall>ev \<in> set events. data_wf ev" and "int (length events) < 2147483647"
  shows "\<exists>sts. length sts = Suc (length events) \<and> (\<forall>st \<in> set sts. st < 500)
           \<and> stream cl tid events (n, d)
             = (map Answered sts, False, n + Suc (length events),
                deliver_all envs n (cl_agent_id cl) tid 0 (running_event # events) d)"
proof -
  have "data_wf running_event" by (simp add: data_wf_def running_event_def)
  then show ?thesis
    using stream_rest_delivers [OF assms(1,2) reachable_serving [OF assms(3-6)], of "running_event # events" 0 n] assms(7,8)
    unfolding stream_as_rest by auto
qed

lemma stream_delivers_witness:
  "\<exists>sts. length sts = 2 \<and> stream sample_client ''task-1''
       [\<lparr>ev_type = ''log'', ev_data = Some [(''n'', JInt 1)], ev_sequence = 1\<rparr>] (0, sample_accepted)
     = (map Answered sts, False, 2,
        deliver_all (\<lambda>_. env_at 7 []) 0 ''p'' ''task-1'' 0
          [running_event, \<lparr>ev_type = ''log'', ev_data = Some [(''n'', JInt 1)], ev_sequence = 1\<rparr>] sample_accepted)"
proof -
  have prem: "t_executor sample_task = Some (cl_agent_id sample_client)"
    by (simp add: sample_task_def)
  have ev: "\<forall>ev \<in> set [\<lparr>ev_type = ''log'', ev_data = Some [(''n'', JInt 1)], ev_sequence = 1\<rparr>]. data_wf ev"
    by (simp add: data_wf_def)
  show ?thesis
    using stream_delivers [OF sample_linked sample_path reachable_accepted sample_enrolled(1) sample_lookups(4) prem ev, of 0]
    by (auto simp: numeral_2_eq_2)
qed

text \<open>A stream that starts while the task's log already reaches its numbers is refused as a whole:
  with at least as many numbers used as the stream has events, its initial running event included,
  each post is answered 422 and the database stays as it is. So is every acknowledgement of a
  signal, which is a stream of two events, once the log reaches number 2.\<close>

theorem restarted_numbers_refused:
  assumes "linked cl sv envs" and "task_path_ok tid"
    and "reachable cfg d" and "enrolled cl d" and "get_task d tid = Some t" and "t_executor t = Some (cl_agent_id cl)"
    and "\<forall>ev \<in> set events. data_wf ev" and "int (Suc (length events)) \<le> max_sequence d tid"
  shows "stream cl tid events (n, d)
           = (replicate (Suc (length events)) (Answered 422), False, n + Suc (length events), d)"
proof -
  have run: "data_wf running_event" by (simp add: data_wf_def running_event_def)
  have "max_sequence d tid \<le> 2147483647"
    by (rule max_sequence_le [OF reachable_inv [OF assms(3)]])
  then show ?thesis
    using stale_events_refused [OF assms(1,2) reachable_serving [OF assms(3-6)], of "running_event # events" 0 n] assms(7,8) run
    unfolding stream_as_rest by simp
qed

lemma restarted_numbers_refused_witness:
  "post_ack sample_client ''task-1'' (ack ''paused'' []) (0, sample_running) = (2, sample_running)"
proof -
  have prem: "t_executor sample_running_task = Some (cl_agent_id sample_client)"
    by (simp add: sample_running_task_def sample_task_def)
  have ev: "\<forall>ev \<in> set [ack ''paused'' []]. data_wf ev" by (simp add: data_wf_def ack_def)
  have sq: "int (Suc (length [ack ''paused'' []])) \<le> max_sequence sample_running ''task-1''"
    by code_simp
  show ?thesis
    using restarted_numbers_refused [OF sample_linked sample_path reachable_running sample_enrolled(2) sample_lookups(5) prem ev sq, of 0]
    by (simp add: post_ack_def)
qed

section \<open>Signals\<close>




text \<open>Signals are handled at most once per registration. The server sends every signal of an active
  task again with every response; processing the same list a second time changes neither the state
  nor the world. The other side: signals that came while their task was not registered are spent;
  after its registration the same list does nothing, and the task is neither paused nor cancelled.\<close>

theorem signals_processed_once:
  "let after = fold (process_signal cl) sigs (st, s)
   in fold (process_signal cl) sigs after = after
      \<and> fold (process_signal cl) sigs (register_task t (fst after), s') = (register_task t (fst after), s')
      \<and> \<not> is_paused (register_task t (fst after)) t \<and> \<not> is_cancelled (register_task t (fst after)) t"
proof -
  have skip: "fold (process_signal cl) xs (st', s') = (st', s')"
    if "signal_key ` set xs \<subseteq> set (processed_signals st')" for xs st' s'
    using that by (induction xs) (simp_all add: process_signal_def is_signal_processed_def)
  obtain st1 s1 where after: "fold (process_signal cl) sigs (st, s) = (st1, s1)" by force
  then have "signal_key ` set sigs \<subseteq> set (processed_signals st1)"
    using fold_process_state [of cl sigs st s] fold_process_processed [of sigs st] by auto
  then show ?thesis
    using skip [of sigs st1 s1] skip [of sigs "register_task t st1" s'] after
    by (simp add: Let_def is_paused_def is_cancelled_def) (simp add: register_task_def)
qed

definition controls :: "string \<Rightarrow> signal \<Rightarrow> bool" where
  "controls t sig = (sg_task_id sig = t \<and> sg_signal_type sig \<noteq> ''context_injection'')"

definition redirects :: "string \<Rightarrow> signal \<Rightarrow> bool" where
  "redirects t sig = (sg_task_id sig = t \<and> sg_signal_type sig = ''redirect_requested'')"

definition payload_of :: "signal \<Rightarrow> dict" where
  "payload_of sig = (case sg_payload sig of None \<Rightarrow> [] | Some p \<Rightarrow> p)"

lemmas handler_defs = handle_pause_def handle_resume_def handle_cancel_def handle_redirect_def
  handle_context_injection_def wake_def set_pause_event_def set_cancel_def set_redirect_def is_paused_def
  is_cancelled_def get_redirect_def

lemma dispatch_effect:
  assumes "t \<in> registered st" and "sg_signal_type sig \<in> set signal_types" and "context_queue st t = Some q"
  shows "is_cancelled (fst (dispatch_signal sig st)) t
           \<longleftrightarrow> is_cancelled st t \<or> sg_task_id sig = t \<and> sg_signal_type sig \<in> {''cancel_requested'', ''redirect_requested''}"
    and "is_paused (fst (dispatch_signal sig st)) t
           \<longleftrightarrow> (if controls t sig then sg_signal_type sig = ''pause_requested'' else is_paused st t)"
    and "get_redirect (fst (dispatch_signal sig st)) t = (if redirects t sig then Some (payload_of sig) else get_redirect st t)"
    and "context_queue (fst (dispatch_signal sig st)) t
           = Some (q @ (if sg_task_id sig = t \<and> sg_signal_type sig = ''context_injection'' then [payload_of sig] else []))"
proof -
  obtain b where b: "pause_events st t = Some b" using assms(1) by (auto simp: registered_def)
  note ty = assms(2) [unfolded signal_types_def list.set insert_iff empty_iff simp_thms]
  note all = dispatch_signal_def handler_defs has_task_def Let_def controls_def redirects_def payload_of_def
  show "is_cancelled (fst (dispatch_signal sig st)) t
           \<longleftrightarrow> is_cancelled st t \<or> sg_task_id sig = t \<and> sg_signal_type sig \<in> {''cancel_requested'', ''redirect_requested''}"
    using ty b assms(3)
    by (elim disjE; cases "sg_task_id sig = t"; simp add: all split: option.split bool.split)
  show "is_paused (fst (dispatch_signal sig st)) t
           \<longleftrightarrow> (if controls t sig then sg_signal_type sig = ''pause_requested'' else is_paused st t)"
    using ty b assms(3)
    by (elim disjE; cases "sg_task_id sig = t"; simp add: all split: option.split bool.split)
  show "get_redirect (fst (dispatch_signal sig st)) t = (if redirects t sig then Some (payload_of sig) else get_redirect st t)"
    using ty b assms(3)
    by (elim disjE; cases "sg_task_id sig = t"; simp add: all split: option.split bool.split)
  show "context_queue (fst (dispatch_signal sig st)) t
           = Some (q @ (if sg_task_id sig = t \<and> sg_signal_type sig = ''context_injection'' then [payload_of sig] else []))"
    using ty b assms(3)
    by (elim disjE; cases "sg_task_id sig = t"; simp add: all split: option.split bool.split)
qed

lemma mark_effect [simp]:
  "is_cancelled (mark_signal_processed k st) t = is_cancelled st t"
  "is_paused (mark_signal_processed k st) t = is_paused st t"
  "get_redirect (mark_signal_processed k st) t = get_redirect st t"
  "context_queue (mark_signal_processed k st) t = context_queue st t"
  by (simp_all add: is_cancelled_def is_paused_def get_redirect_def mark_signal_processed_def)

text \<open>What signals do to a registered task. After a list of fresh signals with different keys the task
  is cancelled when a cancel or redirect signal for it was among them (or it was before); it is
  paused exactly when the last signal for it other than a context injection was a pause; its
  redirect payload is that of the last redirect; and the payloads of its context injections are
  appended to its queue in order.\<close>

theorem signals_take_effect:
  assumes "t \<in> registered st" and "context_queue st t = Some q"
    and "\<forall>sig \<in> set sigs. sg_signal_type sig \<in> set signal_types"
    and "distinct (map signal_key sigs)" and "signal_key ` set sigs \<inter> set (processed_signals st) = {}"
  shows "let st' = fst (fold (process_signal cl) sigs (st, s))
         in (is_cancelled st' t \<longleftrightarrow> is_cancelled st t
               \<or> (\<exists>sig \<in> set sigs. sg_task_id sig = t \<and> sg_signal_type sig \<in> {''cancel_requested'', ''redirect_requested''}))
            \<and> (is_paused st' t \<longleftrightarrow>
                 (if filter (controls t) sigs = [] then is_paused st t
                  else sg_signal_type (last (filter (controls t) sigs)) = ''pause_requested''))
            \<and> get_redirect st' t = (if filter (redirects t) sigs = [] then get_redirect st t
                                    else Some (payload_of (last (filter (redirects t) sigs))))
            \<and> context_queue st' t = Some (q @ map payload_of
                 (filter (\<lambda>sig. sg_task_id sig = t \<and> sg_signal_type sig = ''context_injection'') sigs))"
  unfolding fold_process_state Let_def
  using assms(3-5)
proof (induction sigs rule: rev_induct)
  case Nil
  then show ?case using assms(2) by simp
next
  case (snoc sig sigs)
  let ?st = "fold process_state sigs st"
  have ih: "(is_cancelled ?st t \<longleftrightarrow> is_cancelled st t
               \<or> (\<exists>sig \<in> set sigs. sg_task_id sig = t \<and> sg_signal_type sig \<in> {''cancel_requested'', ''redirect_requested''}))
            \<and> (is_paused ?st t \<longleftrightarrow>
                 (if filter (controls t) sigs = [] then is_paused st t
                  else sg_signal_type (last (filter (controls t) sigs)) = ''pause_requested''))
            \<and> get_redirect ?st t = (if filter (redirects t) sigs = [] then get_redirect st t
                                    else Some (payload_of (last (filter (redirects t) sigs))))
            \<and> context_queue ?st t = Some (q @ map payload_of
                 (filter (\<lambda>sig. sg_task_id sig = t \<and> sg_signal_type sig = ''context_injection'') sigs))"
    using snoc by auto
  have reg: "t \<in> registered ?st" and ty: "sg_signal_type sig \<in> set signal_types"
    using assms(1) snoc.prems(1) by simp_all
  have "signal_key sig \<notin> set (processed_signals ?st)"
    using snoc.prems(2,3) by (auto simp: fold_process_processed)
  then have step: "fold process_state (sigs @ [sig]) st = mark_signal_processed (signal_key sig) (fst (dispatch_signal sig ?st))"
    by (simp add: process_state_def)
  note cancelled = conjunct1 [OF ih] and paused = conjunct1 [OF conjunct2 [OF ih]]
    and redirect = conjunct1 [OF conjunct2 [OF conjunct2 [OF ih]]]
    and queue = conjunct2 [OF conjunct2 [OF conjunct2 [OF ih]]]
  note effect = dispatch_effect [OF reg ty queue]
  show ?case
    unfolding step mark_effect effect
  proof (intro conjI)
    show "(is_cancelled ?st t \<or> sg_task_id sig = t \<and> sg_signal_type sig \<in> {''cancel_requested'', ''redirect_requested''})
        \<longleftrightarrow> is_cancelled st t \<or> (\<exists>sig \<in> set (sigs @ [sig]).
              sg_task_id sig = t \<and> sg_signal_type sig \<in> {''cancel_requested'', ''redirect_requested''})"
      unfolding cancelled by auto
  qed (simp_all add: paused redirect)
qed

definition sample_signal :: "string \<Rightarrow> signal" where
  "sample_signal ty = \<lparr>sg_task_id = ''task-1'', sg_signal_type = ty, sg_timestamp = ''t'', sg_payload = None\<rparr>"

lemma signals_take_effect_witness:
  "let st' = fst (fold (process_signal sample_client) [sample_signal ''cancel_requested'', sample_signal ''pause_requested'']
                    (register_task ''task-1'' initial_signals, (0, sample_accepted)))
   in is_cancelled st' ''task-1'' \<and> is_paused st' ''task-1''"
proof -
  let ?sigs = "[sample_signal ''cancel_requested'', sample_signal ''pause_requested'']"
  have reg: "''task-1'' \<in> registered (register_task ''task-1'' initial_signals)"
    and queue: "context_queue (register_task ''task-1'' initial_signals) ''task-1'' = Some []"
    by (simp, simp add: register_task_def)
  have types: "\<forall>sig \<in> set ?sigs. sg_signal_type sig \<in> set signal_types"
    and keys: "distinct (map signal_key ?sigs)"
    by (simp_all add: sample_signal_def signal_types_def signal_key_def)
  have new: "signal_key ` set ?sigs \<inter> set (processed_signals (register_task ''task-1'' initial_signals)) = {}"
    by (simp add: register_task_def initial_signals_def)
  show ?thesis
    using signals_take_effect [OF reg queue types keys new, of sample_client "(0, sample_accepted)"]
    by (simp add: Let_def sample_signal_def controls_def)
qed

section \<open>The limits of the sidecar\<close>

text \<open>C33: However polls, signals, executions and their ends interleave, the sidecar keeps its limits: never
  more than \<open>max_concurrent\<close> tasks are in flight, each once; exactly those are registered for
  signals; and both backoffs stay between their bases and caps. A poll round starts only tasks it
  was given, each once and none that is in flight, and leaves one out only when the limit is
  reached.\<close>

theorem agent_keeps_limits:
  assumes "(agent_step mx)\<^sup>*\<^sup>* initial_agent a"
  shows "distinct (in_flight (ag_poller a)) \<and> int (active_task_count (ag_poller a)) \<le> max 0 mx
         \<and> registered (ag_signal_state a) = set (in_flight (ag_poller a))
         \<and> 5 \<le> current_backoff (ag_poller a) \<and> current_backoff (ag_poller a) \<le> 60
         \<and> 2 \<le> ag_signal_backoff a \<and> ag_signal_backoff a \<le> 30
         \<and> (\<forall>tasks. let (flight, st, started) = dispatch_tasks mx tasks (in_flight (ag_poller a)) (ag_signal_state a)
              in distinct (map pt_task_id started) \<and> set started \<subseteq> set tasks
                 \<and> set (map pt_task_id started) \<inter> set (in_flight (ag_poller a)) = {}
                 \<and> int (length flight) \<le> max 0 mx
                 \<and> ((\<forall>task \<in> set tasks. pt_task_id task \<in> set flight) \<or> mx \<le> int (length flight)))"
proof -
  have inv: "agent_inv mx a" by (rule agent.run_keeps_inv [OF assms])
  have dist: "distinct (in_flight (ag_poller a))" "int (length (in_flight (ag_poller a))) \<le> max 0 mx"
    using inv by (simp_all add: agent_inv_def)
  have "let (flight, st, started) = dispatch_tasks mx tasks (in_flight (ag_poller a)) (ag_signal_state a)
              in distinct (map pt_task_id started) \<and> set started \<subseteq> set tasks
                 \<and> set (map pt_task_id started) \<inter> set (in_flight (ag_poller a)) = {}
                 \<and> int (length flight) \<le> max 0 mx
                 \<and> ((\<forall>task \<in> set tasks. pt_task_id task \<in> set flight) \<or> mx \<le> int (length flight))" for tasks
  proof -
    obtain flight st started where d: "dispatch_tasks mx tasks (in_flight (ag_poller a)) (ag_signal_state a) = (flight, st, started)"
      by (cases "dispatch_tasks mx tasks (in_flight (ag_poller a)) (ag_signal_state a)")
    have c: "distinct (rev (map pt_task_id started) @ in_flight (ag_poller a))" "set started \<subseteq> set tasks"
      "int (length flight) \<le> max 0 mx"
      using dispatch_tasks_correct [OF d dist] by metis+
    then show ?thesis using d dispatch_tasks_complete [OF d] by (simp only: Let_def prod.case distinct_append distinct_rev set_rev simp_thms)
  qed
  then show ?thesis
    using inv
    by (simp add: agent_inv_def active_task_count_def poll_base_backoff_def poll_max_backoff_def
        signal_base_backoff_def signal_max_backoff_def del: dispatch_tasks.simps)
qed

lemma agent_keeps_limits_witness: "5 \<le> current_backoff (ag_poller initial_agent)"
  using agent_keeps_limits [OF rtranclp.rtrancl_refl, of 1] by simp

section \<open>What the process survives\<close>



lemma sum_list_take_le: "\<forall>x \<in> set xs. 0 \<le> x \<Longrightarrow> sum_list (take k xs) \<le> sum_list (xs :: int list)"
  by (induction xs arbitrary: k) (auto simp: take_Cons sum_list_nonneg split: nat.split)

text \<open>C34: Registration ends. Whatever the network answers, \<open>self_register\<close> makes between one and ten posts,
  all but the last answered by a connection error or a status that is neither success nor a client
  error, and waits 435 seconds at most; the last answer decides: it returns after a 200 or 201,
  raises after another 4xx or an exception, and after ten fruitless posts it ends the process.\<close>

theorem registration_ends:
  "let r = self_register cl s; seen = replies (register_attempt cl) (rr_posts r) s
   in 1 \<le> rr_posts r \<and> rr_posts r \<le> 10
      \<and> (\<forall>x \<in> set (butlast seen). transient x) \<and> rr_outcome r = outcome_of (last seen)
      \<and> (rr_outcome r = System_Exit \<longrightarrow> rr_posts r = 10)
      \<and> rr_world r = world_after (register_attempt cl) (rr_posts r) s
      \<and> sum_list (rr_sleeps r) \<le> 435"
proof -
  define r where "r = self_register cl s"
  note t = register_loop_trace [OF self_register_def [symmetric, of cl s], of 10, folded r_def, simplified REGISTER_RETRIES_def]
  define k where "k = (if rr_outcome r = System_Exit then rr_posts r else rr_posts r - 1)"
  have k: "k \<le> 10" and sleeps: "rr_sleeps r = map (\<lambda>i. (next_backoff register_max_backoff ^^ i) register_base_backoff) [0..<k]"
    using t by (auto simp: k_def)
  have "[5, 10, 20, 40, 60, 60, 60, 60, 60, 60] = map (\<lambda>i. (next_backoff register_max_backoff ^^ i) register_base_backoff) [0..<10]"
    unfolding register_backoff.iterated by (simp add: upt_rec register_base_backoff_def register_max_backoff_def)
  then have "rr_sleeps r = take k [5, 10, 20, 40, 60, 60, 60, 60, 60, 60]"
    using k sleeps by (metis add_0 take_map take_upt)
  moreover have "sum_list (take k [5, 10, 20, 40, 60, 60, 60, 60, 60, 60]) \<le> sum_list [5, 10, 20, 40, 60, 60, 60, 60, 60, 60 :: int]"
    by (rule sum_list_take_le) simp
  ultimately have "sum_list (rr_sleeps r) \<le> 435" by simp
  then show ?thesis
    using t by (simp add: Let_def r_def [symmetric])
qed

text \<open>A client whose server cannot be reached; its world counts the attempts.\<close>

definition sample_down :: "(unit, nat) client" where
  "sample_down =
     \<lparr>cl_agent_id = ''p'', cl_private_key = (), cl_public_bytes = (\<lambda>_. []), cl_sign = (\<lambda>_ _. []), cl_sha256 = (\<lambda>_. []),
      cl_dump = (\<lambda>_. []), cl_clock = (\<lambda>_. 0), cl_send = (\<lambda>_ n. (Connect_Error, Suc n))\<rparr>"

lemma sample_down_attempts [simp]:
  "register_attempt sample_down n = (Connect_Error, Suc n)" "post_attempt sample_down tid ev n = (Connect_Error, Suc n)"
  by (simp_all add: register_attempt_def post_attempt_def sample_down_def)

lemma down_replies: "(\<And>n. attempt n = (Connect_Error, Suc n)) \<Longrightarrow> set (replies attempt k n) \<subseteq> {Connect_Error}"
  by (induction k arbitrary: n) auto

lemma down_last: "(\<And>n. attempt n = (Connect_Error, Suc n)) \<Longrightarrow> 1 \<le> k \<Longrightarrow> last (replies attempt k n) = Connect_Error"
  using down_replies [of attempt k n] last_in_set [of "replies attempt k n"]
  by (metis length_0_conv not_one_le_zero replies_length singletonD subsetD)

lemma registration_ends_witness:
  "rr_outcome (self_register sample_down 0) = System_Exit \<and> rr_posts (self_register sample_down 0) = 10"
  using registration_ends [of sample_down 0] down_last [of "register_attempt sample_down" _ 0]
  by (auto simp: Let_def)

text \<open>C35: Posting an event is bounded: at most five attempts with waits of 1, 2, 4 and 8 seconds between
  them. All attempts before the last met a connection error or a status of 500 or more; the last one
  decides: a status below 500 ends the post, another exception ends the stream, and only after the
  fifth failure is the event dropped.\<close>

theorem post_event_bounded:
  "let r = post_event cl tid event s; seen = replies (post_attempt cl tid event) (po_attempts r) s
   in 1 \<le> po_attempts r \<and> po_attempts r \<le> 5
      \<and> po_sleeps r = take (po_attempts r - 1) [1, 2, 4, 8]
      \<and> (\<forall>x \<in> set (butlast seen). retried x) \<and> settled (po_posting r) (last seen)
      \<and> (po_posting r = Dropped \<longrightarrow> po_attempts r = 5)
      \<and> po_world r = world_after (post_attempt cl tid event) (po_attempts r) s"
  using post_attempts_trace [OF post_event_def [symmetric], of cl tid event s] post_event_sleeps [of cl tid event s]
  by (simp add: Let_def MAX_RETRIES_def Suc_le_eq)

lemma post_event_bounded_witness:
  "po_posting (post_event sample_down ''task-1'' running_event 0) = Dropped
   \<and> po_attempts (post_event sample_down ''task-1'' running_event 0) = 5"
  using post_event_bounded [of sample_down "''task-1''" running_event 0]
    down_last [of "post_attempt sample_down ''task-1'' running_event" _ 0]
  by (cases "po_posting (post_event sample_down ''task-1'' running_event 0)") (auto simp: Let_def settled_def)

section \<open>The handler\<close>

text \<open>C36: What a handler writes is what is posted: when it writes its events one JSON object to a line and
  no signal comes, the execution yields exactly these events, with their types and data, numbered
  from 1, and ends; a nonzero exit code adds one failed event with the code and the standard error.\<close>

theorem handler_events_read:
  assumes "\<forall>e \<in> set es. wf_json (JObj (snd e))"
  shows "execute task sp (Process code stderr) (map (\<lambda>e. quiet (Line (line_of e))) es @ [quiet Eof])
         = (numbered_from 0 es @
            (if code = 0 then []
             else [failed_event (int (length es) + 1)
                     [(''error'', JStr ''SUBPROCESS_FAILED''), (''exit_code'', JInt code), (''stderr'', JStr stderr)]]),
            Finished)
         \<and> numbered 0 (fst (execute task sp (Process code stderr) (map (\<lambda>e. quiet (Line (line_of e))) es @ [quiet Eof])))
         \<and> (\<forall>e \<in> set es. count_list (line_of e) newline = 1 \<and> last (line_of e) = newline)"
proof -
  have lines: "count_list (line_of e) newline = 1 \<and> last (line_of e) = newline" for e
    using dumps_one_line [of "JObj (written e)"] by (simp add: line_of_def del: json_dumps.simps)
  show ?thesis
    using read_written [OF assms, of "sp \<and> pt_task_id task \<noteq> []" 0] numbered_from_last [of es] lines
      execute_numbered [of task sp "Process code stderr" "map (\<lambda>e. quiet (Line (line_of e))) es @ [quiet Eof]"]
    by (simp add: execute_def Let_def)
qed

lemma handler_events_read_witness:
  "execute (pending_of_task sample_task) False (Process 3 ''bad'') (map (\<lambda>e. quiet (Line (line_of e))) [(''log'', [(''n'', JInt 1)])] @ [quiet Eof])
   = ([\<lparr>ev_type = ''log'', ev_data = Some [(''n'', JInt 1)], ev_sequence = 1\<rparr>,
       failed_event 2 [(''error'', JStr ''SUBPROCESS_FAILED''), (''exit_code'', JInt 3), (''stderr'', JStr ''bad'')]], Finished)"
proof -
  have prem: "\<forall>e \<in> set [(''log'', [(''n'', JInt 1)])]. wf_json (JObj (snd e))" by simp
  show ?thesis
    using handler_events_read [OF prem, of "pending_of_task sample_task" False 3 "''bad''"] by simp
qed

end
