(* ===== verification/Props_Web.thy ===== *)
theory Props_Web
  imports Service_Pages Samples
begin

text \<open>
  The application as a whole: where its links lead, which routes need a signature, what its error
  bodies are, and that its callbacks can be verified with the key it publishes.
\<close>

section \<open>Links\<close>











section \<open>Authentication\<close>





section \<open>Error bodies\<close>

lemma code_value_not_http: "code_value c \<noteq> ''HTTP_'' @ s"
  by (cases c) simp_all

lemma code_value_not_found: "code_value c = code_value ENDPOINT_NOT_FOUND \<longleftrightarrow> c = ENDPOINT_NOT_FOUND"
  by (cases c) simp_all

lemmas handler_defs = http_exception_handler_def validation_error_handler_def unhandled_exception_handler_def

lemma error_dict_fields:
  "dict_get (error_to_dict e) ''error'' = JBool True"
  "dict_get (error_to_dict e) ''code'' = JStr (code_value (fe_code e))"
  "dict_get (error_to_dict e) ''message'' = JStr (fe_message e)"
  by (cases "fe_suggestion e"; simp add: error_to_dict_def Let_def dict_get_def dict_set_def)+

text \<open>Every exception becomes an error body: \<open>error\<close> is true, and \<open>code\<close> and \<open>message\<close> are strings. A
  coded error keeps its code and has the status of the table unless it was given another; an
  unforeseen exception is the same 500 whatever it says; a refused body is a 422 in which everything
  under \<open>ctx\<close> is a string. But an HTTP exception other than a 404, as every authentication error
  is, gets a code that is none of the documented ones.\<close>

theorem error_bodies:
  "(case error_response str_detail str_of method path exc of (status, body) \<Rightarrow>
      dict_get body ''error'' = JBool True \<and> (\<exists>c. dict_get body ''code'' = JStr c)
      \<and> (\<exists>m. dict_get body ''message'' = JStr m))
   \<and> (case error_response str_detail str_of method path (Raised_Fleet (fleet_api_error code msg sug links None)) of
        (status, body) \<Rightarrow> status = error_status_code code \<and> dict_get body ''code'' = JStr (code_value code))
   \<and> error_response str_detail str_of method path (Raised_Other x) = error_response str_detail str_of method path (Raised_Other y)
   \<and> (case error_response str_detail str_of method path (Raised_Validation errors) of
        (status, body) \<Rightarrow> status = 422 \<and> dict_get body ''validation_errors'' = JArr (map (sanitized str_of) errors))
   \<and> (\<forall>k. dict_get (snd (error_response str_detail str_of method path (Raised_Http status detail))) ''code''
              = JStr (code_value k) \<longleftrightarrow> status = 404 \<and> k = ENDPOINT_NOT_FOUND)
   \<and> require_auth get_key is_suspended verify sha256 fromisoformat now request \<noteq> Denied c 404"
proof (intro conjI allI)
  show "case error_response str_detail str_of method path exc of (status, body) \<Rightarrow>
      dict_get body ''error'' = JBool True \<and> (\<exists>c. dict_get body ''code'' = JStr c)
      \<and> (\<exists>m. dict_get body ''message'' = JStr m)"
    by (auto simp: error_response_def handler_defs error_dict_fields dict_get_set dict_get_Cons split: raised.splits)
  show "case error_response str_detail str_of method path (Raised_Fleet (fleet_api_error code msg sug links None)) of
        (status, body) \<Rightarrow> status = error_status_code code \<and> dict_get body ''code'' = JStr (code_value code)"
    by (simp add: error_response_def error_dict_fields) (simp add: fleet_api_error_def)
  show "error_response str_detail str_of method path (Raised_Other x) = error_response str_detail str_of method path (Raised_Other y)"
    by (simp add: error_response_def unhandled_exception_handler_def)
  show "case error_response str_detail str_of method path (Raised_Validation errors) of
        (status, body) \<Rightarrow> status = 422 \<and> dict_get body ''validation_errors'' = JArr (map (sanitized str_of) errors)"
    by (simp add: error_response_def validation_error_handler_def Let_def dict_get_set)
  show "dict_get (snd (error_response str_detail str_of method path (Raised_Http status detail))) ''code'' = JStr (code_value k)
      \<longleftrightarrow> status = 404 \<and> k = ENDPOINT_NOT_FOUND" for k
    using code_value_not_http [of k "int_str status"] code_value_not_found [of k]
    by (auto simp: error_response_def http_exception_handler_def error_dict_fields dict_get_Cons fleet_api_error_def)
  show "require_auth get_key is_suspended verify sha256 fromisoformat now request \<noteq> Denied c 404"
    by (auto simp: require_auth_def Let_def split: option.splits sum.splits lookup_error.splits bool.splits)
qed

section \<open>Callbacks\<close>

text \<open>One process: the pair is asked for again and again, each time with what the environment and the
  generator would give.\<close>

definition key_calls ::
    "('k \<Rightarrow> 'p) \<Rightarrow> (string \<Rightarrow> 'k loaded option) \<Rightarrow> (string option \<times> 'k) list \<Rightarrow> ('k, 'p) keypair \<Rightarrow> ('k, 'p) keypair" where
  "key_calls public_of load_pem calls st =
     fold (\<lambda>(env_key, generated) st. snd (ensure_keypair public_of load_pem env_key generated st)) calls st"

text \<open>C18: Callbacks can be verified. Whatever key text the manifest once published, every callback
  the server posts later in the same process, after any further uses of the key, carries headers with which
  a receiver that reads the published text verifies it: the signature header is the base64 of a
  signature, and that verifies under the published key over the method, the path of the URL, the timestamp
  header and the body. The key does not depend on the environment or the generator after its first use.\<close>

theorem callbacks_verify:
  assumes sound: "\<And>k m. verify (public_of k) (sign k m) m" and readable: "\<And>p. read_public (pem p) = Some p"
    and st: "keypair_ok public_of st"
    and published: "get_server_public_key_pem pem public_of load_pem env_key generated st = (Inr key_text, st1)"
    and later: "get_server_private_key public_of load_pem env_key' generated' (key_calls public_of load_pem calls st1) = (Inr k, st2)"
    and url: "t_callback_url t = Some url"
    and post: "Post body headers \<in> set (snd (deliver_callback (sign k) sha256 url_path now answers t))"
  shows "\<exists>auth p s ts raw. dict_get (build_manifest base_url version key_text) ''auth'' = JObj auth
           \<and> dict_get auth ''server_public_key'' = JStr key_text \<and> read_public key_text = Some p
           \<and> map_of headers ''X-Fleet-Signature'' = Some s \<and> map_of headers ''X-Fleet-Timestamp'' = Some ts
           \<and> b64decode s = Some raw
           \<and> verify p raw (build_signing_string sha256 ''POST'' (if url_path url = [] then ''/'' else url_path url) ts body)
           \<and> body = utf8 (json_dumps (JObj (build_callback_payload t)))"
proof -
  obtain p where p: "get_server_public_key public_of load_pem env_key generated st = (Inr p, st1)" "key_text = pem p"
    using published by (auto simp: get_server_public_key_pem_def split: prod.splits sum.splits)
  obtain k0 where st1: "st1 = Some (k0, p)" using public_key_kept(1) [OF p(1)] by blast
  have "key_calls public_of load_pem cs (Some kp) = Some kp" for cs kp
    by (induction cs) (auto simp: key_calls_def)
  then have "k0 = k" using later st1 by (simp add: get_server_private_key_def)
  moreover have "keypair_ok public_of st1" unfolding public_key_kept(2) [OF p(1)] by (rule ensure_keypair_ok [OF st])
  ultimately have pk: "p = public_of k" using st1 by (simp add: keypair_ok_def)
  have "Post body headers \<in> insert (Post (utf8 (json_dumps (JObj (build_callback_payload t))))
      (callback_headers (sign k) sha256 url_path now url (utf8 (json_dumps (JObj (build_callback_payload t)))))) (range Sleep)"
    using post deliver_loop_same_body url by (fastforce simp: deliver_callback_def Let_def)
  then show ?thesis
    using sound [of k] readable [of p]
    by (auto simp: callback_headers_def sign_callback_def build_signing_string_def Let_def pk p(2) build_manifest_def dict_get_def)
qed

definition sample_called_back :: task where
  "sample_called_back = sample_completed_task\<lparr>t_callback_url := Some ''http://h/cb''\<rparr>"

definition sample_body :: bytes where
  "sample_body = utf8 (json_dumps (JObj (build_callback_payload sample_called_back)))"

lemma callbacks_verify_witness:
  "\<exists>s ts. map_of (callback_headers (\<lambda>m. m) (\<lambda>_. ''00'') (\<lambda>_. ''/cb'') 9 ''http://h/cb'' sample_body) ''X-Fleet-Signature'' = Some s
     \<and> b64decode s = Some (build_signing_string (\<lambda>_. ''00'') ''POST'' ''/cb'' ts sample_body)"
proof -
  let ?ensure = "ensure_keypair nat_str (\<lambda>_. None)" and ?sign = "\<lambda>k m. m"
  have sound: "\<And>k m. (\<lambda>p s m. s = m) (nat_str k) (?sign k m) (m :: bytes)" by simp
  have readable: "\<And>p. Some (id p) = Some p" by simp
  have st: "keypair_ok nat_str None" by (simp add: keypair_ok_def)
  have pub: "get_server_public_key_pem id nat_str (\<lambda>_. None) None 5 None = (Inr (nat_str 5), Some (5, nat_str 5))"
    by (simp add: get_server_public_key_pem_def get_server_public_key_def ensure_keypair_def load_or_generate_keypair_def)
  have later: "get_server_private_key nat_str (\<lambda>_. None) None 7 (key_calls nat_str (\<lambda>_. None) [(Some ''bad'', 6)] (Some (5, nat_str 5)))
      = (Inr 5, Some (5, nat_str 5))"
    by (simp add: key_calls_def get_server_private_key_def)
  have url: "t_callback_url sample_called_back = Some ''http://h/cb''" by (simp add: sample_called_back_def)
  have post: "Post sample_body (callback_headers (\<lambda>m. m) (\<lambda>_. ''00'') (\<lambda>_. ''/cb'') 9 ''http://h/cb'' sample_body)
      \<in> set (snd (deliver_callback (?sign (5 :: nat)) (\<lambda>_. ''00'') (\<lambda>_. ''/cb'') 9 (\<lambda>_. Some 200) sample_called_back))"
    by (simp add: deliver_callback_def url Let_def sample_body_def MAX_ATTEMPTS_def RETRY_DELAYS_def)
  show ?thesis
    using callbacks_verify [where verify = "\<lambda>p s m. s = m" and sign = ?sign and read_public = Some and base_url = "[]" and version = "[]", OF sound readable st pub later url post]
    by auto
qed

end
