(* ===== verification/Schema.thy ===== *)
theory Schema
  imports Models
begin

text \<open>
  The migrations \<open>src/alembic/versions\<close> as lists of operations, what the operations do to a schema, and
  the schema the ORM classes declare (\<open>agents/models.py\<close>, \<open>workflows/models.py\<close>, \<open>tasks/models.py\<close>).
\<close>

section \<open>Schemas\<close>

datatype column_type =
    String_Type nat | Text_Type | Jsonb_Type | Integer_Type | Big_Integer_Type | Timestamp_Type
  | Enum_Type string

record column =
  co_name :: string
  co_type :: column_type
  co_nullable :: bool
  co_default :: "string option"
  co_primary :: bool
  co_unique :: bool
  co_reference :: "string option"

definition col :: "string \<Rightarrow> column_type \<Rightarrow> bool \<Rightarrow> column" where
  "col name ty nullable =
     \<lparr>co_name = name, co_type = ty, co_nullable = nullable, co_default = None, co_primary = False,
      co_unique = False, co_reference = None\<rparr>"

definition col_default :: "string \<Rightarrow> column_type \<Rightarrow> string \<Rightarrow> column" where
  "col_default name ty v = (col name ty False)\<lparr>co_default := Some v\<rparr>"

definition col_key :: "string \<Rightarrow> column_type \<Rightarrow> column" where
  "col_key name ty = (col name ty False)\<lparr>co_primary := True\<rparr>"

definition col_ref :: "string \<Rightarrow> string \<Rightarrow> bool \<Rightarrow> column" where
  "col_ref name referenced nullable = (col name (String_Type 128) nullable)\<lparr>co_reference := Some referenced\<rparr>"

record index_def =
  ix_name :: string
  ix_table :: string
  ix_columns :: "string list"
  ix_unique :: bool

record schema =
  sc_tables :: "(string \<times> column list) list"
  sc_indexes :: "index_def list"
  sc_enums :: "(string \<times> string list) list"

definition empty_schema :: schema where
  "empty_schema = \<lparr>sc_tables = [], sc_indexes = [], sc_enums = []\<rparr>"

section \<open>Operations\<close>

text \<open>The operations of \<open>op\<close> the migrations use. Creating a table creates the enum types of its columns.\<close>

datatype ddl =
    Create_Table string "column list" "(string \<times> string list) list"
  | Drop_Table string
  | Add_Column string column
  | Drop_Column string string
  | Set_Default string string "string option"
  | Rename_Column string string string
  | Create_Index string string "string list" bool
  | Drop_Index string string
  | Drop_Enum string

definition references_known :: "string \<Rightarrow> column list \<Rightarrow> schema \<Rightarrow> bool" where
  "references_known t cs s =
     list_all (\<lambda>c. case co_reference c of None \<Rightarrow> True | Some r \<Rightarrow> r = t \<or> map_of (sc_tables s) r \<noteq> None) cs"

definition referenced_by_others :: "string \<Rightarrow> schema \<Rightarrow> bool" where
  "referenced_by_others t s =
     list_ex (\<lambda>(u, cs). u \<noteq> t \<and> list_ex (\<lambda>c. co_reference c = Some t) cs) (sc_tables s)"

definition enum_used :: "string \<Rightarrow> schema \<Rightarrow> bool" where
  "enum_used n s = list_ex (\<lambda>(u, cs). list_ex (\<lambda>c. co_type c = Enum_Type n) cs) (sc_tables s)"

definition has_column :: "schema \<Rightarrow> string \<Rightarrow> string \<Rightarrow> bool" where
  "has_column s t c =
     (case map_of (sc_tables s) t of None \<Rightarrow> False | Some cs \<Rightarrow> list_ex (\<lambda>x. co_name x = c) cs)"

definition change_table :: "string \<Rightarrow> (column list \<Rightarrow> column list) \<Rightarrow> schema \<Rightarrow> schema" where
  "change_table t f s = s\<lparr>sc_tables := map (\<lambda>(u, cs). (u, if u = t then f cs else cs)) (sc_tables s)\<rparr>"

text \<open>What the database does with an operation; None is an error, on which the migration is rolled back.\<close>

fun apply_ddl :: "ddl \<Rightarrow> schema \<Rightarrow> schema option" where
  "apply_ddl (Create_Table t cs enums) s =
     (if map_of (sc_tables s) t \<noteq> None \<or> \<not> references_known t cs s
         \<or> list_ex (\<lambda>(n, _). map_of (sc_enums s) n \<noteq> None) enums
         \<or> list_ex (\<lambda>c. case co_type c of Enum_Type n \<Rightarrow> map_of (enums @ sc_enums s) n = None | _ \<Rightarrow> False) cs
      then None
      else Some (s\<lparr>sc_tables := sc_tables s @ [(t, cs)], sc_enums := sc_enums s @ enums\<rparr>))"
| "apply_ddl (Drop_Table t) s =
     (if map_of (sc_tables s) t = None \<or> referenced_by_others t s then None
      else Some (s\<lparr>sc_tables := filter (\<lambda>(u, _). u \<noteq> t) (sc_tables s),
                   sc_indexes := filter (\<lambda>i. ix_table i \<noteq> t) (sc_indexes s)\<rparr>))"
| "apply_ddl (Add_Column t c) s =
     (if map_of (sc_tables s) t = None \<or> has_column s t (co_name c) then None
      else Some (change_table t (\<lambda>cs. cs @ [c]) s))"
| "apply_ddl (Drop_Column t c) s =
     (if \<not> has_column s t c then None else Some (change_table t (filter (\<lambda>x. co_name x \<noteq> c)) s))"
| "apply_ddl (Set_Default t c v) s =
     (if \<not> has_column s t c then None
      else Some (change_table t (map (\<lambda>x. if co_name x = c then x\<lparr>co_default := v\<rparr> else x)) s))"
| "apply_ddl (Rename_Column t c c') s =
     (if \<not> has_column s t c \<or> has_column s t c' then None
      else Some (change_table t (map (\<lambda>x. if co_name x = c then x\<lparr>co_name := c'\<rparr> else x)) s))"
| "apply_ddl (Create_Index n t cs u) s =
     (if \<not> list_all (has_column s t) cs \<or> n \<in> ix_name ` set (sc_indexes s) then None
      else Some (s\<lparr>sc_indexes := sc_indexes s @ [\<lparr>ix_name = n, ix_table = t, ix_columns = cs, ix_unique = u\<rparr>]\<rparr>))"
| "apply_ddl (Drop_Index n t) s =
     (if n \<notin> ix_name ` set (sc_indexes s) then None
      else Some (s\<lparr>sc_indexes := filter (\<lambda>i. ix_name i \<noteq> n) (sc_indexes s)\<rparr>))"
| "apply_ddl (Drop_Enum n) s =
     (if map_of (sc_enums s) n = None \<or> enum_used n s then None
      else Some (s\<lparr>sc_enums := filter (\<lambda>(m, _). m \<noteq> n) (sc_enums s)\<rparr>))"

fun run_ddl :: "ddl list \<Rightarrow> schema \<Rightarrow> schema option" where
  "run_ddl [] s = Some s"
| "run_ddl (x # xs) s = (case apply_ddl x s of None \<Rightarrow> None | Some s' \<Rightarrow> run_ddl xs s')"

section \<open>The migrations\<close>

definition upgrade_001 :: "ddl list" where
  "upgrade_001 =
     [Create_Table ''agents''
        [col_key ''id'' (String_Type 128), col ''display_name'' (String_Type 256) True,
         col ''public_key'' Text_Type False, col ''capabilities'' Jsonb_Type True,
         col_default ''status'' (Enum_Type ''agent_status'') ''registered'',
         col ''last_heartbeat'' Timestamp_Type True,
         col_default ''registered_at'' Timestamp_Type ''now()'', col ''metadata'' Jsonb_Type True]
        [(''agent_status'', [''registered'', ''active'', ''unreachable'', ''suspended''])],
      Create_Table ''workflows''
        [col_key ''id'' (String_Type 128), col_ref ''owner_agent_id'' ''agents'' False,
         col ''description'' Text_Type True, col ''input_schema'' Jsonb_Type True,
         col ''output_schema'' Jsonb_Type True, col ''estimated_duration_seconds'' Integer_Type True,
         col ''timeout_seconds'' Integer_Type True, col_default ''result_retention_days'' Integer_Type ''30'',
         col_default ''status'' (Enum_Type ''workflow_status'') ''active'', col ''tags'' Jsonb_Type True,
         col_default ''created_at'' Timestamp_Type ''now()'', col ''updated_at'' Timestamp_Type True]
        [(''workflow_status'', [''active'', ''deprecated''])],
      Create_Table ''tasks''
        [col_key ''id'' (String_Type 128), col_ref ''workflow_id'' ''workflows'' False,
         col_ref ''principal_agent_id'' ''agents'' False, col_ref ''executor_agent_id'' ''agents'' True,
         col_default ''status'' (Enum_Type ''task_status'') ''accepted'', col ''input'' Jsonb_Type False,
         col ''result'' Jsonb_Type True, col_default ''priority'' (Enum_Type ''task_priority'') ''normal'',
         col ''timeout_seconds'' Integer_Type True, col_ref ''parent_task_id'' ''tasks'' True,
         col_ref ''root_task_id'' ''tasks'' True, col_default ''retask_depth'' Integer_Type ''0'',
         col_default ''delegation_depth'' Integer_Type ''0'',
         (col ''idempotency_key'' (String_Type 256) True)\<lparr>co_unique := True\<rparr>,
         col_default ''created_at'' Timestamp_Type ''now()'', col ''started_at'' Timestamp_Type True,
         col ''completed_at'' Timestamp_Type True, col ''metadata'' Jsonb_Type True]
        [(''task_status'', [''accepted'', ''running'', ''paused'', ''completed'', ''failed'', ''cancelled'',
            ''retasked'', ''redirected'']),
         (''task_priority'', [''low'', ''normal'', ''high'', ''critical''])],
      Create_Table ''task_events''
        [col_key ''id'' Big_Integer_Type, col_ref ''task_id'' ''tasks'' False,
         col ''event_type'' (String_Type 64) False, col ''data'' Jsonb_Type True,
         col ''sequence'' Integer_Type False, col_default ''created_at'' Timestamp_Type ''now()''] [],
      Create_Index ''ix_tasks_workflow_id'' ''tasks'' [''workflow_id''] False,
      Create_Index ''ix_tasks_status'' ''tasks'' [''status''] False,
      Create_Index ''ix_tasks_principal_agent_id'' ''tasks'' [''principal_agent_id''] False,
      Create_Index ''ix_tasks_executor_agent_id'' ''tasks'' [''executor_agent_id''] False,
      Create_Index ''ix_tasks_parent_task_id'' ''tasks'' [''parent_task_id''] False,
      Create_Index ''ix_tasks_root_task_id'' ''tasks'' [''root_task_id''] False,
      Create_Index ''ix_task_events_task_id'' ''task_events'' [''task_id''] False,
      Create_Index ''ix_task_events_task_id_sequence'' ''task_events'' [''task_id'', ''sequence''] True]"

definition downgrade_001 :: "ddl list" where
  "downgrade_001 =
     [Drop_Index ''ix_task_events_task_id_sequence'' ''task_events'',
      Drop_Index ''ix_task_events_task_id'' ''task_events'',
      Drop_Index ''ix_tasks_root_task_id'' ''tasks'',
      Drop_Index ''ix_tasks_parent_task_id'' ''tasks'',
      Drop_Index ''ix_tasks_executor_agent_id'' ''tasks'',
      Drop_Index ''ix_tasks_principal_agent_id'' ''tasks'',
      Drop_Index ''ix_tasks_status'' ''tasks'',
      Drop_Index ''ix_tasks_workflow_id'' ''tasks'',
      Drop_Table ''task_events'', Drop_Table ''tasks'', Drop_Table ''workflows'', Drop_Table ''agents'',
      Drop_Enum ''task_priority'', Drop_Enum ''task_status'', Drop_Enum ''workflow_status'',
      Drop_Enum ''agent_status'']"

definition upgrade_002 :: "ddl list" where
  "upgrade_002 =
     [Add_Column ''workflows'' (col_default ''name'' (String_Type 256) ''Unnamed''),
      Set_Default ''workflows'' ''name'' None]"

definition downgrade_002 :: "ddl list" where
  "downgrade_002 = [Drop_Column ''workflows'' ''name'']"

definition upgrade_003 :: "ddl list" where
  "upgrade_003 = [Add_Column ''tasks'' (col ''callback_url'' (String_Type 2048) True)]"

definition downgrade_003 :: "ddl list" where
  "downgrade_003 = [Drop_Column ''tasks'' ''callback_url'']"

definition upgrade_004 :: "ddl list" where
  "upgrade_004 = [Add_Column ''tasks'' (col ''paused_at'' Timestamp_Type True)]"

definition downgrade_004 :: "ddl list" where
  "downgrade_004 = [Drop_Column ''tasks'' ''paused_at'']"

definition upgrade_005 :: "ddl list" where
  "upgrade_005 = [Rename_Column ''tasks'' ''retask_depth'' ''lineage_depth'']"

definition downgrade_005 :: "ddl list" where
  "downgrade_005 = [Rename_Column ''tasks'' ''lineage_depth'' ''retask_depth'']"

text \<open>Each revision with its \<open>down_revision\<close> before it.\<close>

definition migrations :: "(ddl list \<times> ddl list) list" where
  "migrations =
     [(upgrade_001, downgrade_001), (upgrade_002, downgrade_002), (upgrade_003, downgrade_003),
      (upgrade_004, downgrade_004), (upgrade_005, downgrade_005)]"

definition upgrade_to :: "nat \<Rightarrow> schema option" where
  "upgrade_to n = run_ddl (concat (map fst (take n migrations))) empty_schema"

section \<open>The ORM\<close>

definition orm_tables :: "(string \<times> column list) list" where
  "orm_tables =
     [(''agents'',
       [col_key ''id'' (String_Type 128), col ''display_name'' (String_Type 256) True,
        col ''public_key'' Text_Type False, col ''capabilities'' Jsonb_Type True,
        col_default ''status'' (Enum_Type ''agent_status'') ''registered'',
        col ''last_heartbeat'' Timestamp_Type True,
        col_default ''registered_at'' Timestamp_Type ''now()'', col ''metadata'' Jsonb_Type True]),
      (''workflows'',
       [col_key ''id'' (String_Type 128), col ''name'' (String_Type 256) False,
        col_ref ''owner_agent_id'' ''agents'' False, col ''description'' Text_Type True,
        col ''input_schema'' Jsonb_Type True, col ''output_schema'' Jsonb_Type True,
        col ''estimated_duration_seconds'' Integer_Type True, col ''timeout_seconds'' Integer_Type True,
        col_default ''result_retention_days'' Integer_Type ''30'',
        col_default ''status'' (Enum_Type ''workflow_status'') ''active'', col ''tags'' Jsonb_Type True,
        col_default ''created_at'' Timestamp_Type ''now()'', col ''updated_at'' Timestamp_Type True]),
      (''tasks'',
       [col_key ''id'' (String_Type 128), col_ref ''workflow_id'' ''workflows'' False,
        col_ref ''principal_agent_id'' ''agents'' False, col_ref ''executor_agent_id'' ''agents'' True,
        col_default ''status'' (Enum_Type ''task_status'') ''accepted'', col ''input'' Jsonb_Type False,
        col ''result'' Jsonb_Type True, col_default ''priority'' (Enum_Type ''task_priority'') ''normal'',
        col ''timeout_seconds'' Integer_Type True, col_ref ''parent_task_id'' ''tasks'' True,
        col_ref ''root_task_id'' ''tasks'' True, col_default ''lineage_depth'' Integer_Type ''0'',
        col_default ''delegation_depth'' Integer_Type ''0'', col ''callback_url'' (String_Type 2048) True,
        (col ''idempotency_key'' (String_Type 256) True)\<lparr>co_unique := True\<rparr>,
        col_default ''created_at'' Timestamp_Type ''now()'', col ''started_at'' Timestamp_Type True,
        col ''completed_at'' Timestamp_Type True, col ''paused_at'' Timestamp_Type True,
        col ''metadata'' Jsonb_Type True]),
      (''task_events'',
       [col_key ''id'' Big_Integer_Type, col_ref ''task_id'' ''tasks'' False,
        col ''event_type'' (String_Type 64) False, col ''data'' Jsonb_Type True,
        col ''sequence'' Integer_Type False, col_default ''created_at'' Timestamp_Type ''now()''])]"

text \<open>\<open>values_callable\<close>: the values of the enum classes, in their order.\<close>

definition orm_enums :: "(string \<times> string list) list" where
  "orm_enums =
     [(''agent_status'', map agent_status_value [REGISTERED, ACTIVE, UNREACHABLE, SUSPENDED]),
      (''workflow_status'', map workflow_status_value [WF_ACTIVE, WF_DEPRECATED]),
      (''task_status'', map status_value [ACCEPTED, RUNNING, PAUSED, COMPLETED, FAILED, CANCELLED, RETASKED, REDIRECTED]),
      (''task_priority'', map priority_value [LOW, NORMAL, HIGH, CRITICAL])]"

text \<open>The columns declared with \<open>index=True\<close>.\<close>

definition orm_indexes :: "index_def list" where
  "orm_indexes =
     [\<lparr>ix_name = ''ix_tasks_parent_task_id'', ix_table = ''tasks'', ix_columns = [''parent_task_id''], ix_unique = False\<rparr>,
      \<lparr>ix_name = ''ix_tasks_root_task_id'', ix_table = ''tasks'', ix_columns = [''root_task_id''], ix_unique = False\<rparr>]"

text \<open>Schemas up to the order of the columns of a table.\<close>

definition same_columns :: "(string \<times> column list) list \<Rightarrow> (string \<times> column list) list \<Rightarrow> bool" where
  "same_columns ts us =
     (map fst ts = map fst us
      \<and> list_all (\<lambda>((_, cs), (_, ds)). distinct cs \<and> distinct ds \<and> set cs = set ds) (zip ts us))"

end
