(* ===== verification/Props_Schema.thy ===== *)
theory Props_Schema
  imports Schema
begin

text \<open>The property of the migrations.\<close>








end
