(* ===== verification/Task_Run.thy ===== *)
theory Task_Run
  imports Sidecar_Session Overlap
begin

text \<open>
  A whole run of a task: what each event of an execution does to the task that is executed, from the status
  that starts it to the completion that ends it.
\<close>

section \<open>One event\<close>

text \<open>An event of the assigned executor that can be applied is applied and logged with its number; any other
  event is without effect.\<close>

lemma deliver_applied:
  assumes "db_inv mx d" and "get_task d tid = Some t" and "t_executor t = Some agent" and "int4 k"
    and "ev_type ev \<in> set valid_event_types" and "ev_data ev = Some data" and "max_sequence d tid < k"
    and "apply_event env (ev_type ev) data t = Inr t'"
  shows "get_task (deliver env agent tid k ev d) tid = Some t'" and "max_sequence (deliver env agent tid k ev d) tid = k"
proof -
  let ?e = "new_event tid (ev_type ev) (Some data) k (env_now env)\<lparr>e_id := db_next_event_id d\<rparr>"
  obtain d' where d': "snd (run_tx (process_sidecar_event env tid (ev_type ev) data k agent d) d) = d'"
      "get_task d' tid = Some t'" "task_events d' tid = task_events d tid @ [?e]"
    using sidecar_accepted [OF assms(1-3,5,7,4,8)] by fastforce
  have "e_sequence ?e = k" by (simp add: new_event_def)
  then have "max_sequence d' tid = k" using max_sequence_append [OF d'(3)] assms(7) by simp
  then show "get_task (deliver env agent tid k ev d) tid = Some t'" "max_sequence (deliver env agent tid k ev d) tid = k"
    using d' assms(6) by (simp_all add: deliver_def)
qed

lemma deliver_cases:
  assumes "db_inv mx d" and "get_task d tid = Some t" and "t_executor t = Some agent" and "int4 k"
  obtains (refused) "deliver env agent tid k ev d = d"
  | (applied) data t' where "ev_data ev = Some data" "max_sequence d tid < k" "apply_event env (ev_type ev) data t = Inr t'"
      "get_task (deliver env agent tid k ev d) tid = Some t'" "max_sequence (deliver env agent tid k ev d) tid = k"
proof (cases "\<exists>data t'. ev_data ev = Some data \<and> ev_type ev \<in> set valid_event_types \<and> max_sequence d tid < k
                \<and> apply_event env (ev_type ev) data t = Inr t'")
  case True
  then obtain data t' where app: "ev_data ev = Some data" "ev_type ev \<in> set valid_event_types" "max_sequence d tid < k"
      "apply_event env (ev_type ev) data t = Inr t'" by blast
  then show ?thesis using applied deliver_applied [OF assms app(2,1,3,4)] by blast
next
  case False
  then have "deliver env agent tid k ev d = d"
    using assms(2,3) by (auto simp: deliver_def process_sidecar_event_def split: option.split sum.split)
  then show ?thesis by (rule refused)
qed

text \<open>Only a status, a completed and a failed event change the status.\<close>

lemma apply_steady:
  "apply_event env ty data t = Inr t' \<Longrightarrow> ty \<notin> {''status'', ''completed'', ''failed''} \<Longrightarrow> t_status t' = t_status t"
  by (auto simp: apply_event_def record_progress_def Let_def split: if_splits)

section \<open>The events of an execution\<close>

text \<open>The task as it is between two events: still with its executor, in a status, its log numbered to at most \<open>k\<close>.\<close>

definition in_work :: "int \<Rightarrow> string \<Rightarrow> string \<Rightarrow> task \<Rightarrow> task_status \<Rightarrow> int \<Rightarrow> db \<Rightarrow> bool" where
  "in_work mx agent tid t s k d =
     (db_inv mx d \<and> max_sequence d tid \<le> k \<and> t_executor t = Some agent
      \<and> (\<exists>u. get_task d tid = Some u \<and> same_identity t u \<and> t_status u = s))"

lemma deliver_inv: "db_inv mx d \<Longrightarrow> db_inv mx (deliver env agent tid k ev d)"
  by (auto simp: deliver_def intro: sidecar_op.run_inv split: option.split)

lemma in_work_task:
  "in_work mx agent tid t s k d \<Longrightarrow> \<exists>u. get_task d tid = Some u \<and> same_identity t u \<and> t_status u = s \<and> t_executor u = Some agent"
  by (auto simp: in_work_def same_identity_def)

lemma steady_event:
  assumes "in_work mx agent tid t s k d" and "ev_type ev \<notin> {''status'', ''completed'', ''failed''}" and "int4 (k + 1)"
  shows "in_work mx agent tid t s (k + 1) (deliver env agent tid (k + 1) ev d)"
proof -
  obtain u where u: "get_task d tid = Some u" "same_identity t u" "t_status u = s" "t_executor u = Some agent"
    using in_work_task [OF assms(1)] by blast
  have inv: "db_inv mx d" "max_sequence d tid \<le> k" "t_executor t = Some agent" using assms(1) by (auto simp: in_work_def)
  show ?thesis
  proof (rule deliver_cases [OF inv(1) u(1,4) assms(3), where env = env and ev = ev])
    assume "deliver env agent tid (k + 1) ev d = d"
    then show ?thesis using assms(1) by (auto simp: in_work_def)
  next
    fix data u'
    assume "apply_event env (ev_type ev) data u = Inr u'" "get_task (deliver env agent tid (k + 1) ev d) tid = Some u'"
      "max_sequence (deliver env agent tid (k + 1) ev d) tid = k + 1"
    then show ?thesis
      using apply_steady [OF _ assms(2)] apply_event_evolves evolves_identity same_identity_trans [OF u(2)]
        deliver_inv [OF inv(1)] inv(3) u(3) unfolding in_work_def by fastforce
  qed
qed

lemma steady_events:
  assumes "in_work mx agent tid t s k d" and "\<forall>ev \<in> set events. ev_type ev \<notin> {''status'', ''completed'', ''failed''}"
    and "0 \<le> k" and "k + int (length events) \<le> 2147483647"
  shows "in_work mx agent tid t s (k + int (length events)) (deliver_all envs n agent tid k events d)"
  using assms
proof (induction events arbitrary: n k d)
  case (Cons ev events)
  have "in_work mx agent tid t s (k + 1) (deliver (envs n) agent tid (k + 1) ev d)"
    using Cons.prems by (intro steady_event) (auto simp: int4_def)
  from Cons.IH [OF this] Cons.prems(2-4) show ?case by (simp add: add.assoc)
qed simp

lemma deliver_all_append:
  "deliver_all envs n agent tid k (xs @ ys) d
     = deliver_all envs (n + length xs) agent tid (k + int (length xs)) ys (deliver_all envs n agent tid k xs d)"
  by (induction xs arbitrary: n k d) (simp_all add: algebra_simps)

text \<open>The status that starts the task, and the completion that ends it.\<close>

lemma start_event:
  assumes "in_work mx agent tid t ACCEPTED k d" and "ev_type ev = ''status''" and "ev_data ev = Some data"
    and "dict_get_or data ''status'' (JStr []) = JStr ''running''" and "int4 (k + 1)"
  shows "in_work mx agent tid t RUNNING (k + 1) (deliver env agent tid (k + 1) ev d)"
proof -
  obtain u where u: "get_task d tid = Some u" "same_identity t u" "t_status u = ACCEPTED" "t_executor u = Some agent"
    using in_work_task [OF assms(1)] by blast
  have inv: "db_inv mx d" "max_sequence d tid \<le> k" "t_executor t = Some agent" using assms(1) by (auto simp: in_work_def)
  have "status_of_value ''running'' = Some RUNNING" by code_simp
  then obtain u' where app: "apply_event env ''status'' data u = Inr u'" "t_status u' = RUNNING"
    using u(3) assms(4) by (auto simp: apply_event_def transition_to_def validate_transition_def)
  have "''status'' \<in> set valid_event_types" by (simp add: valid_event_types_def)
  note d = deliver_applied [OF inv(1) u(1,4) assms(5) _ assms(3), unfolded assms(2), OF this _ app(1)]
  have "same_identity t u'"
    using apply_event_evolves [OF app(1)] evolves_identity same_identity_trans [OF u(2)] by blast
  then show ?thesis using d inv app(2) deliver_inv [OF inv(1)] by (simp add: in_work_def)
qed

lemma completed_event:
  assumes "in_work mx agent tid t RUNNING k d" and "ev_type ev = ''completed''" and "ev_data ev = Some data" and "int4 (k + 1)"
  shows "in_work mx agent tid t COMPLETED (k + 1) (deliver env agent tid (k + 1) ev d)"
    and "map_option t_result (get_task (deliver env agent tid (k + 1) ev d) tid) = Some (dict_get data ''result'')"
proof -
  obtain u where u: "get_task d tid = Some u" "same_identity t u" "t_status u = RUNNING" "t_executor u = Some agent"
    using in_work_task [OF assms(1)] by blast
  have inv: "db_inv mx d" "max_sequence d tid \<le> k" "t_executor t = Some agent" using assms(1) by (auto simp: in_work_def)
  obtain u' where app: "apply_event env ''completed'' data u = Inr u'" "t_status u' = COMPLETED" "t_result u' = dict_get data ''result''"
    using u(3) by (auto simp: apply_event_def transition_to_def validate_transition_def record_completion_def Let_def)
  have "''completed'' \<in> set valid_event_types" by (simp add: valid_event_types_def)
  note d = deliver_applied [OF inv(1) u(1,4) assms(4) _ assms(3), unfolded assms(2), OF this _ app(1)]
  have "same_identity t u'"
    using apply_event_evolves [OF app(1)] evolves_identity same_identity_trans [OF u(2)] by blast
  then show "in_work mx agent tid t COMPLETED (k + 1) (deliver env agent tid (k + 1) ev d)"
    and "map_option t_result (get_task (deliver env agent tid (k + 1) ev d) tid) = Some (dict_get data ''result'')"
    using d inv app(2,3) deliver_inv [OF inv(1)] by (simp_all add: in_work_def)
qed

text \<open>Both endings: the status and the result they leave.\<close>

lemma failing_event:
  assumes "in_work mx agent tid t RUNNING k d" and "ev_type ev = ''failed''" and "ev_data ev = Some data" and "int4 (k + 1)"
  shows "in_work mx agent tid t FAILED (k + 1) (deliver env agent tid (k + 1) ev d)"
    and "map_option t_result (get_task (deliver env agent tid (k + 1) ev d) tid)
         = Some (JObj [(''error_code'', dict_get data ''error_code''), (''message'', dict_get data ''message'')])"
proof -
  obtain u where u: "get_task d tid = Some u" "same_identity t u" "t_status u = RUNNING" "t_executor u = Some agent"
    using in_work_task [OF assms(1)] by blast
  have inv: "db_inv mx d" "max_sequence d tid \<le> k" "t_executor t = Some agent" using assms(1) by (auto simp: in_work_def)
  obtain u' where app: "apply_event env ''failed'' data u = Inr u'" "t_status u' = FAILED"
      "t_result u' = JObj [(''error_code'', dict_get data ''error_code''), (''message'', dict_get data ''message'')]"
    using u(3) by (auto simp: apply_event_def transition_to_def validate_transition_def)
  have "''failed'' \<in> set valid_event_types" by (simp add: valid_event_types_def)
  note d = deliver_applied [OF inv(1) u(1,4) assms(4) _ assms(3), unfolded assms(2), OF this _ app(1)]
  have "same_identity t u'"
    using apply_event_evolves [OF app(1)] evolves_identity same_identity_trans [OF u(2)] by blast
  then show "in_work mx agent tid t FAILED (k + 1) (deliver env agent tid (k + 1) ev d)"
    and "map_option t_result (get_task (deliver env agent tid (k + 1) ev d) tid)
         = Some (JObj [(''error_code'', dict_get data ''error_code''), (''message'', dict_get data ''message'')])"
    using d inv app(2,3) deliver_inv [OF inv(1)] by (simp_all add: in_work_def)
qed

section \<open>A whole run\<close>

lemma numbered_from_append: "numbered_from k (xs @ ys) = numbered_from k xs @ numbered_from (k + int (length xs)) ys"
  by (induction xs arbitrary: k) (simp_all add: algebra_simps)

lemma numbered_from_types: "ev \<in> set (numbered_from k es) \<Longrightarrow> ev_type ev \<in> fst ` set es"
  by (induction es arbitrary: k) auto

text \<open>A handler that reports its task as running, then anything that is no status and no ending; and one that
  reports its completion then.\<close>

definition started_run :: "dict \<Rightarrow> (string \<times> dict) list \<Rightarrow> (string \<times> dict) list" where
  "started_run start mid = (''status'', start) # mid"

definition whole_run :: "dict \<Rightarrow> (string \<times> dict) list \<Rightarrow> dict \<Rightarrow> (string \<times> dict) list" where
  "whole_run start mid data = started_run start mid @ [(''completed'', data)]"

text \<open>What is written by a handler that has started its task, and then exits.\<close>

definition starts_task :: "dict \<Rightarrow> (string \<times> dict) list \<Rightarrow> bool" where
  "starts_task start mid =
     (dict_get_or start ''status'' (JStr []) = JStr ''running''
      \<and> (\<forall>e \<in> set mid. fst e \<notin> {''status'', ''completed'', ''failed''})
      \<and> (\<forall>e \<in> set (started_run start mid). wf_json (JObj (snd e)))
      \<and> 3 + int (length mid) \<le> 2147483647)"

lemma started_run_delivered:
  assumes "in_work mx agent tid t ACCEPTED 1 d" and run: "starts_task start mid"
  shows "in_work mx agent tid t RUNNING (2 + int (length mid))
           (deliver_all envs n agent tid 1 (numbered_from 0 (started_run start mid)) d)"
proof -
  let ?d1 = "deliver (envs n) agent tid 2 \<lparr>ev_type = ''status'', ev_data = Some start, ev_sequence = 1\<rparr> d"
  have mid: "\<forall>ev \<in> set (numbered_from 1 mid). ev_type ev \<notin> {''status'', ''completed'', ''failed''}"
    using run numbered_from_types [of _ 1 mid] unfolding starts_task_def by fastforce
  have "in_work mx agent tid t RUNNING (1 + 1)
      (deliver (envs n) agent tid (1 + 1) \<lparr>ev_type = ''status'', ev_data = Some start, ev_sequence = 1\<rparr> d)"
    using run by (intro start_event [where data = start, OF assms(1)]) (auto simp: starts_task_def int4_def)
  then have "in_work mx agent tid t RUNNING 2 ?d1" by simp
  from steady_events [OF this mid, of envs "Suc n"] show ?thesis
    using run by (simp add: started_run_def starts_task_def numbered_from(2))
qed

text \<open>The event that ends it, by its effect on the database.\<close>

lemma ended_run:
  "deliver_all envs n agent tid 1 (numbered_from 0 (started_run start mid) @ [ev]) d
     = deliver (envs (n + Suc (length mid))) agent tid (2 + int (length mid) + 1) ev
         (deliver_all envs n agent tid 1 (numbered_from 0 (started_run start mid)) d)"
  by (simp add: deliver_all_append numbered_from(2) started_run_def algebra_simps)

lemma started_bound: "starts_task start mid \<Longrightarrow> int4 (2 + int (length mid) + 1)"
  by (simp add: starts_task_def int4_def)

lemma whole_run_delivered:
  assumes "in_work mx agent tid t ACCEPTED 1 d" and "starts_task start mid"
    and d': "d' = deliver_all envs n agent tid 1 (numbered_from 0 (whole_run start mid data)) d"
  shows "in_work mx agent tid t COMPLETED (2 + int (length mid) + 1) d'"
    and "map_option t_result (get_task d' tid) = Some (dict_get data ''result'')"
  using completed_event [OF started_run_delivered [OF assms(1,2)] _ _ started_bound [OF assms(2)]]
  by (simp_all add: d' whole_run_def numbered_from_append ended_run)

lemma failed_run_delivered:
  assumes "in_work mx agent tid t ACCEPTED 1 d" and "starts_task start mid"
    and d': "d' = deliver_all envs n agent tid 1 (numbered_from 0 (started_run start mid) @ [failed_event k data]) d"
  shows "in_work mx agent tid t FAILED (2 + int (length mid) + 1) d'"
    and "map_option t_result (get_task d' tid)
         = Some (JObj [(''error_code'', dict_get data ''error_code''), (''message'', dict_get data ''message'')])"
  using failing_event [OF started_run_delivered [OF assms(1,2)] _ _ started_bound [OF assms(2)]]
  by (simp_all add: d' ended_run failed_event_def)

text \<open>A task that is not ACCEPTED is not polled, and the rounds that follow do nothing to it.\<close>

lemma not_polled:
  assumes "db_inv mx d" and "get_task d tid = Some t" and "t_status t \<noteq> ACCEPTED"
  shows "find (\<lambda>p. pt_task_id p = tid) (map pending_of_task (get_pending_tasks d agent)) = None"
proof -
  have "u = t" if "u \<in> set (db_tasks d)" "t_id u = tid" for u
    using that assms(1,2) get_task_mem by (fastforce simp: db_inv_def)
  then show ?thesis
    using assms(3) by (auto simp: find_None_iff pending_of_task_def get_pending_tasks_def)
qed

lemma idle_rounds:
  assumes "linked cl sv envs" and "enrolled cl d" and "db_inv mx d" and "get_task d tid = Some t" and "t_status t \<noteq> ACCEPTED"
  shows "work_rounds cl tid sp handler runs backoff (n, d) = (replicate (length runs) False, n + length runs, d)"
  by (induction runs arbitrary: backoff n)
     (simp_all add: poll_served [OF assms(1,2)] not_polled [OF assms(3-5)] del: find.simps)

lemma run_executed:
  assumes "\<forall>e \<in> set es. wf_json (JObj (snd e))"
  shows "execute p sp (Process code err) (map (\<lambda>e. quiet (Line (line_of e))) es @ [quiet Eof])
     = (if code = 0 then numbered_from 0 es
        else numbered_from 0 es @ [failed_event (int (length es) + 1)
               [(''error'', JStr ''SUBPROCESS_FAILED''), (''exit_code'', JInt code), (''stderr'', JStr err)]], Finished)"
  using read_written [OF assms] numbered_from_last by (simp add: execute_def Let_def)

lemma quiet_turns_wf: "turns_wf (map (\<lambda>e. quiet (Line (line_of e))) es @ [quiet Eof])"
  by (auto simp: turns_wf_def quiet_def)

text \<open>The first round of an ACCEPTED task dispatches it, and none of the later ones when it ends in another status.\<close>

lemma one_round:
  assumes link: "linked cl sv envs" and path: "task_path_ok tid" and serving: "serving cl mx tid d"
    and t: "get_task d tid = Some t" "t_status t = ACCEPTED" and turns: "turns_wf turns"
    and run: "\<And>p. fst (execute p sp handler turns) = events" and len: "1 + int (length events) \<le> 2147483647"
    and d': "d' = deliver_all envs (Suc (Suc n)) (cl_agent_id cl) tid 1 events d"
    and t': "get_task d' tid = Some t'" "t_status t' \<noteq> ACCEPTED"
  shows "\<exists>n'. work_rounds cl tid sp handler (turns # runs) backoff (n, d) = (True # replicate (length runs) False, n', d')"
proof -
  have enrolled: "enrolled cl d" and ex: "t_executor t = Some (cl_agent_id cl)"
    using serving t by (auto simp: serving_def)
  obtain p where p: "find (\<lambda>p. pt_task_id p = tid) (map pending_of_task (get_pending_tasks d (cl_agent_id cl))) = Some p"
      "pt_task_id p = tid"
    using polled_task [OF t(1) ex t(2)] by blast
  obtain ps where first: "dispatch cl p sp handler turns (Suc n, d) = (ps, Suc (Suc n) + length events, d')"
    using dispatch_delivers [OF link path serving p(2) turns, of sp handler "Suc n"] len unfolding run d' by auto
  have "serving cl mx tid d'" unfolding d' by (rule serving_deliver_all [OF serving])
  then have "enrolled cl d'" "db_inv mx d'" by (simp_all add: serving_def)
  from idle_rounds [OF link this t', of sp handler runs poll_base_backoff]
  show ?thesis by (simp add: poll_served [OF link enrolled] p(1) first del: find.simps)
qed

end
