(* ===== verification/Props_Network.thy ===== *)
theory Props_Network
  imports Sample_Sidecar Task_Run "HOL-Library.Multiset"
begin

text \<open>
  The properties of a sidecar's session with the server, through signing, HTTP, routing, authentication
  and JSON: registering, heartbeats, polling, and the task that is started again for ever.
\<close>

section \<open>Registering\<close>

lemma register_answered:
  assumes "register_attempt cl s = (Reply status b, s')" and "status \<in> {200, 201, 409}"
  shows "self_register cl s = \<lparr>rr_outcome = (if status = 409 then Rejected 409 else Registered), rr_posts = 1, rr_sleeps = [], rr_world = s'\<rparr>"
  using register_loop_stop [where post = "register_attempt cl", OF _ assms(1), where attempt = 0 and b = register_base_backoff] assms(2)
  by (auto simp: self_register_def REGISTER_RETRIES_def)

text \<open>C13: Registration through the network. A sidecar with a valid agent id registers with one post. Under a
  new id it is then enrolled with its own key, as REGISTERED, and no other agent has changed. Under its
  own id it is answered with the stored agent and nothing changes. Under an id that has another key it is
  rejected with 409 and nothing changes.\<close>

theorem registration_served:
  assumes "linked cl sv envs" and "reachable cfg d" and "validate_agent_id (cl_agent_id cl)"
  shows "case get_agent d (cl_agent_id cl) of
           None \<Rightarrow> \<exists>d'. self_register cl (n, d) = \<lparr>rr_outcome = Registered, rr_posts = 1, rr_sleeps = [], rr_world = (Suc n, d')\<rparr>
                     \<and> enrolled cl d' \<and> (\<forall>k. get_agent d' k = (if k = cl_agent_id cl
                          then Some (new_agent (envs n) (own_registration cl)) else get_agent d k))
         | Some a \<Rightarrow> self_register cl (n, d) =
                       \<lparr>rr_outcome = (if a_public_key a = b64encode (cl_public_bytes cl (cl_private_key cl)) then Registered
                                      else Rejected 409),
                        rr_posts = 1, rr_sleeps = [], rr_world = (Suc n, d)\<rparr>"
proof (cases "get_agent d (cl_agent_id cl)")
  case None
  let ?body = "own_registration cl" and ?d' = "snd (register_agent (envs n) (own_registration cl) d)"
  have body: "rr_agent_id ?body = cl_agent_id cl" "rr_display_name ?body = None"
    "rr_public_key ?body = b64encode (cl_public_bytes cl (cl_private_key cl))"
    by (simp_all add: own_registration_def)
  have valid: "get_agent d (rr_agent_id ?body) = None" "validate_agent_id (rr_agent_id ?body)"
    "validate_public_key (rr_public_key ?body)" "max_len 256 (rr_display_name ?body)"
    using None assms(3) own_key_valid [OF assms(1)] by (simp_all add: body max_len_def)
  note run = register_run [OF assms(2) valid, where env = "envs n"]
  have "register_attempt cl (n, d) = (Reply 201 (Some (JObj (build_register_response (sv_dump_time sv) (new_agent (envs n) ?body)))),
          Suc n, ?d')"
    using run(1) by (cases "register_agent (envs n) ?body d")
      (simp add: register_served [OF assms(1)] register_endpoint_def respond_def response_of_def)
  from register_answered [OF this] have "self_register cl (n, d)
      = \<lparr>rr_outcome = Registered, rr_posts = 1, rr_sleeps = [], rr_world = (Suc n, ?d')\<rparr>" by simp
  moreover have "get_agent ?d' k = (if k = cl_agent_id cl then Some (new_agent (envs n) ?body) else get_agent d k)" for k
    using run(2) [of k] by (simp add: body)
  moreover from this have "enrolled cl ?d'"
    by (simp add: enrolled_def) (simp add: new_agent_def body)
  ultimately show ?thesis using None by auto
next
  case (Some a)
  let ?own = "a_public_key a = b64encode (cl_public_bytes cl (cl_private_key cl))"
  have run: "register_agent (envs n) (own_registration cl) d
      = (if ?own then Inr (a, False) else Inl (Fleet AGENT_EXISTS), d)"
    using Some assms(3) own_key_valid [OF assms(1)] by (simp add: register_agent_def own_registration_def)
  have "\<exists>b. register_attempt cl (n, d) = (Reply (if ?own then 200 else 409) b, Suc n, d)"
    by (simp add: register_served [OF assms(1)] register_endpoint_def respond_def run response_of_def)
  then show ?thesis using register_answered Some by (cases ?own) (fastforce simp: Some)+
qed

lemma registration_served_witness:
  "\<exists>d'. self_register sample_client (0, empty_db)
          = \<lparr>rr_outcome = Registered, rr_posts = 1, rr_sleeps = [], rr_world = (1, d')\<rparr>
        \<and> enrolled sample_client d'"
proof -
  have "reachable sample_settings empty_db" by (simp add: reachable_def)
  moreover have "validate_agent_id (cl_agent_id sample_client)" unfolding sample_agent_of by code_simp
  ultimately show ?thesis
    using registration_served [OF sample_linked, of sample_settings empty_db 0] by (auto simp: get_agent_def empty_db_def)
qed

section \<open>Heartbeats\<close>

lemma beat_beat: "beat t2 (beat t1 a) = beat t2 a"
  by (cases "a_status a") (simp_all add: beat_def Let_def)

text \<open>C14: Heartbeats keep an agent alive. The heartbeat loop of an enrolled sidecar runs for ever at its
  interval, each round one post; after any number of rounds the agent is stored as the last beat
  makes it: with that time, ACTIVE if it was REGISTERED or UNREACHABLE, and otherwise as it was.\<close>

theorem heartbeats_served:
  assumes "linked cl sv envs" and "\<forall>n. env_settings (envs n) = cfg"
    and "reachable cfg d" and "enrolled cl d" and "get_agent d (cl_agent_id cl) = Some a"
  shows "\<exists>d'. run_heartbeat cl interval heartbeat_base_backoff m (n, d) = (replicate m interval, True, n + m, d')
           \<and> reachable cfg d' \<and> enrolled cl d'
           \<and> get_agent d' (cl_agent_id cl) = Some (if m = 0 then a else beat (env_now (envs (n + m - 1))) a)"
  using assms(3-5)
proof (induction m arbitrary: n d a)
  case (Suc m)
  let ?d = "snd (heartbeat (envs n) (cl_agent_id cl) (cl_agent_id cl) d)" and ?a = "beat (env_now (envs n)) a"
  note run = heartbeat_run [OF Suc.prems(1,3), where env = "envs n"]
  have step: "reachable cfg ?d"
    using Suc.prems(1) server_step.call [of "envs n" cfg d any_input "Heartbeat (cl_agent_id cl) (cl_agent_id cl)"] assms(2)
    unfolding reachable_def by (auto intro: rtranclp.rtrancl_into_rtrancl)
  have enr: "enrolled cl ?d"
    using Suc.prems(2,3) run(2) by (auto simp: enrolled_def beat_def Let_def)
  have "\<exists>b. cl_send cl (signed_request cl ''POST'' (''/agents/'' @ cl_agent_id cl @ ''/heartbeat'') [] (n, d)) (n, d)
      = (Reply 200 b, Suc n, ?d)"
    using run(1) unfolding heartbeat_served [OF assms(1) Suc.prems(2)]
    by (cases "heartbeat (envs n) (cl_agent_id cl) (cl_agent_id cl) d")
       (auto simp: heartbeat_endpoint_def heartbeat_response_def response_of_def beat_def Let_def)
  moreover obtain d' where "run_heartbeat cl interval heartbeat_base_backoff m (Suc n, ?d) = (replicate m interval, True, Suc n + m, d')"
      "reachable cfg d'" "enrolled cl d'"
      "get_agent d' (cl_agent_id cl) = Some (if m = 0 then ?a else beat (env_now (envs (Suc n + m - 1))) ?a)"
    using Suc.IH [OF step enr run(2)] by blast
  ultimately show ?case by (auto simp: beat_beat)
qed simp

lemma heartbeats_served_witness:
  "\<exists>d'. run_heartbeat sample_client 30 heartbeat_base_backoff 2 (0, sample_accepted) = ([30, 30], True, 2, d')
     \<and> get_agent d' ''p'' = Some (beat 7 sample_agent)"
proof -
  have cfg: "\<forall>n :: nat. env_settings (env_at 7 []) = sample_settings" by simp
  have agent: "get_agent sample_accepted (cl_agent_id sample_client) = Some sample_agent" using sample_agents by simp
  show ?thesis
    using heartbeats_served [OF sample_linked cfg reachable_accepted sample_enrolled(1) agent, of 30 2 0]
    by (auto simp: numeral_2_eq_2 env_at_def)
qed

section \<open>Polling\<close>



section \<open>The task that never ends\<close>



section \<open>The task that is done once\<close>







end
