(* ===== verification/Props_Http.thy ===== *)
theory Props_Http
  imports Sample_Sidecar
begin

text \<open>
  The properties of the HTTP server as a whole: where a request goes, what any request at all can do to
  the database, and who can do it.
\<close>

section \<open>Routing\<close>


section \<open>Every request is a call\<close>

lemma registration_route:
  assumes "find_route m path = Found r args" and "ro_endpoint r = Register_Agent"
  shows "m = ''POST'' \<and> path = ''/agents/register''"
  using find_routeD [OF assms(1)] assms(2) by (auto simp: app_routes_defs)

lemma serve_db:
  "snd (serve sv env request headers d) = d
   \<or> r_method request = ''POST'' \<and> r_path request = ''/agents/register''
      \<and> (\<exists>body. snd (serve sv env request headers d) = handle (sv_validate sv) env (RegisterAgent body) d)
   \<or> (\<exists>agent key. authenticate sv env request d = Authenticated agent key
        \<and> called (sv_validate sv) env agent d (snd (serve sv env request headers d)))"
proof (cases "find_route (r_method request) (r_path request)")
  case (Found r args)
  note route = this
  show ?thesis
  proof (cases "read_body sv (ro_endpoint r) (r_body request)")
    case None
    then show ?thesis by (simp add: serve_def route)
  next
    case (Some body)
    note answer = endpoint_answer_called [of sv env headers "sv_query sv (r_query request)" body _ "ro_endpoint r" args d]
    show ?thesis
      using answer [of None] answer [of "Some _"] registration_route [OF route]
      by (auto simp: serve_def route Some Let_def split: auth_outcome.splits)
  qed
qed (simp_all add: serve_def)

text \<open>C3: Nothing but the calls is behind the HTTP interface. Whatever a request is made of (method, path,
  query, headers, bytes of the body), it leaves the database as it is, or it is the registration, or it
  does exactly what one call of the model does whose caller is the agent as which the request was
  authenticated. So every database that requests lead to is reachable by calls, and has all that is
  proved of reachable databases.\<close>

theorem requests_are_calls:
  assumes "reachable cfg d" and "env_settings env = cfg" and "serve sv env request headers d = (response, d')"
  shows "reachable cfg d'
         \<and> (d' = d
            \<or> r_method request = ''POST'' \<and> r_path request = ''/agents/register''
               \<and> (\<exists>body. d' = handle (sv_validate sv) env (RegisterAgent body) d)
            \<or> (\<exists>agent key c. authenticate sv env request d = Authenticated agent key
                 \<and> signed_call c \<and> caller_of c = agent \<and> d' = handle (sv_validate sv) env c d))"
proof -
  have step: "reachable cfg (handle (sv_validate sv) env c d)" for c
    using assms(1) server_step.call [OF assms(2)] unfolding reachable_def
    by (meson rtranclp.rtrancl_into_rtrancl)
  have db: "snd (serve sv env request headers d) = d'" using assms(3) by simp
  from serve_db [of sv env request headers d] have cases: "d' = d
            \<or> r_method request = ''POST'' \<and> r_path request = ''/agents/register''
               \<and> (\<exists>body. d' = handle (sv_validate sv) env (RegisterAgent body) d)
            \<or> (\<exists>agent key c. authenticate sv env request d = Authenticated agent key
                 \<and> signed_call c \<and> caller_of c = agent \<and> d' = handle (sv_validate sv) env c d)"
    unfolding db called_def by blast
  moreover have "reachable cfg d'" using cases step assms(1) by (elim disjE exE conjE) (simp_all only:)
  ultimately show ?thesis by blast
qed

text \<open>For the instances: the sample sidecar, which is also the principal of its task, cancels it.\<close>

definition sample_cancel :: request where
  "sample_cancel = signed_request sample_client ''POST'' ''/workflows/w/tasks/task-1/cancel'' [] (0, sample_running)"

definition sample_cancelled :: db where
  "sample_cancelled = snd (serve sample_externals (env_at 7 []) sample_cancel (\<lambda>_. None) sample_running)"

lemma requests_are_calls_witness: "reachable sample_settings sample_cancelled"
proof -
  obtain response d' where s: "serve sample_externals (env_at 7 []) sample_cancel (\<lambda>_. None) sample_running = (response, d')"
    by (rule prod.exhaust)
  show ?thesis
    using requests_are_calls [OF reachable_running env_at_settings s] s by (simp add: sample_cancelled_def)
qed

section \<open>Who changes a task\<close>

definition may_change :: "db \<Rightarrow> string \<Rightarrow> task \<Rightarrow> bool" where
  "may_change d agent t =
     (agent = t_principal t \<or> t_executor t = Some agent
      \<or> (\<exists>w. get_workflow d (t_workflow_id t) = Some w \<and> agent = w_owner w))"

definition changed :: "db \<Rightarrow> db \<Rightarrow> string \<Rightarrow> bool" where
  "changed d d' k = (get_task d' k \<noteq> get_task d k \<or> task_events d' k \<noteq> task_events d k)"

context principal_operation begin

lemma changer:
  assumes "get_task d k = Some t" and "changed d (snd (run_tx (opr d) d)) k"
  shows "may_change d caller t"
proof -
  have "k = tid" using others_kept [OF assms(1)] assms by (auto simp: changed_def)
  moreover have "snd (run_tx (opr d) d) \<noteq> d" using assms(2) by (auto simp: changed_def)
  ultimately show ?thesis using only_principal [of d] assms(1) by (auto simp: may_change_def)
qed

end

context executor_operation begin

lemma changer:
  assumes "get_task d k = Some t" and "changed d (snd (run_tx (opr d) d)) k"
  shows "may_change d caller t"
proof -
  have "k = tid" using others_kept [OF assms(1)] assms by (auto simp: changed_def)
  moreover have "snd (run_tx (opr d) d) \<noteq> d" using assms(2) by (auto simp: changed_def)
  ultimately show ?thesis using only_executor [of d] assms(1) by (auto simp: may_change_def)
qed

end

context registry_operation begin

lemma no_change: "\<not> changed d (snd (opr d)) k"
  by (simp add: changed_def get_task_kept task_events_kept)

end

lemmas registry_changes = register_op.no_change heartbeat_op.no_change sweep_op.no_change
  create_workflow_op.no_change update_workflow_op.no_change

lemmas task_changers = cancel_op.changer retask_op.changer redirect_op.changer pause_op.changer resume_op.changer
  inject_op.changer sidecar_op.changer

lemma call_changes:
  assumes t: "get_task d k = Some t" and changed: "changed d (handle validate env c d) k"
  shows "may_change d (caller_of c) t"
proof (cases c)
  case (CreateTask wid caller inp ex prio to key md cb)
  then show ?thesis
    using create_kept [OF t, of validate env wid caller inp ex prio to key md cb] t changed
    by (simp add: changed_def)
qed (use changed in \<open>auto simp only: handle.simps caller_of.simps registry_changes intro: task_changers [OF t]\<close>)

text \<open>C2: Only signed requests of the right agents change a task. If a request changes a stored task or
  appends to its log, then it carries a signature that verifies, under the key of a registered agent
  that is not suspended, over this very method, path with query, timestamp and body, with a
  timestamp within five minutes of the server's clock; and that agent is the task's principal, its
  executor or the owner of its workflow.\<close>

theorem changes_are_signed:
  assumes "serve sv env request headers d = (response, d')" and "get_task d k = Some t" and "changed d d' k"
  shows "\<exists>agent row key header signature timestamp ts.
           r_authorization request = Some header
           \<and> parse_authorization_header header = Some (agent, signature)
           \<and> r_timestamp request = Some timestamp
           \<and> sv_fromisoformat sv timestamp = Some ts \<and> \<bar>env_now_utc env - ts\<bar> \<le> REPLAY_WINDOW
           \<and> get_agent d agent = Some row \<and> public_key_of (a_public_key row) = Inr key \<and> a_status row \<noteq> SUSPENDED
           \<and> sv_verify sv key signature
               (build_signing_string (sv_sha256 sv) (r_method request) (signed_path request) timestamp (r_body request))
           \<and> may_change d agent t"
proof -
  have db: "snd (serve sv env request headers d) = d'" using assms(1) by simp
  have "d' \<noteq> d" "d' \<noteq> handle (sv_validate sv) env (RegisterAgent body) d" for body
    using assms(3) registry_changes(1) by (auto simp: changed_def)
  then obtain agent key where auth: "authenticate sv env request d = Authenticated agent key"
      and "called (sv_validate sv) env agent d d'"
    using serve_db [of sv env request headers d] unfolding db by blast
  then have "may_change d agent t"
    using assms(2,3) call_changes \<open>d' \<noteq> d\<close> by (auto simp: called_def)
  moreover obtain row where "get_agent d agent = Some row" "public_key_of (a_public_key row) = Inr key" "a_status row \<noteq> SUSPENDED"
    using auth unfolding authenticate_def db_lookup.identity_iff
    by (auto simp: registered_agent_def split: option.splits sum.splits)
  ultimately show ?thesis
    using auth unfolding authenticate_def db_lookup.identity_iff by blast
qed

lemma sample_cancel_served:
  "sample_cancelled = snd (cancel_task_endpoint (env_at 7 []) ''p'' ''w'' ''task-1'' None sample_running)"
proof -
  let ?r = "protected_route ''POST'' [Lit ''workflows'', Param, Lit ''tasks'', Param, Lit ''cancel''] Cancel_Task"
  have route: "?r \<in> set app_routes" "ro_protected ?r" "args_ok (ro_template ?r) [''w'', ''task-1'']"
    "fill (ro_template ?r) [''w'', ''task-1''] \<notin> set unprotected_paths"
    "read_body sample_externals (ro_endpoint ?r) [] = Some None"
    by (simp_all add: app_routes_def task_routes_def)
       (simp_all add: protected_route_def args_ok_def unprotected_paths_def read_body_def)
  show ?thesis
    using serve_signed [OF sample_linked sample_enrolled(2) route, of 0 "\<lambda>_. None"]
    by (simp add: sample_cancelled_def sample_cancel_def protected_route_def endpoint_answer_def call_endpoint_def
        with_optional_body_def Let_def)
qed

lemma changes_are_signed_witness:
  "\<exists>agent key header signature timestamp row.
     r_authorization sample_cancel = Some header
     \<and> parse_authorization_header header = Some (agent, signature)
     \<and> r_timestamp sample_cancel = Some timestamp
     \<and> get_agent sample_running agent = Some row \<and> public_key_of (a_public_key row) = Inr key
     \<and> sample_verify key signature
         (build_signing_string (\<lambda>_. ''00'') (r_method sample_cancel) (signed_path sample_cancel) timestamp (r_body sample_cancel))
     \<and> may_change sample_running agent sample_running_task"
proof -
  have changed: "changed sample_running sample_cancelled ''task-1''"
    unfolding sample_cancel_served by code_simp
  obtain response where "serve sample_externals (env_at 7 []) sample_cancel (\<lambda>_. None) sample_running = (response, sample_cancelled)"
    unfolding sample_cancelled_def by (metis prod.collapse)
  from changes_are_signed [OF this sample_lookups(5) changed] show ?thesis
    by (simp add: sample_externals_def) blast
qed

end
