(* ===== verification/Interruption.thy ===== *)
theory Interruption
  imports Executor
begin

text \<open>
  The executor and the signal poller together: a pass of the read loop in \<open>executor.py\<close> looks at the state
  of \<open>signal_state.py\<close> twice, for a redirect or a cancellation, and then, when the task is paused, until
  it is resumed. The inputs of \<open>Executor\<close> are computed here from the signals that are handled between.
\<close>

section \<open>A pass of the loop\<close>

text \<open>The signals handled since the last pass, those handled while it waits for a resume, and what it reads.
  The acknowledgements do not matter for the state (\<open>fold_process_state\<close>).\<close>

record pass =
  pa_before :: "signal list"
  pa_waiting :: "signal list"
  pa_reading :: reading

text \<open>
  Waiting until the task is not paused: whether it came to that, the signals that are left, and the
  state. The waiter goes on as soon as the event is set, while the acknowledgement is being posted.
\<close>

fun wait_if_paused :: "string \<Rightarrow> signal list \<Rightarrow> signal_state \<Rightarrow> bool \<times> signal list \<times> signal_state" where
  "wait_if_paused t [] st = (\<not> is_paused st t, [], st)"
| "wait_if_paused t (sig # sigs) st =
     (if is_paused st t then wait_if_paused t sigs (process_state sig st) else (True, sig # sigs, st))"

text \<open>The turns of the passes, and the state after them; \<open>late\<close> are the signals that were left of a wait.
  A pass that is still paused when its signals are used up waits until the timeout.\<close>

fun turns_of :: "string \<Rightarrow> signal list \<Rightarrow> pass list \<Rightarrow> signal_state \<Rightarrow> turn list \<times> signal_state" where
  "turns_of t late [] st = ([], fold process_state late st)"
| "turns_of t late (p # ps) st =
     (let checked = fold process_state (late @ pa_before p) st;
          (resumed, late', waited) = wait_if_paused t (pa_waiting p) checked;
          (contexts, popped) = pop_context t waited;
          (turns, final) = turns_of t late' ps popped
      in (\<lparr>tu_redirect = get_redirect checked t, tu_cancelled = is_cancelled checked t,
           tu_pause_expired = \<not> resumed, tu_contexts = contexts, tu_reading = pa_reading p\<rparr> # turns, final))"

definition execute_signalled ::
    "pending_task \<Rightarrow> handler \<Rightarrow> pass list \<Rightarrow> signal_state \<Rightarrow> sidecar_event list \<times> execution_end" where
  "execute_signalled task handler passes st =
     execute task True handler (fst (turns_of (pt_task_id task) [] passes st))"

section \<open>What signals do to the state\<close>

lemmas signal_defs = dispatch_signal_def handle_pause_def handle_resume_def handle_cancel_def handle_redirect_def
  handle_context_injection_def wake_def set_pause_event_def set_cancel_def set_redirect_def is_paused_def
  is_cancelled_def get_redirect_def mark_signal_processed_def has_task_def Let_def

text \<open>A cancellation and a redirect are never taken back.\<close>

lemma cancelled_stays: "is_cancelled st t \<Longrightarrow> is_cancelled (process_state sig st) t"
  by (auto simp: process_state_def signal_defs split: option.splits bool.splits if_splits)

lemma redirect_stays: "get_redirect st t \<noteq> None \<Longrightarrow> get_redirect (process_state sig st) t \<noteq> None"
  by (auto simp: process_state_def signal_defs split: option.splits bool.splits if_splits)

lemma fold_cancelled: "is_cancelled st t \<Longrightarrow> is_cancelled (fold process_state sigs st) t"
  by (induction sigs arbitrary: st) (simp_all add: cancelled_stays)

lemma fold_redirect: "get_redirect st t \<noteq> None \<Longrightarrow> get_redirect (fold process_state sigs st) t \<noteq> None"
proof (induction sigs arbitrary: st)
  case (Cons sig sigs)
  show ?case using Cons.IH [OF redirect_stays [OF Cons.prems]] by simp
qed simp

text \<open>A fresh signal of a registered task that stops it.\<close>

definition stops :: "string \<Rightarrow> signal_state \<Rightarrow> signal \<Rightarrow> bool" where
  "stops t st sig =
     (sg_task_id sig = t \<and> sg_signal_type sig \<in> {''cancel_requested'', ''redirect_requested''}
      \<and> t \<in> registered st \<and> signal_key sig \<notin> set (processed_signals st))"

lemma process_stop:
  assumes "stops t st sig"
  shows "is_cancelled (process_state sig st) t" and "\<not> is_paused (process_state sig st) t"
    and "sg_signal_type sig = ''redirect_requested'' \<Longrightarrow> get_redirect (process_state sig st) t \<noteq> None"
    and "sg_signal_type sig = ''cancel_requested'' \<Longrightarrow> get_redirect (process_state sig st) t = get_redirect st t"
proof -
  have fresh: "signal_key sig \<notin> set (processed_signals st)" and sig: "sg_task_id sig = t"
      "sg_signal_type sig = ''cancel_requested'' \<or> sg_signal_type sig = ''redirect_requested''"
    and reg: "pause_events st t \<noteq> None"
    using assms by (auto simp: stops_def registered_def)
  show "is_cancelled (process_state sig st) t" "\<not> is_paused (process_state sig st) t"
    using fresh sig reg by (auto simp: process_state_def signal_defs)
  show "sg_signal_type sig = ''redirect_requested'' \<Longrightarrow> get_redirect (process_state sig st) t \<noteq> None"
    "sg_signal_type sig = ''cancel_requested'' \<Longrightarrow> get_redirect (process_state sig st) t = get_redirect st t"
    using fresh sig reg by (auto simp: process_state_def signal_defs)
qed

section \<open>Passes in sequence\<close>

lemma wait_registered: "wait_if_paused t sigs st = (r, late, st') \<Longrightarrow> registered st' = registered st"
  by (induction t sigs st rule: wait_if_paused.induct) (auto split: if_splits)

lemma turns_append:
  assumes "qs \<noteq> []"
  shows "turns_of t late (ps @ qs) st =
     (let (turns, st') = turns_of t late ps st; (turns', st'') = turns_of t [] qs st' in (turns @ turns', st''))"
proof (induction ps arbitrary: late st)
  case Nil
  show ?case using assms by (cases qs) simp_all
next
  case (Cons p ps)
  show ?case by (simp add: Cons.IH Let_def split: prod.splits)
qed

text \<open>A loop that is still reading after its turns goes on with the next ones.\<close>

lemma read_events_append:
  "read_events signals k turns = (events, Unfinished) \<Longrightarrow>
   read_events signals k (turns @ turns') =
     (let (events', e) = read_events signals (k + int (length events)) turns' in (events @ events', e))"
proof (induction signals k turns arbitrary: events rule: read_events.induct)
  case (2 signals k tu turns)
  show ?case
  proof (cases "tu_reading tu")
    case (Line l)
    let ?k = "k + int (length (if signals then number_contexts k (tu_contexts tu) else []))"
    show ?thesis
      using 2 Line
      by (cases "event_of_line ?k l")
         (auto simp: Let_def algebra_simps split: prod.splits if_splits)
  qed (use 2 in \<open>auto simp: Let_def split: if_splits\<close>)
qed simp

text \<open>The rest of an execution that is still reading after its earlier passes.\<close>

lemma execute_after:
  assumes "pt_task_id task \<noteq> []" and "qs \<noteq> []"
    and "turns_of (pt_task_id task) [] earlier st = (turns, st0)" and "read_events True 0 turns = (events, Unfinished)"
    and "read_events True (int (length events)) (fst (turns_of (pt_task_id task) [] qs st0)) = (events', e)"
  shows "read_events (True \<and> pt_task_id task \<noteq> []) 0 (fst (turns_of (pt_task_id task) [] (earlier @ qs) st)) = (events @ events', e)"
    and "last_number (events @ events') = int (length events) + int (length events')"
proof -
  have "fst (turns_of (pt_task_id task) [] (earlier @ qs) st) = turns @ fst (turns_of (pt_task_id task) [] qs st0)"
    using turns_append [OF assms(2), of "pt_task_id task" "[]" earlier st] assms(3) by (simp split: prod.splits)
  then show read: "read_events (True \<and> pt_task_id task \<noteq> []) 0 (fst (turns_of (pt_task_id task) [] (earlier @ qs) st)) = (events @ events', e)"
    using read_events_append [OF assms(4)] assms(1,5) by simp
  show "last_number (events @ events') = int (length events) + int (length events')"
    using last_number_read [of "True \<and> pt_task_id task \<noteq> []" "fst (turns_of (pt_task_id task) [] (earlier @ qs) st)"]
    unfolding read by simp
qed

definition cancelled_event :: "int \<Rightarrow> sidecar_event" where
  "cancelled_event sequence =
     \<lparr>ev_type = ''status'', ev_data = Some [(''status'', JStr ''cancelled''), (''reason'', JStr ''Cancelled by signal'')],
      ev_sequence = sequence\<rparr>"

end
