(* ===== verification/Props_Execution.thy ===== *)
theory Props_Execution
  imports Interruption Sample_Sidecar
begin

text \<open>
  What the signals of a task do to its execution: a cancellation or a redirect ends it at the next pass of the
  read loop, and what happens when it comes while the task is paused.
\<close>

text \<open>C21: Signals stop an execution. When a fresh cancellation or redirect of the task is handled before a pass of
  the read loop, among whatever other signals, the execution ends at this pass: what the handler writes
  from then on, its exit code and later signals do not matter. Its events are those yielded before and,
  unless the task is redirected, one last event with the next number that reports the cancellation.\<close>

theorem signals_stop_execution:
  assumes task: "pt_task_id task \<noteq> []"
    and run: "turns_of (pt_task_id task) [] earlier st = (turns, st0)" "read_events True 0 turns = (events, Unfinished)"
    and sig: "pa_before p = xs @ sig # ys" "stops (pt_task_id task) (fold process_state xs st0) sig"
  shows "let redirected = (get_redirect (fold process_state (pa_before p) st0) (pt_task_id task) \<noteq> None)
         in execute_signalled task (Process code err) (earlier @ p # rest) st
              = (if redirected then events else events @ [cancelled_event (int (length events) + 1)], Finished)
            \<and> (sg_signal_type sig = ''redirect_requested'' \<longrightarrow> redirected)"
proof -
  let ?t = "pt_task_id task" and ?st = "fold process_state (pa_before p) st0"
  note stop = process_stop [OF sig(2)]
  have cancelled: "is_cancelled ?st ?t"
    using fold_cancelled [OF stop(1)] by (simp add: sig(1))
  have redirected: "sg_signal_type sig = ''redirect_requested'' \<longrightarrow> get_redirect ?st ?t \<noteq> None"
    using fold_redirect [OF stop(3)] by (simp add: sig(1))
  have "read_events True (int (length events)) (fst (turns_of ?t [] (p # rest) st0))
      = ([], case get_redirect ?st ?t of None \<Rightarrow> Cancelled | Some r \<Rightarrow> Redirected r)"
    using cancelled by (auto simp: Let_def split: prod.splits option.splits)
  note tail = execute_after [OF task _ run this, simplified]
  show ?thesis
    using redirected tail
    by (simp add: execute_signalled_def execute_def cancelled_event_def split: option.splits)
qed

definition sample_signal :: "string \<Rightarrow> string \<Rightarrow> signal" where
  "sample_signal ty at = \<lparr>sg_task_id = ''task-1'', sg_signal_type = ty, sg_timestamp = at, sg_payload = None\<rparr>"

definition sample_line :: pass where
  "sample_line = \<lparr>pa_before = [], pa_waiting = [], pa_reading = Line ''{}''\<rparr>"

definition sample_state :: signal_state where
  "sample_state = register_task ''task-1'' initial_signals"

lemma sample_signal_type: "sg_signal_type (sample_signal ty at) = ty"
  by (simp add: sample_signal_def)

lemma sample_state_simps [simp]:
  "registered sample_state = {''task-1''}" "processed_signals sample_state = []"
  by (simp add: sample_state_def) (simp add: sample_state_def register_task_def initial_signals_def)

lemma sample_line_read:
  "turns_of ''task-1'' [] [sample_line] sample_state
     = ([\<lparr>tu_redirect = None, tu_cancelled = False, tu_pause_expired = False, tu_contexts = [], tu_reading = Line ''{}''\<rparr>],
        sample_state)"
  "read_events True 0
     [\<lparr>tu_redirect = None, tu_cancelled = False, tu_pause_expired = False, tu_contexts = [], tu_reading = Line ''{}''\<rparr>]
     = ([\<lparr>ev_type = ''log'', ev_data = None, ev_sequence = 1\<rparr>], Unfinished)"
  by (simp add: sample_line_def sample_state_def register_task_def is_paused_def is_cancelled_def get_redirect_def pop_context_def
      initial_signals_def) code_simp

lemma signals_stop_execution_witness:
  "execute_signalled (pending_of_task sample_task) (Process 3 ''bad'')
      [sample_line, \<lparr>pa_before = [sample_signal ''cancel_requested'' ''t''], pa_waiting = [], pa_reading = Eof\<rparr>] sample_state
     = ([\<lparr>ev_type = ''log'', ev_data = None, ev_sequence = 1\<rparr>, cancelled_event 2], Finished)"
proof -
  let ?p = "\<lparr>pa_before = [sample_signal ''cancel_requested'' ''t''], pa_waiting = [], pa_reading = Eof\<rparr>"
  have id: "pt_task_id (pending_of_task sample_task) = ''task-1''"
    by (simp add: pending_of_task_def sample_task_def)
  have stop: "stops ''task-1'' (fold process_state [] sample_state) (sample_signal ''cancel_requested'' ''t'')"
    by (simp add: stops_def) (simp add: sample_signal_def)
  have "get_redirect (fold process_state (pa_before ?p) sample_state) ''task-1'' = None"
    using process_stop(4) [OF stop] by (simp add: sample_signal_def) (simp add: sample_state_def get_redirect_def register_task_def)
  then show ?thesis
    using signals_stop_execution [of "pending_of_task sample_task" "[sample_line]" sample_state _ sample_state _ ?p "[]"
        "sample_signal ''cancel_requested'' ''t''" "[]" 3 "''bad''" "[]"] sample_line_read stop
    by (simp add: id Let_def)
qed

text \<open>C22: A cancellation of a paused task comes late. It is checked before the wait for a resume and not after it:
  when it ends the wait, the executor first takes the contexts and reads on. If the handler's output is
  at its end, the execution ends as if nothing had been cancelled, with no event or that of a failed
  process; if the handler writes another event, this is reported, and then the cancellation.\<close>

theorem paused_cancel_late:
  assumes task: "pt_task_id task \<noteq> []"
    and run: "turns_of (pt_task_id task) [] earlier st = (turns, st0)" "read_events True 0 turns = (events, Unfinished)"
    and paused: "is_paused (fold process_state (pa_before p) st0) (pt_task_id task)"
      "\<not> is_cancelled (fold process_state (pa_before p) st0) (pt_task_id task)"
      "get_redirect (fold process_state (pa_before p) st0) (pt_task_id task) = None"
    and sig: "pa_waiting p = [sig]" "sg_signal_type sig = ''cancel_requested''"
      "stops (pt_task_id task) (fold process_state (pa_before p) st0) sig"
  shows "let contexts = number_contexts (int (length events)) (fst (pop_context (pt_task_id task) (fold process_state (pa_before p) st0)));
             n = int (length events) + int (length contexts)
         in (pa_reading p = Eof \<longrightarrow>
               execute_signalled task (Process code err) (earlier @ p # rest) st
                 = (events @ contexts @ (if code = 0 then []
                      else [failed_event (n + 1) [(''error'', JStr ''SUBPROCESS_FAILED''), (''exit_code'', JInt code), (''stderr'', JStr err)]]),
                    Finished))
            \<and> (\<forall>l e. pa_reading p = Line l \<and> event_of_line n l = Event e \<and> pa_before q = [] \<longrightarrow>
               execute_signalled task (Process code err) (earlier @ p # q # rest) st
                 = (events @ contexts @ [e, cancelled_event (n + 2)], Finished))"
proof -
  let ?t = "pt_task_id task" and ?st = "fold process_state (pa_before p) st0"
  let ?n = "int (length events)"
  let ?ctxs = "fst (pop_context ?t ?st)"
  note stop = process_stop [OF sig(3)]
  have wait: "wait_if_paused ?t (pa_waiting p) ?st = (True, [], process_state sig ?st)"
    using paused(1) stop(2) by (simp add: sig(1))
  have queue: "fst (pop_context ?t (process_state sig ?st)) = ?ctxs"
    using sig(2,3) by (auto simp: pop_context_def process_state_def signal_defs stops_def split: option.splits)
  have kept: "is_cancelled (snd (pop_context ?t s)) ?t = is_cancelled s ?t"
    "get_redirect (snd (pop_context ?t s)) ?t = get_redirect s ?t" for s
    by (auto simp: pop_context_def is_cancelled_def get_redirect_def split: option.splits)
  have eof: "read_events True ?n (fst (turns_of ?t [] (p # rest) st0)) = (number_contexts ?n ?ctxs, Output_End)"
    if "pa_reading p = Eof"
    using that wait queue paused by (auto simp: Let_def split: prod.splits)
  have line: "read_events True ?n (fst (turns_of ?t [] (p # q # rest) st0)) = (number_contexts ?n ?ctxs @ [e], Cancelled)"
    if "pa_reading p = Line l" "event_of_line (?n + int (length ?ctxs)) l = Event e" "pa_before q = []" for l e
    using that wait queue paused stop(1,4) sig(2) kept [of "process_state sig ?st"] by (auto simp: Let_def split: prod.splits)
  show ?thesis
    using execute_after [OF task _ run eof, simplified] execute_after [OF task _ run line, simplified]
    by (auto simp: Let_def execute_signalled_def execute_def cancelled_event_def failed_event_def)
qed

lemma paused_cancel_late_witness:
  "execute_signalled (pending_of_task sample_task) (Process 0 [])
      [sample_line, \<lparr>pa_before = [sample_signal ''pause_requested'' ''t''],
                     pa_waiting = [sample_signal ''cancel_requested'' ''u''], pa_reading = Eof\<rparr>] sample_state
     = ([\<lparr>ev_type = ''log'', ev_data = None, ev_sequence = 1\<rparr>], Finished)"
proof -
  let ?p = "\<lparr>pa_before = [sample_signal ''pause_requested'' ''t''],
             pa_waiting = [sample_signal ''cancel_requested'' ''u''], pa_reading = Eof\<rparr>"
  let ?st = "fold process_state (pa_before ?p) sample_state"
  have id: "pt_task_id (pending_of_task sample_task) = ''task-1''"
    by (simp add: pending_of_task_def sample_task_def)
  have key: "signal_key (sample_signal ''pause_requested'' ''t'') \<noteq> signal_key (sample_signal ''cancel_requested'' ''u'')"
    by (simp add: signal_key_def sample_signal_def)
  have st: "is_paused ?st ''task-1''" "\<not> is_cancelled ?st ''task-1''" "get_redirect ?st ''task-1'' = None"
    "fst (pop_context ''task-1'' ?st) = []"
    by (simp_all add: process_state_def signal_defs sample_signal_def sample_state_def register_task_def
        initial_signals_def pop_context_def)
  have stop: "stops ''task-1'' ?st (sample_signal ''cancel_requested'' ''u'')"
    using key by (simp add: stops_def process_state_processed) (simp add: sample_signal_def)
  show ?thesis
    using paused_cancel_late [of "pending_of_task sample_task" "[sample_line]" sample_state _ sample_state _ ?p
        "sample_signal ''cancel_requested'' ''u''" 0 "[]" "[]"] sample_line_read st stop
    by (simp add: id Let_def sample_signal_type del: turns_of.simps read_events.simps)
qed

end
